theory Spec2Isabelle
  imports Main "HOL-Library.Word"
begin

unbundle bit_operations_syntax

section \<open>The GSD container engine (gsd.c)\<close>

text \<open>
  A shallow embedding of \<^verbatim>\<open>src/gsd/gsd.c\<close>. The file on disk is a byte store with a
  length; structures travel between memory and the file through explicit little-endian
  codecs; every API function takes the handle and the file and returns the return code
  together with the handle and the file as the C code leaves them.
\<close>

subsection \<open>Bytes and C strings\<close>

type_synonym byte = "8 word"

text \<open>A C string is read up to its terminating NUL; the end of the list counts as one.\<close>

definition c_str :: "byte list \<Rightarrow> byte list" where
  "c_str s = takeWhile (\<lambda>c. c \<noteq> 0) s"

definition strlen :: "byte list \<Rightarrow> nat" where
  "strlen s = length (c_str s)"

text \<open>Bytewise comparison of two NUL-free strings as unsigned chars: the sign of the
  first difference, the shorter string first.\<close>

fun cmp_bytes :: "byte list \<Rightarrow> byte list \<Rightarrow> int" where
  "cmp_bytes [] [] = 0"
| "cmp_bytes [] (y # ys) = - 1"
| "cmp_bytes (x # xs) [] = 1"
| "cmp_bytes (x # xs) (y # ys) =
     (if x = y then cmp_bytes xs ys else if x < y then - 1 else 1)"

definition strcmp :: "byte list \<Rightarrow> byte list \<Rightarrow> int" where
  "strcmp a b = cmp_bytes (c_str a) (c_str b)"

definition strncmp :: "byte list \<Rightarrow> byte list \<Rightarrow> nat \<Rightarrow> int" where
  "strncmp a b n = cmp_bytes (take n (c_str a)) (take n (c_str b))"

text \<open>\<^verbatim>\<open>strncpy(dst, src, n)\<close>: the \<open>n\<close> bytes it stores in \<open>dst\<close>.\<close>

definition strncpy :: "byte list \<Rightarrow> nat \<Rightarrow> byte list" where
  "strncpy src n = take n (c_str src) @ replicate (n - strlen src) 0"

text \<open>A string literal as the bytes of a C string.\<close>

definition str :: "string \<Rightarrow> byte list" where
  "str s = map (\<lambda>c. of_char c) s"

text \<open>A byte list seen as memory: reads past its end give 0.\<close>

definition mem_of :: "byte list \<Rightarrow> nat \<Rightarrow> byte" where
  "mem_of xs i = (if i < length xs then xs ! i else 0)"

subsection \<open>Little-endian integers\<close>

fun le_word :: "byte list \<Rightarrow> 'a::len word" where
  "le_word [] = 0"
| "le_word (b # bs) = ucast b OR push_bit 8 (le_word bs)"

fun le_bytes :: "nat \<Rightarrow> 'a::len word \<Rightarrow> byte list" where
  "le_bytes 0 w = []"
| "le_bytes (Suc n) w = ucast w # le_bytes n (drop_bit 8 w)"

definition enc_u16 :: "16 word \<Rightarrow> byte list" where
  "enc_u16 w = [ucast w, ucast (drop_bit 8 w)]"

definition enc_u32 :: "32 word \<Rightarrow> byte list" where
  "enc_u32 w = [ucast w, ucast (drop_bit 8 w), ucast (drop_bit 16 w), ucast (drop_bit 24 w)]"

definition enc_u64 :: "64 word \<Rightarrow> byte list" where
  "enc_u64 w = [ucast w, ucast (drop_bit 8 w), ucast (drop_bit 16 w), ucast (drop_bit 24 w),
                ucast (drop_bit 32 w), ucast (drop_bit 40 w), ucast (drop_bit 48 w),
                ucast (drop_bit 56 w)]"

definition rd_u16 :: "(nat \<Rightarrow> byte) \<Rightarrow> nat \<Rightarrow> 16 word" where
  "rd_u16 m a = le_word [m a, m (a + 1)]"

definition rd_u32 :: "(nat \<Rightarrow> byte) \<Rightarrow> nat \<Rightarrow> 32 word" where
  "rd_u32 m a = le_word [m a, m (a + 1), m (a + 2), m (a + 3)]"

definition rd_u64 :: "(nat \<Rightarrow> byte) \<Rightarrow> nat \<Rightarrow> 64 word" where
  "rd_u64 m a = le_word [m a, m (a + 1), m (a + 2), m (a + 3),
                         m (a + 4), m (a + 5), m (a + 6), m (a + 7)]"

definition rd_bytes :: "(nat \<Rightarrow> byte) \<Rightarrow> nat \<Rightarrow> nat \<Rightarrow> byte list" where
  "rd_bytes m a n = map m [a..<a + n]"

text \<open>A char array of exactly \<open>n\<close> bytes.\<close>

definition fit :: "nat \<Rightarrow> byte list \<Rightarrow> byte list" where
  "fit n xs = take n xs @ replicate (n - length xs) 0"

subsection \<open>Constants and enumerations\<close>

definition GSD_MAGIC_ID :: "64 word" where
  "GSD_MAGIC_ID = 0x65DF65DF65DF65DF"

definition GSD_INITIAL_INDEX_SIZE :: nat where
  "GSD_INITIAL_INDEX_SIZE = 128"

definition GSD_INITIAL_NAMELIST_SIZE :: nat where
  "GSD_INITIAL_NAMELIST_SIZE = 65535"

definition GSD_COPY_BUFFER_SIZE :: nat where
  "GSD_COPY_BUFFER_SIZE = 1024 * 16"

definition UINT16_MAX :: "16 word" where
  "UINT16_MAX = 0xFFFF"

text \<open>
  The return codes. \<open>SEGFAULT\<close> is no return code of the library: it marks the paths on
  which the C code dereferences a NULL pointer or reads outside the index block, where
  the process would die instead of returning.
\<close>

datatype gsd_error =
    GSD_SUCCESS
  | GSD_ERROR_IO
  | GSD_ERROR_INVALID_ARGUMENT
  | GSD_ERROR_NOT_A_GSD_FILE
  | GSD_ERROR_INVALID_GSD_FILE_VERSION
  | GSD_ERROR_FILE_CORRUPT
  | GSD_ERROR_MEMORY_ALLOCATION_FAILED
  | GSD_ERROR_NAMELIST_FULL
  | GSD_ERROR_FILE_MUST_BE_WRITABLE
  | GSD_ERROR_FILE_MUST_BE_READABLE
  | SEGFAULT

datatype gsd_open_flag = GSD_OPEN_READWRITE | GSD_OPEN_READONLY | GSD_OPEN_APPEND

text \<open>
  Modelled from the spec: \<^verbatim>\<open>gsd.h\<close>, which declares \<^verbatim>\<open>enum gsd_type\<close> and the
  structures, is not among the sources. The primitive types are the spec's list
  \<open>{u8,u16,u32,u64,i8,i16,i32,i64,f32,f64}\<close>, numbered from 1 in that order; a type
  code travels as the enum's integer.
\<close>

definition GSD_TYPE_UINT8 :: nat where "GSD_TYPE_UINT8 = 1"
definition GSD_TYPE_UINT16 :: nat where "GSD_TYPE_UINT16 = 2"
definition GSD_TYPE_UINT32 :: nat where "GSD_TYPE_UINT32 = 3"
definition GSD_TYPE_UINT64 :: nat where "GSD_TYPE_UINT64 = 4"
definition GSD_TYPE_INT8 :: nat where "GSD_TYPE_INT8 = 5"
definition GSD_TYPE_INT16 :: nat where "GSD_TYPE_INT16 = 6"
definition GSD_TYPE_INT32 :: nat where "GSD_TYPE_INT32 = 7"
definition GSD_TYPE_INT64 :: nat where "GSD_TYPE_INT64 = 8"
definition GSD_TYPE_FLOAT :: nat where "GSD_TYPE_FLOAT = 9"
definition GSD_TYPE_DOUBLE :: nat where "GSD_TYPE_DOUBLE = 10"

definition gsd_sizeof_type :: "nat \<Rightarrow> nat" where
  "gsd_sizeof_type type =
     (if type = GSD_TYPE_UINT8 then 1
      else if type = GSD_TYPE_UINT16 then 2
      else if type = GSD_TYPE_UINT32 then 4
      else if type = GSD_TYPE_UINT64 then 8
      else if type = GSD_TYPE_INT8 then 1
      else if type = GSD_TYPE_INT16 then 2
      else if type = GSD_TYPE_INT32 then 4
      else if type = GSD_TYPE_INT64 then 8
      else if type = GSD_TYPE_FLOAT then 4
      else if type = GSD_TYPE_DOUBLE then 8
      else 0)"

definition gsd_make_version :: "32 word \<Rightarrow> 32 word \<Rightarrow> 32 word" where
  "gsd_make_version major minor = push_bit 16 major OR minor"

subsection \<open>The structures and their layout in the file\<close>

text \<open>
  Modelled from the spec: the structures of \<^verbatim>\<open>gsd.h\<close>. The header is the spec's 256
  bytes. An index entry is the spec's 64 bytes (frame at 0, N at 8, location at 16, M at
  24, type at 28, flags at 29); the spec's table leaves out the 16-bit name id of its data
  model, which is kept here in the first two reserved bytes, at 30. A namelist entry is
  64 bytes of NUL-padded name.
\<close>

record gsd_header =
  magic :: "64 word"
  index_location :: "64 word"
  namelist_location :: "64 word"
  index_allocated_entries :: "64 word"
  namelist_allocated_entries :: "64 word"
  schema_version :: "32 word"
  gsd_version :: "32 word"
  application :: "byte list"
  schema :: "byte list"
  reserved :: "byte list"

record gsd_index_entry =
  e_frame :: "64 word"
  e_N :: "64 word"
  e_location :: "64 word"
  e_M :: "32 word"
  e_id :: "16 word"
  e_type :: byte
  e_flags :: byte

definition sizeof_gsd_header :: nat where
  "sizeof_gsd_header = 256"

definition sizeof_gsd_index_entry :: nat where
  "sizeof_gsd_index_entry = 64"

definition sizeof_gsd_namelist_entry :: nat where
  "sizeof_gsd_namelist_entry = 64"

text \<open>The \<^verbatim>\<open>size_t\<close> expression \<^verbatim>\<open>N * M * gsd_sizeof_type(type)\<close> of an entry: it
  wraps at \<open>2^64\<close>.\<close>

definition entry_size :: "gsd_index_entry \<Rightarrow> 64 word" where
  "entry_size e =
     e_N e * ucast (e_M e) * word_of_nat (gsd_sizeof_type (unat (e_type e)))"

definition zero_entry :: gsd_index_entry where
  "zero_entry = \<lparr> e_frame = 0, e_N = 0, e_location = 0, e_M = 0, e_id = 0,
                   e_type = 0, e_flags = 0 \<rparr>"

definition zero_header :: gsd_header where
  "zero_header = \<lparr> magic = 0, index_location = 0, namelist_location = 0,
                    index_allocated_entries = 0, namelist_allocated_entries = 0,
                    schema_version = 0, gsd_version = 0,
                    application = replicate 64 0, schema = replicate 64 0,
                    reserved = replicate 80 0 \<rparr>"

definition enc_header :: "gsd_header \<Rightarrow> byte list" where
  "enc_header hdr =
     enc_u64 (magic hdr) @ enc_u64 (index_location hdr) @ enc_u64 (namelist_location hdr)
     @ enc_u64 (index_allocated_entries hdr) @ enc_u64 (namelist_allocated_entries hdr)
     @ enc_u32 (schema_version hdr) @ enc_u32 (gsd_version hdr)
     @ fit 64 (application hdr) @ fit 64 (schema hdr) @ fit 80 (reserved hdr)"

definition dec_header :: "(nat \<Rightarrow> byte) \<Rightarrow> gsd_header" where
  "dec_header m =
     \<lparr> magic = rd_u64 m 0, index_location = rd_u64 m 8, namelist_location = rd_u64 m 16,
       index_allocated_entries = rd_u64 m 24, namelist_allocated_entries = rd_u64 m 32,
       schema_version = rd_u32 m 40, gsd_version = rd_u32 m 44,
       application = rd_bytes m 48 64, schema = rd_bytes m 112 64,
       reserved = rd_bytes m 176 80 \<rparr>"

definition enc_entry :: "gsd_index_entry \<Rightarrow> byte list" where
  "enc_entry e =
     enc_u64 (e_frame e) @ enc_u64 (e_N e) @ enc_u64 (e_location e) @ enc_u32 (e_M e)
     @ [e_type e, e_flags e] @ enc_u16 (e_id e) @ replicate 32 0"

definition dec_entry :: "(nat \<Rightarrow> byte) \<Rightarrow> nat \<Rightarrow> gsd_index_entry" where
  "dec_entry m a =
     \<lparr> e_frame = rd_u64 m a, e_N = rd_u64 m (a + 8), e_location = rd_u64 m (a + 16),
       e_M = rd_u32 m (a + 24), e_id = rd_u16 m (a + 30),
       e_type = m (a + 28), e_flags = m (a + 29) \<rparr>"

subsection \<open>The file and the primitive I/O\<close>

text \<open>
  The open file: its bytes and its length. Writing past the end fills the gap with
  zeros, as POSIX does. The model's file system never runs out of space and \<^verbatim>\<open>fsync\<close>
  and the allocator never fail; offsets are \<^verbatim>\<open>int64_t\<close>, so a negative offset or an end
  beyond \<open>2^63 - 1\<close> makes the system call fail.
\<close>

record osfile =
  fbytes :: "nat \<Rightarrow> byte"
  fsize :: nat

definition empty_file :: osfile where
  "empty_file = \<lparr> fbytes = (\<lambda>a. 0), fsize = 0 \<rparr>"

definition pwrite :: "osfile \<Rightarrow> (nat \<Rightarrow> byte) \<Rightarrow> nat \<Rightarrow> nat \<Rightarrow> osfile" where
  "pwrite fd buf count off =
     \<lparr> fbytes = (\<lambda>a. if off \<le> a \<and> a < off + count then buf (a - off)
                      else if fsize fd \<le> a then 0 else fbytes fd a),
       fsize = max (fsize fd) (off + count) \<rparr>"

text \<open>\<^verbatim>\<open>gsd_pwrite_retry\<close>: the number of bytes written, or -1.\<close>

definition gsd_pwrite_retry ::
  "osfile \<Rightarrow> (nat \<Rightarrow> byte) \<Rightarrow> nat \<Rightarrow> 64 word \<Rightarrow> int \<times> osfile" where
  "gsd_pwrite_retry fd buf count offset =
     (if count = 0 then (0, fd)
      else if sint offset < 0 \<or> 2 ^ 63 \<le> unat offset + count then (- 1, fd)
      else (int count, pwrite fd buf count (unat offset)))"

text \<open>\<^verbatim>\<open>gsd_pread_retry\<close>: the number of bytes read (short at end of file), or -1,
  and the buffer.\<close>

definition gsd_pread_retry ::
  "osfile \<Rightarrow> nat \<Rightarrow> 64 word \<Rightarrow> int \<times> (nat \<Rightarrow> byte)" where
  "gsd_pread_retry fd count offset =
     (if count = 0 then (0, (\<lambda>i. 0))
      else if sint offset < 0 then (- 1, (\<lambda>i. 0))
      else (int (min count (fsize fd - unat offset)),
            (\<lambda>i. if unat offset + i < fsize fd then fbytes fd (unat offset + i) else 0)))"

definition lseek_end :: "osfile \<Rightarrow> 64 word" where
  "lseek_end fd = word_of_nat (fsize fd)"


subsection \<open>The handle\<close>

text \<open>
  Modelled from the spec: \<^verbatim>\<open>struct gsd_handle\<close> of \<^verbatim>\<open>gsd.h\<close>, with the fields gsd.c
  uses. \<open>mapped_data\<close> says whether the index pointer points into the mapping of the
  file (read-only mode) or into heap memory (\<open>index\<close>: the whole index in read/write
  mode, the cache of unwritten entries in append mode). \<open>names\<close> holds the name/id
  pairs in use (\<open>namelist_num_entries\<close> of them); a pair points at a namelist slot that is
  written once, so the model keeps the string itself. Counters are \<open>nat\<close>: they count
  entries that exist in memory.
\<close>

record gsd_handle =
  header :: gsd_header
  mapped_data :: bool
  append_index_size :: nat
  index :: "nat \<Rightarrow> gsd_index_entry"
  namelist :: "nat \<Rightarrow> byte list"
  namelist_num_entries :: nat
  namelist_written_entries :: nat
  index_written_entries :: nat
  index_num_entries :: nat
  cur_frame :: "64 word"
  file_size :: "64 word"
  open_flags :: gsd_open_flag
  names :: "(byte list \<times> 16 word) list"
  names_allocated_size :: nat

definition zero_handle :: "gsd_open_flag \<Rightarrow> gsd_handle" where
  "zero_handle flags =
     \<lparr> header = zero_header, mapped_data = False, append_index_size = 0,
       index = (\<lambda>i. zero_entry), namelist = (\<lambda>i. []),
       namelist_num_entries = 0, namelist_written_entries = 0,
       index_written_entries = 0, index_num_entries = 0, cur_frame = 0, file_size = 0,
       open_flags = flags, names = [], names_allocated_size = 0 \<rparr>"

text \<open>\<^verbatim>\<open>handle->index[i]\<close>: through the mapping, or in heap memory.\<close>

definition index_at :: "gsd_handle \<Rightarrow> osfile \<Rightarrow> nat \<Rightarrow> gsd_index_entry" where
  "index_at handle fd i =
     (if mapped_data handle
      then dec_entry (fbytes fd)
             (unat (index_location (header handle)) + sizeof_gsd_index_entry * i)
      else index handle i)"

text \<open>The bytes of an array of index entries, and of namelist entries, from slot \<open>base\<close>.\<close>

definition index_mem :: "(nat \<Rightarrow> gsd_index_entry) \<Rightarrow> nat \<Rightarrow> nat \<Rightarrow> byte" where
  "index_mem idx base k =
     enc_entry (idx (base + k div sizeof_gsd_index_entry)) ! (k mod sizeof_gsd_index_entry)"

definition namelist_mem :: "(nat \<Rightarrow> byte list) \<Rightarrow> nat \<Rightarrow> nat \<Rightarrow> byte" where
  "namelist_mem nl base k =
     mem_of (nl (base + k div sizeof_gsd_namelist_entry)) (k mod sizeof_gsd_namelist_entry)"

subsection \<open>Expanding the index\<close>

function expand_copy_loop ::
  "osfile \<Rightarrow> 64 word \<Rightarrow> 64 word \<Rightarrow> nat \<Rightarrow> nat \<Rightarrow> gsd_error \<times> nat \<times> osfile" where
  "expand_copy_loop fd old_index_location new_index_location total_bytes_written
       old_index_bytes =
     (if total_bytes_written < old_index_bytes then
        (let bytes_to_copy =
               (if old_index_bytes - total_bytes_written < GSD_COPY_BUFFER_SIZE
                then old_index_bytes - total_bytes_written else GSD_COPY_BUFFER_SIZE)
         in case gsd_pread_retry fd bytes_to_copy
                   (old_index_location + word_of_nat total_bytes_written) of
              (bytes_read, buf) \<Rightarrow>
                if bytes_read = - 1 \<or> bytes_read \<noteq> int bytes_to_copy
                then (GSD_ERROR_IO, total_bytes_written, fd)
                else (case gsd_pwrite_retry fd buf bytes_to_copy
                             (new_index_location + word_of_nat total_bytes_written) of
                        (bytes_written, fd') \<Rightarrow>
                          if bytes_written = - 1 \<or> bytes_written \<noteq> int bytes_to_copy
                          then (GSD_ERROR_IO, total_bytes_written, fd')
                          else expand_copy_loop fd' old_index_location new_index_location
                                 (total_bytes_written + bytes_to_copy) old_index_bytes))
      else (GSD_SUCCESS, total_bytes_written, fd))"
  by pat_completeness auto
termination
  by (relation "measure (\<lambda>(fd, ol, nl, t, ob). ob - t)")
     (auto simp: GSD_COPY_BUFFER_SIZE_def split: if_splits)

declare expand_copy_loop.simps [simp del]

function expand_zero_loop ::
  "osfile \<Rightarrow> 64 word \<Rightarrow> nat \<Rightarrow> nat \<Rightarrow> gsd_error \<times> nat \<times> osfile" where
  "expand_zero_loop fd new_index_location total_bytes_written new_index_bytes =
     (if total_bytes_written < new_index_bytes then
        (let bytes_to_copy =
               (if new_index_bytes - total_bytes_written < GSD_COPY_BUFFER_SIZE
                then new_index_bytes - total_bytes_written else GSD_COPY_BUFFER_SIZE)
         in case gsd_pwrite_retry fd (\<lambda>i. 0) bytes_to_copy
                   (new_index_location + word_of_nat total_bytes_written) of
              (bytes_written, fd') \<Rightarrow>
                if bytes_written = - 1 \<or> bytes_written \<noteq> int bytes_to_copy
                then (GSD_ERROR_IO, total_bytes_written, fd')
                else expand_zero_loop fd' new_index_location
                       (total_bytes_written + bytes_to_copy) new_index_bytes)
      else (GSD_SUCCESS, total_bytes_written, fd))"
  by pat_completeness auto
termination
  by (relation "measure (\<lambda>(fd, nl, t, nb). nb - t)")
     (auto simp: GSD_COPY_BUFFER_SIZE_def split: if_splits)

declare expand_zero_loop.simps [simp del]

text \<open>The tail of \<^verbatim>\<open>gsd_expand_index\<close>: sync, rewrite the header, sync.\<close>

definition expand_write_header :: "gsd_handle \<Rightarrow> osfile \<Rightarrow> gsd_error \<times> gsd_handle \<times> osfile" where
  "expand_write_header handle fd =
     (case gsd_pwrite_retry fd (mem_of (enc_header (header handle))) sizeof_gsd_header 0 of
        (bytes_written, fd') \<Rightarrow>
          if bytes_written \<noteq> int sizeof_gsd_header then (GSD_ERROR_IO, handle, fd')
          else (GSD_SUCCESS, handle, fd'))"

definition gsd_expand_index :: "gsd_handle \<Rightarrow> osfile \<Rightarrow> gsd_error \<times> gsd_handle \<times> osfile" where
  "gsd_expand_index handle0 fd =
     (let old_size = index_allocated_entries (header handle0);
          new_size = old_size * 2;
          handle = handle0\<lparr>header := (header handle0)\<lparr>index_allocated_entries := new_size\<rparr>\<rparr>
      in if open_flags handle = GSD_OPEN_READWRITE then
           (let handle1 = handle\<lparr>index := (\<lambda>i. if unat old_size \<le> i \<and> i < unat new_size
                                                then zero_entry else index handle i)\<rparr>;
                handle2 = handle1\<lparr>header := (header handle1)\<lparr>index_location := lseek_end fd\<rparr>\<rparr>
            in case gsd_pwrite_retry fd (index_mem (index handle2) 0)
                      (unat (word_of_nat sizeof_gsd_index_entry * new_size))
                      (index_location (header handle2)) of
                 (bytes_written, fd') \<Rightarrow>
                   if bytes_written = - 1
                      \<or> bytes_written \<noteq> int (unat (word_of_nat sizeof_gsd_index_entry * new_size))
                   then (GSD_ERROR_IO, handle2, fd')
                   else expand_write_header
                          (handle2\<lparr>file_size := index_location (header handle2)
                                                  + word_of_int bytes_written\<rparr>) fd')
         else if open_flags handle = GSD_OPEN_APPEND then
           (let new_index_location = lseek_end fd;
                old_index_location = index_location (header handle);
                old_index_bytes = unat (old_size * word_of_nat sizeof_gsd_index_entry)
            in case expand_copy_loop fd old_index_location new_index_location 0
                      old_index_bytes of
                 (rc, total_bytes_written, fd') \<Rightarrow>
                   if rc \<noteq> GSD_SUCCESS then (rc, handle, fd')
                   else (case expand_zero_loop fd' new_index_location total_bytes_written
                                 (unat (new_size * word_of_nat sizeof_gsd_index_entry)) of
                           (rc', total_bytes_written', fd'') \<Rightarrow>
                             if rc' \<noteq> GSD_SUCCESS then (rc', handle, fd'')
                             else expand_write_header
                                    (handle\<lparr>header := (header handle)
                                                \<lparr>index_location := new_index_location\<rparr>,
                                            file_size := new_index_location
                                                + word_of_nat total_bytes_written'\<rparr>) fd''))
         else expand_write_header handle fd)"

subsection \<open>The name cache\<close>

definition gsd_cmp_name_id_pair :: "byte list \<times> 16 word \<Rightarrow> byte list \<times> 16 word \<Rightarrow> int" where
  "gsd_cmp_name_id_pair p1 p2 = strcmp (fst p1) (fst p2)"

text \<open>\<^verbatim>\<open>qsort\<close> is modelled by an insertion sort; the C library leaves the order of
  equal names open.\<close>

fun qsort_insert ::
  "byte list \<times> 16 word \<Rightarrow> (byte list \<times> 16 word) list \<Rightarrow> (byte list \<times> 16 word) list" where
  "qsort_insert p [] = [p]"
| "qsort_insert p (q # qs) =
     (if gsd_cmp_name_id_pair p q \<le> 0 then p # q # qs else q # qsort_insert p qs)"

definition qsort :: "(byte list \<times> 16 word) list \<Rightarrow> (byte list \<times> 16 word) list" where
  "qsort ps = foldr qsort_insert ps []"

definition gsd_sort_name_id_pairs :: "gsd_handle \<Rightarrow> gsd_handle" where
  "gsd_sort_name_id_pairs handle =
     handle\<lparr>names := qsort (take (namelist_num_entries handle) (names handle))
                      @ drop (namelist_num_entries handle) (names handle)\<rparr>"

function find_name_loop ::
  "(byte list \<times> 16 word) list \<Rightarrow> byte list \<Rightarrow> nat \<Rightarrow> nat \<Rightarrow> nat \<Rightarrow> 16 word" where
  "find_name_loop nms name len L R =
     (let m = (L + R) div 2; cmp = strncmp name (fst (nms ! m)) len
      in if cmp < 0 then (if m - L > 1 then find_name_loop nms name len L m else UINT16_MAX)
         else if cmp = 0 then word_of_nat m
         else (if R - m > 1 then find_name_loop nms name len m R else UINT16_MAX))"
  by pat_completeness auto
termination
  by (relation "measure (\<lambda>(nms, name, len, L, R). R - L)") auto

declare find_name_loop.simps [simp del]

definition gsd_find_name :: "gsd_handle \<Rightarrow> byte list \<Rightarrow> 16 word" where
  "gsd_find_name handle name =
     (let len = strlen name
      in if namelist_written_entries handle = 0 then UINT16_MAX
         else (let cmp = strncmp name (fst (names handle ! 0)) len
               in if cmp < 0 then UINT16_MAX
                  else if cmp = 0 then 0
                  else find_name_loop (names handle) name len 0
                         (namelist_written_entries handle)))"

definition gsd_append_name ::
  "gsd_handle \<Rightarrow> byte list \<Rightarrow> gsd_error \<times> 16 word option \<times> gsd_handle" where
  "gsd_append_name handle name =
     (if open_flags handle = GSD_OPEN_READONLY then (GSD_ERROR_FILE_MUST_BE_WRITABLE, None, handle)
      else if namelist_num_entries handle = unat (namelist_allocated_entries (header handle))
      then (GSD_ERROR_NAMELIST_FULL, None, handle)
      else
        (let n = namelist_num_entries handle;
             entry = strncpy name (sizeof_gsd_namelist_entry - 1) @ [0];
             handle1 = handle\<lparr>namelist := (namelist handle)(n := entry)\<rparr>;
             handle2 = (if n + 1 > names_allocated_size handle1
                        then handle1\<lparr>names_allocated_size := names_allocated_size handle1 * 2\<rparr>
                        else handle1);
             handle3 = handle2\<lparr>names := take n (names handle2) @ [(c_str entry, word_of_nat n)]\<rparr>
         in (GSD_SUCCESS, Some (word_of_nat n), handle3\<lparr>namelist_num_entries := n + 1\<rparr>)))"

definition gsd_get_id :: "gsd_handle \<Rightarrow> byte list \<Rightarrow> 16 word" where
  "gsd_get_id handle name =
     (let i = gsd_find_name handle name
      in if i \<noteq> UINT16_MAX then snd (names handle ! unat i) else UINT16_MAX)"


subsection \<open>Creating a file\<close>

text \<open>The file descriptor is \<open>None\<close> where the C code holds \<open>-1\<close>: \<^verbatim>\<open>open\<close> failed.\<close>

definition fresh_header :: "byte list \<Rightarrow> byte list \<Rightarrow> 32 word \<Rightarrow> gsd_header" where
  "fresh_header app sch sv =
     zero_header
       \<lparr> magic := GSD_MAGIC_ID,
         gsd_version := gsd_make_version 1 0,
         application := strncpy app (64 - 1) @ [0],
         schema := strncpy sch (64 - 1) @ [0],
         schema_version := sv,
         index_location := word_of_nat sizeof_gsd_header,
         index_allocated_entries := word_of_nat GSD_INITIAL_INDEX_SIZE,
         namelist_location := word_of_nat sizeof_gsd_header
            + word_of_nat sizeof_gsd_index_entry * word_of_nat GSD_INITIAL_INDEX_SIZE,
         namelist_allocated_entries := word_of_nat GSD_INITIAL_NAMELIST_SIZE,
         reserved := replicate 80 0 \<rparr>"

definition gsd_initialize_file ::
  "osfile option \<Rightarrow> byte list \<Rightarrow> byte list \<Rightarrow> 32 word \<Rightarrow> gsd_error \<times> osfile option" where
  "gsd_initialize_file fdo app sch sv =
     (case fdo of
        None \<Rightarrow> (GSD_ERROR_IO, None)
      | Some fd0 \<Rightarrow>
          (let fd = empty_file; hdr = fresh_header app sch sv
           in case gsd_pwrite_retry fd (mem_of (enc_header hdr)) sizeof_gsd_header 0 of
                (bytes_written, fd1) \<Rightarrow>
                  if bytes_written \<noteq> int sizeof_gsd_header then (GSD_ERROR_IO, Some fd1)
                  else (case gsd_pwrite_retry fd1 (\<lambda>i. 0)
                               (sizeof_gsd_index_entry * GSD_INITIAL_INDEX_SIZE)
                               (word_of_nat sizeof_gsd_header) of
                          (bytes_written, fd2) \<Rightarrow>
                            if bytes_written
                               \<noteq> int (sizeof_gsd_index_entry * GSD_INITIAL_INDEX_SIZE)
                            then (GSD_ERROR_IO, Some fd2)
                            else (case gsd_pwrite_retry fd2 (\<lambda>i. 0)
                                         (sizeof_gsd_namelist_entry * GSD_INITIAL_NAMELIST_SIZE)
                                         (word_of_nat (sizeof_gsd_header
                                            + sizeof_gsd_index_entry * GSD_INITIAL_INDEX_SIZE)) of
                                    (bytes_written, fd3) \<Rightarrow>
                                      if bytes_written
                                         \<noteq> int (sizeof_gsd_namelist_entry
                                                  * GSD_INITIAL_NAMELIST_SIZE)
                                      then (GSD_ERROR_IO, Some fd3)
                                      else (GSD_SUCCESS, Some fd3)))))"

subsection \<open>Opening a file\<close>

definition gsd_is_entry_valid :: "gsd_handle \<Rightarrow> osfile \<Rightarrow> nat \<Rightarrow> bool" where
  "gsd_is_entry_valid handle fd idx =
     (let entry = index_at handle fd idx
      in if gsd_sizeof_type (unat (e_type entry)) = 0 then False
         else if e_location entry + entry_size entry > file_size handle then False
         else if e_frame entry \<ge> index_allocated_entries (header handle) then False
         else if unat (e_id entry) \<ge> namelist_num_entries handle then False
         else if e_flags entry \<noteq> 0 then False
         else True)"

text \<open>The loop that counts the namelist entries: the first one that is the empty string.\<close>

function namelist_first_empty :: "(nat \<Rightarrow> byte list) \<Rightarrow> nat \<Rightarrow> nat \<Rightarrow> nat" where
  "namelist_first_empty nl i n =
     (if i < n then (if mem_of (nl i) 0 = 0 then i else namelist_first_empty nl (i + 1) n)
      else n)"
  by pat_completeness auto
termination
  by (relation "measure (\<lambda>(nl, i, n). n - i)") auto

declare namelist_first_empty.simps [simp del]

text \<open>The bisection for the first index entry with location 0 (a do-while loop).\<close>

function index_bisect :: "gsd_handle \<Rightarrow> osfile \<Rightarrow> nat \<Rightarrow> nat \<Rightarrow> gsd_error \<times> nat" where
  "index_bisect handle fd L R =
     (let m = (L + R) div 2
      in if e_location (index_at handle fd m) \<noteq> 0
            \<and> (\<not> gsd_is_entry_valid handle fd m
                \<or> e_frame (index_at handle fd m) < e_frame (index_at handle fd L))
         then (GSD_ERROR_FILE_CORRUPT, R)
         else if e_location (index_at handle fd m) \<noteq> 0
         then (if R - m > 1 then index_bisect handle fd m R else (GSD_SUCCESS, R))
         else (if m - L > 1 then index_bisect handle fd L m else (GSD_SUCCESS, m)))"
  by pat_completeness auto
termination
  by (relation "measure (\<lambda>(handle, fd, L, R). R - L)") auto

declare index_bisect.simps [simp del]

text \<open>
  \<^verbatim>\<open>gsd_read_header\<close>, in the three stages of its body. First the index: mapped in
  read-only and in append mode, read into memory in read/write mode.
\<close>

definition read_header_index :: "gsd_handle \<Rightarrow> osfile \<Rightarrow> gsd_error \<times> gsd_handle" where
  "read_header_index handle fd =
     (if open_flags handle = GSD_OPEN_READONLY then (GSD_SUCCESS, handle\<lparr>mapped_data := True\<rparr>)
      else if open_flags handle = GSD_OPEN_READWRITE then
        (let handle1 = handle\<lparr>mapped_data := False\<rparr>;
             nbytes = word_of_nat sizeof_gsd_index_entry
                        * index_allocated_entries (header handle1)
         in if index_location (header handle1) + nbytes > file_size handle1
            then (GSD_ERROR_FILE_CORRUPT, handle1)
            else (case gsd_pread_retry fd (unat nbytes) (index_location (header handle1)) of
                    (bytes_read, buf) \<Rightarrow>
                      if bytes_read = - 1 \<or> bytes_read \<noteq> int (unat nbytes)
                      then (GSD_ERROR_IO, handle1)
                      else (GSD_SUCCESS,
                            handle1\<lparr>index :=
                               (\<lambda>i. if i < unat (index_allocated_entries (header handle1))
                                     then dec_entry buf (sizeof_gsd_index_entry * i)
                                     else zero_entry)\<rparr>)))
      else (GSD_SUCCESS, handle\<lparr>mapped_data := True\<rparr>))"

text \<open>Then the namelist and the sorted name cache.\<close>

definition read_header_namelist :: "gsd_handle \<Rightarrow> osfile \<Rightarrow> gsd_error \<times> gsd_handle" where
  "read_header_namelist handle fd =
     (let nbytes = word_of_nat sizeof_gsd_namelist_entry
                     * namelist_allocated_entries (header handle)
      in if namelist_location (header handle) + nbytes > file_size handle
         then (GSD_ERROR_FILE_CORRUPT, handle)
         else (case gsd_pread_retry fd (unat nbytes) (namelist_location (header handle)) of
                 (bytes_read, buf) \<Rightarrow>
                   if bytes_read = - 1 \<or> bytes_read \<noteq> int (unat nbytes)
                   then (GSD_ERROR_IO, handle)
                   else
                     (let nl = (\<lambda>i. rd_bytes buf (sizeof_gsd_namelist_entry * i)
                                       sizeof_gsd_namelist_entry);
                          n = namelist_first_empty nl 0
                                (unat (namelist_allocated_entries (header handle)));
                          handle1 = handle\<lparr>namelist := nl, namelist_num_entries := n,
                                           namelist_written_entries := n,
                                           names_allocated_size :=
                                             (if n = 0 then GSD_INITIAL_NAMELIST_SIZE else n)\<rparr>;
                          handle2 = handle1\<lparr>names :=
                                      map (\<lambda>i. (c_str (nl i), word_of_nat i)) [0..<n]\<rparr>
                      in (GSD_SUCCESS, gsd_sort_name_id_pairs handle2))))"

text \<open>
  Then the number of index entries and the frame counter. The C code reads
  \<^verbatim>\<open>handle->index[0]\<close> and the probed entries without a check. Where the index has no
  entry the read is out of bounds. Where the index is mapped (read-only and append mode)
  and the block is not wholly inside the file, what a read past the end of the file gives
  depends on the page size of the system: zeros up to the end of the last page of the file,
  a fault behind it. The model has no page size and stops with \<open>SEGFAULT\<close> in all these
  cases, also where the C code would read zeros from the last page; no property below
  speaks of such files other than through the return codes of the header checks.
\<close>

definition read_header_count :: "gsd_handle \<Rightarrow> osfile \<Rightarrow> gsd_error \<times> gsd_handle" where
  "read_header_count handle fd =
     (if index_allocated_entries (header handle) = 0
         \<or> (mapped_data handle
             \<and> unat (index_location (header handle))
                 + sizeof_gsd_index_entry * unat (index_allocated_entries (header handle))
               > fsize fd)
      then (SEGFAULT, handle)
      else if e_location (index_at handle fd 0) \<noteq> 0 \<and> \<not> gsd_is_entry_valid handle fd 0
      then (GSD_ERROR_FILE_CORRUPT, handle)
      else
        (case (if e_location (index_at handle fd 0) = 0 then (GSD_SUCCESS, 0)
               else index_bisect handle fd 0 (unat (index_allocated_entries (header handle)))) of
           (rc, n) \<Rightarrow>
             if rc \<noteq> GSD_SUCCESS then (rc, handle)
             else
               (let handle1 = handle\<lparr>index_num_entries := n\<rparr>;
                    handle2 = handle1\<lparr>cur_frame :=
                                (if n = 0 then 0
                                 else e_frame (index_at handle1 fd (n - 1)) + 1)\<rparr>;
                    handle3 = handle2\<lparr>index_written_entries := n\<rparr>
                in if open_flags handle3 = GSD_OPEN_APPEND
                   then (GSD_SUCCESS,
                         handle3\<lparr>append_index_size := 1, index := (\<lambda>i. zero_entry),
                                 mapped_data := False\<rparr>)
                   else (GSD_SUCCESS, handle3))))"

text \<open>A failed or short read of the header leaves the handle's header as it was.\<close>

definition gsd_read_header :: "gsd_handle \<Rightarrow> osfile option \<Rightarrow> gsd_error \<times> gsd_handle" where
  "gsd_read_header handle fdo =
     (case fdo of
        None \<Rightarrow> (GSD_ERROR_IO, handle)
      | Some fd \<Rightarrow>
          (case gsd_pread_retry fd sizeof_gsd_header 0 of
             (bytes_read, buf) \<Rightarrow>
               if bytes_read = - 1 then (GSD_ERROR_IO, handle)
               else if bytes_read \<noteq> int sizeof_gsd_header
               then (GSD_ERROR_NOT_A_GSD_FILE, handle)
               else
                 (let handle1 = handle\<lparr>header := dec_header buf\<rparr>
                  in if magic (header handle1) \<noteq> GSD_MAGIC_ID
                     then (GSD_ERROR_NOT_A_GSD_FILE, handle1)
                     else if gsd_version (header handle1) < gsd_make_version 1 0
                             \<and> gsd_version (header handle1) \<noteq> gsd_make_version 0 3
                     then (GSD_ERROR_INVALID_GSD_FILE_VERSION, handle1)
                     else if gsd_version (header handle1) \<ge> gsd_make_version 2 0
                     then (GSD_ERROR_INVALID_GSD_FILE_VERSION, handle1)
                     else
                       (case read_header_index (handle1\<lparr>file_size := lseek_end fd\<rparr>) fd of
                          (rc, handle2) \<Rightarrow>
                            if rc \<noteq> GSD_SUCCESS then (rc, handle2)
                            else (case read_header_namelist handle2 fd of
                                    (rc', handle3) \<Rightarrow>
                                      if rc' \<noteq> GSD_SUCCESS then (rc', handle3)
                                      else read_header_count handle3 fd)))))"

definition gsd_create_and_open ::
  "gsd_handle \<Rightarrow> osfile option \<Rightarrow> byte list \<Rightarrow> byte list \<Rightarrow> 32 word \<Rightarrow> gsd_open_flag
     \<Rightarrow> gsd_error \<times> gsd_handle \<times> osfile option" where
  "gsd_create_and_open handle fdo app sch sv flags =
     (if flags = GSD_OPEN_READONLY then (GSD_ERROR_FILE_MUST_BE_WRITABLE, handle, fdo)
      else
        (let handle1 = handle\<lparr>open_flags := flags\<rparr>
         in case gsd_initialize_file fdo app sch sv of
              (retval, fdo') \<Rightarrow>
                if retval \<noteq> GSD_SUCCESS then (retval, handle1, fdo')
                else (case gsd_read_header handle1 fdo' of
                        (retval', handle2) \<Rightarrow> (retval', handle2, fdo'))))"

definition gsd_open :: "osfile option \<Rightarrow> gsd_open_flag \<Rightarrow> gsd_error \<times> gsd_handle" where
  "gsd_open fdo flags = gsd_read_header (zero_handle flags) fdo"

definition gsd_truncate ::
  "gsd_handle option \<Rightarrow> osfile \<Rightarrow> gsd_error \<times> gsd_handle option \<times> osfile" where
  "gsd_truncate ho fd =
     (case ho of
        None \<Rightarrow> (GSD_ERROR_INVALID_ARGUMENT, None, fd)
      | Some handle \<Rightarrow>
          if open_flags handle = GSD_OPEN_READONLY
          then (GSD_ERROR_FILE_MUST_BE_WRITABLE, Some handle, fd)
          else
            (let handle1 = handle\<lparr>namelist := (\<lambda>i. []), names := [],
                                   index := (\<lambda>i. zero_entry)\<rparr>;
                 old_header = header handle1
             in case gsd_initialize_file (Some fd) (application old_header)
                       (schema old_header) (schema_version old_header) of
                  (retval, fdo') \<Rightarrow>
                    if retval \<noteq> GSD_SUCCESS
                    then (retval, Some handle1, (case fdo' of None \<Rightarrow> fd | Some fd' \<Rightarrow> fd'))
                    else (case gsd_read_header handle1 fdo' of
                            (retval', handle2) \<Rightarrow>
                              (retval', Some handle2,
                               (case fdo' of None \<Rightarrow> fd | Some fd' \<Rightarrow> fd')))))"


subsection \<open>Writing\<close>

definition gsd_end_frame ::
  "gsd_handle option \<Rightarrow> osfile \<Rightarrow> gsd_error \<times> gsd_handle option \<times> osfile" where
  "gsd_end_frame ho fd =
     (case ho of
        None \<Rightarrow> (GSD_ERROR_INVALID_ARGUMENT, None, fd)
      | Some handle0 \<Rightarrow>
          if open_flags handle0 = GSD_OPEN_READONLY
          then (GSD_ERROR_FILE_MUST_BE_WRITABLE, Some handle0, fd)
          else
            (let handle = handle0\<lparr>cur_frame := cur_frame handle0 + 1\<rparr>;
                 entries_to_write = index_num_entries handle - index_written_entries handle
             in case (if entries_to_write > 0 then
                        (let write_pos = index_location (header handle)
                               + word_of_nat (sizeof_gsd_index_entry
                                               * index_written_entries handle);
                             base = (if open_flags handle \<noteq> GSD_OPEN_APPEND
                                     then index_written_entries handle else 0)
                         in case gsd_pwrite_retry fd (index_mem (index handle) base)
                                   (sizeof_gsd_index_entry * entries_to_write) write_pos of
                              (bytes_written, fd') \<Rightarrow>
                                if bytes_written = - 1
                                   \<or> bytes_written
                                      \<noteq> int (sizeof_gsd_index_entry * entries_to_write)
                                then (GSD_ERROR_IO, handle, fd')
                                else (GSD_SUCCESS,
                                      handle\<lparr>index_written_entries :=
                                        index_written_entries handle + entries_to_write\<rparr>,
                                      fd'))
                      else (GSD_SUCCESS, handle, fd)) of
                  (rc, handle1, fd1) \<Rightarrow>
                    if rc \<noteq> GSD_SUCCESS then (rc, Some handle1, fd1)
                    else
                      (let new_namelist_entries =
                             namelist_num_entries handle1 - namelist_written_entries handle1
                       in if new_namelist_entries \<noteq> 0 then
                            (case gsd_pwrite_retry fd1
                                    (namelist_mem (namelist handle1)
                                       (namelist_written_entries handle1))
                                    (sizeof_gsd_namelist_entry * new_namelist_entries)
                                    (namelist_location (header handle1)
                                       + word_of_nat (sizeof_gsd_namelist_entry
                                                       * namelist_written_entries handle1)) of
                               (bytes_written, fd2) \<Rightarrow>
                                 if bytes_written
                                    \<noteq> int (sizeof_gsd_namelist_entry * new_namelist_entries)
                                 then (GSD_ERROR_IO, Some handle1, fd2)
                                 else (GSD_SUCCESS,
                                       Some (gsd_sort_name_id_pairs
                                               (handle1\<lparr>namelist_written_entries :=
                                                  namelist_num_entries handle1\<rparr>)),
                                       fd2))
                          else (GSD_SUCCESS, Some handle1, fd1))))"

text \<open>
  \<^verbatim>\<open>gsd_write_chunk\<close>. The name id is looked up, or the name appended; the payload goes to
  the end of the file; the entry goes into the index in memory, after the index has been
  expanded if it was full. The handle is not checked against NULL before its first use.
  A payload buffer shorter than \<open>N * M * sizeof(type)\<close> is read as zeros past its end.
\<close>

definition write_chunk_id :: "gsd_handle \<Rightarrow> byte list \<Rightarrow> gsd_error \<times> 16 word \<times> gsd_handle" where
  "write_chunk_id handle name =
     (let nid = gsd_get_id handle name
      in if nid = UINT16_MAX then
           (case gsd_append_name handle name of
              (retval, ido, handle') \<Rightarrow>
                if retval \<noteq> GSD_SUCCESS then (retval, nid, handle')
                else (let nid' = (case ido of None \<Rightarrow> nid | Some i \<Rightarrow> i)
                      in if nid' = UINT16_MAX then (GSD_ERROR_NAMELIST_FULL, nid', handle')
                         else (GSD_SUCCESS, nid', handle')))
         else (GSD_SUCCESS, nid, handle))"

definition write_chunk_slot :: "gsd_handle \<Rightarrow> gsd_index_entry \<Rightarrow> gsd_handle" where
  "write_chunk_slot handle index_entry =
     (let slot = index_num_entries handle
      in if open_flags handle = GSD_OPEN_APPEND then
           (let slot' = slot - index_written_entries handle;
                handle' = (if slot' \<ge> append_index_size handle
                           then handle\<lparr>append_index_size := append_index_size handle * 2\<rparr>
                           else handle)
            in handle'\<lparr>index := (index handle')(slot' := index_entry),
                       index_num_entries := index_num_entries handle' + 1\<rparr>)
         else handle\<lparr>index := (index handle)(slot := index_entry),
                     index_num_entries := index_num_entries handle + 1\<rparr>)"

definition gsd_write_chunk ::
  "gsd_handle option \<Rightarrow> osfile \<Rightarrow> byte list \<Rightarrow> nat \<Rightarrow> 64 word \<Rightarrow> 32 word \<Rightarrow> byte
     \<Rightarrow> byte list option \<Rightarrow> gsd_error \<times> gsd_handle option \<times> osfile" where
  "gsd_write_chunk ho fd name type N M flags data =
     (case data of
        None \<Rightarrow> (GSD_ERROR_INVALID_ARGUMENT, ho, fd)
      | Some bytes \<Rightarrow>
          if N = 0 \<or> M = 0 \<or> gsd_sizeof_type type = 0
          then (GSD_ERROR_INVALID_ARGUMENT, ho, fd)
          else
            (case ho of
               None \<Rightarrow> (SEGFAULT, None, fd)
             | Some handle \<Rightarrow>
                 if open_flags handle = GSD_OPEN_READONLY
                 then (GSD_ERROR_FILE_MUST_BE_WRITABLE, ho, fd)
                 else if flags \<noteq> 0 then (GSD_ERROR_INVALID_ARGUMENT, ho, fd)
                 else
                   (case write_chunk_id handle name of
                      (rc, nid, handle1) \<Rightarrow>
                        if rc \<noteq> GSD_SUCCESS then (rc, Some handle1, fd)
                        else
                          (let size = N * ucast M * word_of_nat (gsd_sizeof_type type);
                               index_entry =
                                 \<lparr> e_frame = cur_frame handle, e_N = N,
                                   e_location = file_size handle1, e_M = M, e_id = nid,
                                   e_type = word_of_nat type, e_flags = 0 \<rparr>
                           in case gsd_pwrite_retry fd (mem_of bytes) (unat size)
                                     (e_location index_entry) of
                                (bytes_written, fd1) \<Rightarrow>
                                  if bytes_written = - 1 \<or> bytes_written \<noteq> int (unat size)
                                  then (GSD_ERROR_IO, Some handle1, fd1)
                                  else
                                    (let handle2 = handle1\<lparr>file_size :=
                                           file_size handle1 + word_of_int bytes_written\<rparr>
                                     in case (if index_num_entries handle2
                                                 \<ge> unat (index_allocated_entries (header handle2))
                                              then gsd_expand_index handle2 fd1
                                              else (GSD_SUCCESS, handle2, fd1)) of
                                          (retval, handle3, fd2) \<Rightarrow>
                                            if retval \<noteq> GSD_SUCCESS
                                            then (retval, Some handle3, fd2)
                                            else (GSD_SUCCESS,
                                                  Some (write_chunk_slot handle3 index_entry),
                                                  fd2))))))"

subsection \<open>Reading\<close>

definition gsd_get_nframes :: "gsd_handle option \<Rightarrow> 64 word" where
  "gsd_get_nframes ho = (case ho of None \<Rightarrow> 0 | Some handle \<Rightarrow> cur_frame handle)"

text \<open>The bisection of \<^verbatim>\<open>gsd_find_chunk\<close> (a do-while loop): its final \<open>L\<close>.\<close>

function find_chunk_bisect :: "(nat \<Rightarrow> gsd_index_entry) \<Rightarrow> 64 word \<Rightarrow> nat \<Rightarrow> nat \<Rightarrow> nat" where
  "find_chunk_bisect idx frame L R =
     (let m = (L + R) div 2
      in if frame < e_frame (idx m)
         then (if m - L > 1 then find_chunk_bisect idx frame L m else L)
         else (if R - m > 1 then find_chunk_bisect idx frame m R else m))"
  by pat_completeness auto
termination
  by (relation "measure (\<lambda>(idx, frame, L, R). R - L)") auto

declare find_chunk_bisect.simps [simp del]

text \<open>The scan to the left over the entries of the frame; \<open>cur_index\<close> is an \<^verbatim>\<open>int64_t\<close>.\<close>

function find_chunk_scan ::
  "(nat \<Rightarrow> gsd_index_entry) \<Rightarrow> 64 word \<Rightarrow> 16 word \<Rightarrow> int \<Rightarrow> gsd_index_entry option" where
  "find_chunk_scan idx frame match_id cur_index =
     (if cur_index \<ge> 0 \<and> e_frame (idx (nat cur_index)) = frame
      then (if match_id = e_id (idx (nat cur_index)) then Some (idx (nat cur_index))
            else find_chunk_scan idx frame match_id (cur_index - 1))
      else None)"
  by pat_completeness auto
termination
  by (relation "measure (\<lambda>(idx, frame, match_id, cur_index). nat (cur_index + 1))") auto

declare find_chunk_scan.simps [simp del]

definition gsd_find_chunk ::
  "gsd_handle option \<Rightarrow> osfile \<Rightarrow> 64 word \<Rightarrow> byte list option \<Rightarrow> gsd_index_entry option" where
  "gsd_find_chunk ho fd frame nameo =
     (case ho of
        None \<Rightarrow> None
      | Some handle \<Rightarrow>
          (case nameo of
             None \<Rightarrow> None
           | Some name \<Rightarrow>
               if frame \<ge> gsd_get_nframes ho then None
               else if open_flags handle = GSD_OPEN_APPEND then None
               else
                 (let match_id = gsd_get_id handle name
                  in if match_id = UINT16_MAX then None
                     else
                       (let L = find_chunk_bisect (index_at handle fd) frame 0
                                  (index_num_entries handle)
                        in find_chunk_scan (index_at handle fd) frame match_id (int L)))))"

text \<open>\<^verbatim>\<open>gsd_read_chunk\<close>: the return code and the destination buffer after the call.\<close>

definition gsd_read_chunk ::
  "gsd_handle option \<Rightarrow> osfile \<Rightarrow> byte list option \<Rightarrow> gsd_index_entry option
     \<Rightarrow> gsd_error \<times> byte list option" where
  "gsd_read_chunk ho fd data chunko =
     (case ho of
        None \<Rightarrow> (GSD_ERROR_INVALID_ARGUMENT, data)
      | Some handle \<Rightarrow>
          (case data of
             None \<Rightarrow> (GSD_ERROR_INVALID_ARGUMENT, data)
           | Some dst \<Rightarrow>
               (case chunko of
                  None \<Rightarrow> (GSD_ERROR_INVALID_ARGUMENT, data)
                | Some chunk \<Rightarrow>
                    if open_flags handle = GSD_OPEN_APPEND
                    then (GSD_ERROR_FILE_MUST_BE_READABLE, data)
                    else
                      (let size = entry_size chunk
                       in if size = 0 then (GSD_ERROR_FILE_CORRUPT, data)
                          else if e_location chunk = 0 then (GSD_ERROR_FILE_CORRUPT, data)
                          else if e_location chunk + size > file_size handle
                          then (GSD_ERROR_FILE_CORRUPT, data)
                          else
                            (case gsd_pread_retry fd (unat size) (e_location chunk) of
                               (bytes_read, buf) \<Rightarrow>
                                 (let data' = Some (rd_bytes buf 0 (nat bytes_read)
                                                     @ drop (nat bytes_read) dst)
                                  in if bytes_read = - 1 \<or> bytes_read \<noteq> int (unat size)
                                     then (GSD_ERROR_IO, data')
                                     else (GSD_SUCCESS, data')))))))"

function matching_scan ::
  "(byte list \<times> 16 word) list \<Rightarrow> byte list \<Rightarrow> nat \<Rightarrow> nat \<Rightarrow> nat \<Rightarrow> byte list option" where
  "matching_scan nms match match_len i n =
     (if i < n
      then (if 0 = strncmp match (fst (nms ! i)) match_len then Some (fst (nms ! i))
            else matching_scan nms match match_len (i + 1) n)
      else None)"
  by pat_completeness auto
termination
  by (relation "measure (\<lambda>(nms, match, match_len, i, n). n - i)") auto

declare matching_scan.simps [simp del]

definition gsd_find_matching_chunk_name ::
  "gsd_handle option \<Rightarrow> byte list option \<Rightarrow> byte list option \<Rightarrow> byte list option" where
  "gsd_find_matching_chunk_name ho matcho prev =
     (case ho of
        None \<Rightarrow> None
      | Some handle \<Rightarrow>
          (case matcho of
             None \<Rightarrow> None
           | Some match \<Rightarrow>
               if namelist_written_entries handle = 0 then None
               else
                 (case (case prev of
                          None \<Rightarrow> Some 0
                        | Some p \<Rightarrow>
                            (let found = gsd_find_name handle p
                             in if found = UINT16_MAX then None
                                else Some (unat found + 1))) of
                    None \<Rightarrow> None
                  | Some start \<Rightarrow>
                      matching_scan (names handle) match (strlen match) start
                        (namelist_written_entries handle))))"

subsection \<open>Reference states\<close>

text \<open>The file that \<^verbatim>\<open>gsd_initialize_file\<close> leaves: the header, 128 empty index entries
  and 65535 empty namelist entries.\<close>

definition fresh_file :: "byte list \<Rightarrow> byte list \<Rightarrow> 32 word \<Rightarrow> osfile" where
  "fresh_file app sch sv =
     \<lparr> fbytes = (\<lambda>a. if a < 256 then enc_header (fresh_header app sch sv) ! a else 0),
       fsize = 4202688 \<rparr>"

text \<open>The handle that \<^verbatim>\<open>gsd_read_header\<close> builds on such a file.\<close>

definition fresh_handle :: "gsd_handle \<Rightarrow> byte list \<Rightarrow> byte list \<Rightarrow> 32 word \<Rightarrow> gsd_handle" where
  "fresh_handle handle app sch sv =
     handle\<lparr> header := fresh_header app sch sv,
             mapped_data := (open_flags handle = GSD_OPEN_READONLY),
             append_index_size :=
               (if open_flags handle = GSD_OPEN_APPEND then 1 else append_index_size handle),
             index := (if open_flags handle = GSD_OPEN_READONLY then index handle
                       else (\<lambda>i. zero_entry)),
             namelist := (\<lambda>i. replicate 64 0),
             namelist_num_entries := 0, namelist_written_entries := 0,
             index_written_entries := 0, index_num_entries := 0, cur_frame := 0,
             file_size := 4202688, names := [], names_allocated_size := 65535 \<rparr>"

text \<open>
  The order of the argument checks of \<^verbatim>\<open>gsd_write_chunk\<close> as the specification words
  it: data, N, M, type, flags, and the writable mode last; a NULL handle is an invalid
  argument.
\<close>

definition write_chunk_checks_spec ::
  "gsd_handle option \<Rightarrow> nat \<Rightarrow> 64 word \<Rightarrow> 32 word \<Rightarrow> byte \<Rightarrow> byte list option \<Rightarrow> gsd_error" where
  "write_chunk_checks_spec ho type N M flags data =
     (if ho = None then GSD_ERROR_INVALID_ARGUMENT
      else if data = None then GSD_ERROR_INVALID_ARGUMENT
      else if N = 0 then GSD_ERROR_INVALID_ARGUMENT
      else if M = 0 then GSD_ERROR_INVALID_ARGUMENT
      else if gsd_sizeof_type type = 0 then GSD_ERROR_INVALID_ARGUMENT
      else if flags \<noteq> 0 then GSD_ERROR_INVALID_ARGUMENT
      else if open_flags (the ho) = GSD_OPEN_READONLY then GSD_ERROR_FILE_MUST_BE_WRITABLE
      else GSD_SUCCESS)"

text \<open>Small files and entries for concrete instances.\<close>

definition wit_chunk :: gsd_index_entry where
  "wit_chunk = \<lparr> e_frame = 0, e_N = 3, e_location = 300, e_M = 1, e_id = 0,
                  e_type = 1, e_flags = 0 \<rparr>"

definition wit_file :: osfile where
  "wit_file = pwrite empty_file (mem_of [1, 2, 3]) 3 300"

definition wit_zero_file :: osfile where
  "wit_zero_file = \<lparr> fbytes = (\<lambda>a. 0), fsize = 256 \<rparr>"

definition wit_v2_file :: osfile where
  "wit_v2_file =
     \<lparr> fbytes = mem_of (enc_header ((fresh_header [] [] 0)\<lparr>gsd_version := gsd_make_version 2 0\<rparr>)),
       fsize = 256 \<rparr>"

subsection \<open>The index and the namelist as stored in a file\<close>

text \<open>Index entry \<open>i\<close> of the index block that the header of the file points to.\<close>

definition file_entry :: "osfile \<Rightarrow> nat \<Rightarrow> gsd_index_entry" where
  "file_entry fd i =
     dec_entry (fbytes fd)
       (unat (index_location (dec_header (fbytes fd))) + sizeof_gsd_index_entry * i)"

text \<open>Namelist entry \<open>i\<close> (64 bytes) of the namelist block of the file.\<close>

definition file_name :: "osfile \<Rightarrow> nat \<Rightarrow> byte list" where
  "file_name fd i =
     rd_bytes (fbytes fd)
       (unat (namelist_location (dec_header (fbytes fd))) + sizeof_gsd_namelist_entry * i)
       sizeof_gsd_namelist_entry"

text \<open>The number of names in the file: the first namelist entry that starts
  with a NUL byte, as \<^verbatim>\<open>gsd_read_header\<close> counts them.\<close>

definition file_num_names :: "osfile \<Rightarrow> nat" where
  "file_num_names fd =
     namelist_first_empty (file_name fd) 0
       (unat (namelist_allocated_entries (dec_header (fbytes fd))))"

text \<open>The namelist buffer that \<^verbatim>\<open>gsd_read_header\<close> fills with one positioned read.\<close>

definition namelist_buf :: "osfile \<Rightarrow> nat \<Rightarrow> byte list" where
  "namelist_buf fd i =
     rd_bytes
       (snd (gsd_pread_retry fd
               (unat (word_of_nat sizeof_gsd_namelist_entry
                        * namelist_allocated_entries (dec_header (fbytes fd))))
               (namelist_location (dec_header (fbytes fd)))))
       (sizeof_gsd_namelist_entry * i) sizeof_gsd_namelist_entry"

text \<open>\<^verbatim>\<open>gsd_is_entry_valid\<close> in terms of the file alone.\<close>

definition file_entry_valid :: "osfile \<Rightarrow> nat \<Rightarrow> bool" where
  "file_entry_valid fd i =
     (let e = file_entry fd i
      in gsd_sizeof_type (unat (e_type e)) \<noteq> 0
         \<and> e_location e + entry_size e \<le> lseek_end fd
         \<and> e_frame e < index_allocated_entries (dec_header (fbytes fd))
         \<and> unat (e_id e) < file_num_names fd
         \<and> e_flags e = 0)"

text \<open>Frames do not decrease along the first \<open>n\<close> index entries.\<close>

definition file_frames_sorted :: "osfile \<Rightarrow> nat \<Rightarrow> bool" where
  "file_frames_sorted fd n =
     (\<forall>m < n. \<forall>l \<le> m. e_frame (file_entry fd l) \<le> e_frame (file_entry fd m))"

text \<open>The index of the file is \<open>n\<close> entries with a non-zero location, followed by
  entries with location 0 up to the allocated size.\<close>

definition file_dense_prefix :: "osfile \<Rightarrow> nat \<Rightarrow> bool" where
  "file_dense_prefix fd n =
     (n \<le> unat (index_allocated_entries (dec_header (fbytes fd)))
      \<and> (\<forall>i < n. e_location (file_entry fd i) \<noteq> 0)
      \<and> (\<forall>i < unat (index_allocated_entries (dec_header (fbytes fd))).
            n \<le> i \<longrightarrow> e_location (file_entry fd i) = 0))"

text \<open>The header passes the magic and version checks, the index is not empty, and the
  index block and the namelist block lie inside the file (so that mapping and reading them
  succeeds).\<close>

definition file_blocks_ok :: "osfile \<Rightarrow> bool" where
  "file_blocks_ok fd =
     (let hdr = dec_header (fbytes fd)
      in 256 \<le> fsize fd \<and> fsize fd < 2 ^ 63
         \<and> magic hdr = GSD_MAGIC_ID
         \<and> (gsd_version hdr = gsd_make_version 0 3
             \<or> (gsd_make_version 1 0 \<le> gsd_version hdr
                 \<and> gsd_version hdr < gsd_make_version 2 0))
         \<and> index_allocated_entries hdr \<noteq> 0
         \<and> unat (index_location hdr) + 64 * unat (index_allocated_entries hdr) \<le> fsize fd
         \<and> unat (namelist_location hdr) + 64 * unat (namelist_allocated_entries hdr)
             \<le> fsize fd)"

text \<open>
  The entries that the bisection of \<^verbatim>\<open>gsd_read_header\<close> validates on an index whose
  first \<open>n\<close> entries have a non-zero location: the loop of \<open>index_bisect\<close> with the test
  of the location replaced by \<open>m < n\<close>, collecting the pairs \<open>(L, m)\<close> of the probes with a
  non-zero location.
\<close>

function bisect_probes :: "nat \<Rightarrow> nat \<Rightarrow> nat \<Rightarrow> (nat \<times> nat) list" where
  "bisect_probes n L R =
     (let m = (L + R) div 2
      in if m < n
         then (L, m) # (if R - m > 1 then bisect_probes n m R else [])
         else (if m - L > 1 then bisect_probes n L m else []))"
  by pat_completeness auto
termination
  by (relation "measure (\<lambda>(n, L, R). R - L)") auto

declare bisect_probes.simps [simp del]

text \<open>Entry 0 and every entry that the bisection probes in the prefix is valid, and no
  probed entry has a smaller frame than the left end of its window.\<close>

definition file_probes_ok :: "osfile \<Rightarrow> nat \<Rightarrow> bool" where
  "file_probes_ok fd n =
     (n = 0
      \<or> (file_entry_valid fd 0
         \<and> list_all (\<lambda>(l, m). file_entry_valid fd m
                               \<and> e_frame (file_entry fd l) \<le> e_frame (file_entry fd m))
              (bisect_probes n 0 (unat (index_allocated_entries (dec_header (fbytes fd)))))))"

text \<open>The handle that \<^verbatim>\<open>gsd_read_header\<close> builds on a file whose index holds
  \<open>n\<close> entries.\<close>

definition opened_handle :: "osfile \<Rightarrow> gsd_open_flag \<Rightarrow> nat \<Rightarrow> gsd_handle" where
  "opened_handle fd flags n =
     \<lparr> header = dec_header (fbytes fd),
       mapped_data = (flags = GSD_OPEN_READONLY),
       append_index_size = (if flags = GSD_OPEN_APPEND then 1 else 0),
       index = (if flags = GSD_OPEN_READWRITE
                then (\<lambda>i. if i < unat (index_allocated_entries (dec_header (fbytes fd)))
                           then file_entry fd i else zero_entry)
                else (\<lambda>i. zero_entry)),
       namelist = namelist_buf fd,
       namelist_num_entries = file_num_names fd,
       namelist_written_entries = file_num_names fd,
       index_written_entries = n,
       index_num_entries = n,
       cur_frame = (if n = 0 then 0 else e_frame (file_entry fd (n - 1)) + 1),
       file_size = lseek_end fd,
       open_flags = flags,
       names = qsort (map (\<lambda>i. (c_str (file_name fd i), word_of_nat i))
                       [0..<file_num_names fd]),
       names_allocated_size =
         (if file_num_names fd = 0 then GSD_INITIAL_NAMELIST_SIZE else file_num_names fd) \<rparr>"

text \<open>The handle between the namelist stage and the counting stage.\<close>

definition counting_handle :: "osfile \<Rightarrow> gsd_open_flag \<Rightarrow> gsd_handle" where
  "counting_handle fd flags =
     (opened_handle fd flags 0)
       \<lparr> mapped_data := (flags \<noteq> GSD_OPEN_READWRITE), append_index_size := 0 \<rparr>"

subsection \<open>The handle after an expansion of the index\<close>

text \<open>The handle that \<^verbatim>\<open>gsd_expand_index\<close> leaves when no system call fails: the
  allocated size is doubled, the index location is the old end of the file, and in
  read/write mode the new half of the index in memory is zeroed.\<close>

definition expanded_handle :: "gsd_handle \<Rightarrow> osfile \<Rightarrow> gsd_handle" where
  "expanded_handle handle fd =
     handle
       \<lparr> header := (header handle)
           \<lparr> index_allocated_entries := index_allocated_entries (header handle) * 2,
             index_location := lseek_end fd \<rparr>,
         index :=
           (if open_flags handle = GSD_OPEN_READWRITE
            then (\<lambda>i. if unat (index_allocated_entries (header handle)) \<le> i
                          \<and> i < 2 * unat (index_allocated_entries (header handle))
                       then zero_entry else index handle i)
            else index handle),
         file_size :=
           word_of_nat (fsize fd + 128 * unat (index_allocated_entries (header handle))) \<rparr>"

text \<open>A read/write handle on a freshly initialised file whose 128 index slots are all
  in use.\<close>

definition full_handle :: gsd_handle where
  "full_handle =
     (fresh_handle (zero_handle GSD_OPEN_READWRITE) (str ''app'') (str ''s'') 0)
       \<lparr> index := (\<lambda>i. if i < 128 then wit_chunk\<lparr>e_frame := word_of_nat i\<rparr> else zero_entry),
         index_num_entries := 128 \<rparr>"

subsection \<open>Example runs\<close>

text \<open>A run through the public interface: create a file read/write, write chunk
  \<^verbatim>\<open>abc\<close> and end frame 0, then write chunks \<^verbatim>\<open>ab\<close> (one byte) and
  \<^verbatim>\<open>abc\<close> (two bytes) and end frame 1.\<close>

definition demo_rt :: "gsd_error \<times> gsd_handle option \<times> osfile" where
  "demo_rt =
     (case gsd_create_and_open (zero_handle GSD_OPEN_READWRITE) (Some empty_file)
             (str ''app'') (str ''s'') 0 GSD_OPEN_READWRITE of
        (rc0, h0, fdo0) \<Rightarrow>
          (case gsd_write_chunk (Some h0) (the fdo0) (str ''abc'') GSD_TYPE_UINT8 1 1 0
                  (Some [1]) of
             (rc1, ho1, fd1) \<Rightarrow>
               (case gsd_end_frame ho1 fd1 of
                  (rc2, ho2, fd2) \<Rightarrow>
                    (case gsd_write_chunk ho2 fd2 (str ''ab'') GSD_TYPE_UINT8 1 1 0
                            (Some [2]) of
                       (rc3, ho3, fd3) \<Rightarrow>
                         (case gsd_write_chunk ho3 fd3 (str ''abc'') GSD_TYPE_UINT8 2 1 0
                                 (Some [3, 4]) of
                            (rc4, ho4, fd4) \<Rightarrow> gsd_end_frame ho4 fd4)))))"

text \<open>The file that this run leaves, as the sequence of its positioned writes.\<close>

definition demo_rt_file :: osfile where
  "demo_rt_file =
     pwrite
      (pwrite
        (pwrite
          (pwrite
            (pwrite
              (pwrite (fresh_file (str ''app'') (str ''s'') 0) (mem_of [1]) 1 4202688)
              (index_mem
                ((\<lambda>i. zero_entry)
                 (0 := \<lparr>e_frame = 0, e_N = 1, e_location = 4202688, e_M = 1,
                          e_id = 0, e_type = 1, e_flags = 0\<rparr>))
                0)
              64 256)
            (namelist_mem ((\<lambda>i. replicate 64 0)(0 := strncpy (str ''abc'') 63 @ [0])) 0)
            64 8448)
          (mem_of [2]) 1 4202689)
        (mem_of [3, 4]) 2 4202690)
      (index_mem
        ((\<lambda>i. zero_entry)
         (0 := \<lparr>e_frame = 0, e_N = 1, e_location = 4202688, e_M = 1,
                  e_id = 0, e_type = 1, e_flags = 0\<rparr>,
          1 := \<lparr>e_frame = 1, e_N = 1, e_location = 4202689, e_M = 1,
                  e_id = 0, e_type = 1, e_flags = 0\<rparr>,
          2 := \<lparr>e_frame = 1, e_N = 2, e_location = 4202690, e_M = 1,
                  e_id = 0, e_type = 1, e_flags = 0\<rparr>))
        1)
      128 320"

text \<open>The file of the run, opened again read-only.\<close>

definition demo_reopened :: "gsd_error \<times> gsd_handle" where
  "demo_reopened = gsd_open (Some (snd (snd demo_rt))) GSD_OPEN_READONLY"

text \<open>The same file with the flags byte of index entry 2 set to 1.\<close>

definition demo_corrupt_file :: osfile where
  "demo_corrupt_file = pwrite demo_rt_file (\<lambda>i. 1) 1 413"

text \<open>A run that writes one chunk \<^verbatim>\<open>data\<close> into a file of application \<^verbatim>\<open>app\<close>,
  schema \<^verbatim>\<open>s\<close> and schema version 7, and ends the frame.\<close>

definition demo_data :: "gsd_error \<times> gsd_handle option \<times> osfile" where
  "demo_data =
     (case gsd_create_and_open (zero_handle GSD_OPEN_READWRITE) (Some empty_file)
             (str ''app'') (str ''s'') 7 GSD_OPEN_READWRITE of
        (rc0, h0, fdo0) \<Rightarrow>
          (case gsd_write_chunk (Some h0) (the fdo0) (str ''data'') GSD_TYPE_UINT8 1 1 0
                  (Some [1]) of
             (rc1, ho1, fd1) \<Rightarrow> gsd_end_frame ho1 fd1))"

text \<open>A run that commits the single name \<^verbatim>\<open>abc\<close> in frame 0.\<close>

definition demo_prefix :: "gsd_error \<times> gsd_handle option \<times> osfile" where
  "demo_prefix =
     (case gsd_create_and_open (zero_handle GSD_OPEN_READWRITE) (Some empty_file)
             (str ''app'') (str ''s'') 0 GSD_OPEN_READWRITE of
        (rc0, h0, fdo0) \<Rightarrow>
          (case gsd_write_chunk (Some h0) (the fdo0) (str ''abc'') GSD_TYPE_UINT8 1 1 0
                  (Some [1]) of
             (rc1, ho1, fd1) \<Rightarrow> gsd_end_frame ho1 fd1))"

text \<open>A run that commits the names \<^verbatim>\<open>a\<close>, \<^verbatim>\<open>b\<close>, \<^verbatim>\<open>ba\<close> and
  \<^verbatim>\<open>bb\<close> in one frame.\<close>

definition demo_names :: "gsd_error \<times> gsd_handle option \<times> osfile" where
  "demo_names =
     (case gsd_create_and_open (zero_handle GSD_OPEN_READWRITE) (Some empty_file)
             (str ''app'') (str ''s'') 0 GSD_OPEN_READWRITE of
        (rc0, h0, fdo0) \<Rightarrow>
          (case gsd_write_chunk (Some h0) (the fdo0) (str ''bb'') GSD_TYPE_UINT8 1 1 0
                  (Some [1]) of
             (rc1, ho1, fd1) \<Rightarrow>
               (case gsd_write_chunk ho1 fd1 (str ''ba'') GSD_TYPE_UINT8 1 1 0 (Some [2]) of
                  (rc2, ho2, fd2) \<Rightarrow>
                    (case gsd_write_chunk ho2 fd2 (str ''b'') GSD_TYPE_UINT8 1 1 0
                            (Some [3]) of
                       (rc3, ho3, fd3) \<Rightarrow>
                         (case gsd_write_chunk ho3 fd3 (str ''a'') GSD_TYPE_UINT8 1 1 0
                                 (Some [4]) of
                            (rc4, ho4, fd4) \<Rightarrow> gsd_end_frame ho4 fd4)))))"

text \<open>After \<^verbatim>\<open>abc\<close> is committed, the name \<^verbatim>\<open>ab\<close> is written twice in
  the next frame.\<close>

definition demo_twice :: "gsd_error \<times> gsd_handle option \<times> osfile" where
  "demo_twice =
     (case demo_prefix of
        (rc0, ho0, fd0) \<Rightarrow>
          (case gsd_write_chunk ho0 fd0 (str ''ab'') GSD_TYPE_UINT8 1 1 0 (Some [2]) of
             (rc1, ho1, fd1) \<Rightarrow>
               gsd_write_chunk ho1 fd1 (str ''ab'') GSD_TYPE_UINT8 1 1 0 (Some [5])))"


section \<open>Properties\<close>

subsection \<open>Files\<close>

lemma fbytes_pwrite:
  "fbytes (pwrite fd buf count off) a =
     (if off \<le> a \<and> a < off + count then buf (a - off)
      else if fsize fd \<le> a then 0 else fbytes fd a)"
  by (simp add: pwrite_def)

lemma fsize_pwrite: "fsize (pwrite fd buf count off) = max (fsize fd) (off + count)"
  by (simp add: pwrite_def)

lemma dec_header_cong:
  assumes "\<And>i. i < 256 \<Longrightarrow> m i = m' i"
  shows "dec_header m = dec_header m'"
  using assms by (simp add: dec_header_def rd_u64_def rd_u32_def rd_bytes_def)

lemma index_bisect_rc:
  "fst (index_bisect handle fd L R) = GSD_SUCCESS
   \<or> fst (index_bisect handle fd L R) = GSD_ERROR_FILE_CORRUPT"
proof (induction handle fd L R rule: index_bisect.induct)
  case (1 handle fd L R)
  show ?case
    using 1 index_bisect.simps [of handle fd L R]
    by (simp add: Let_def split: if_splits)
qed

lemma read_header_index_rc:
  "fst (read_header_index handle fd) \<in> {GSD_SUCCESS, GSD_ERROR_FILE_CORRUPT, GSD_ERROR_IO}"
  by (auto simp: read_header_index_def Let_def split: prod.splits)

lemma read_header_namelist_rc:
  "fst (read_header_namelist handle fd) \<in> {GSD_SUCCESS, GSD_ERROR_FILE_CORRUPT, GSD_ERROR_IO}"
  by (auto simp: read_header_namelist_def Let_def split: prod.splits)

lemma read_header_count_rc:
  "fst (read_header_count handle fd) \<in> {GSD_SUCCESS, GSD_ERROR_FILE_CORRUPT, SEGFAULT}"
proof -
  obtain rc n where b: "index_bisect handle fd 0 (unat (index_allocated_entries (header handle)))
     = (rc, n)" by fastforce
  have "rc = GSD_SUCCESS \<or> rc = GSD_ERROR_FILE_CORRUPT"
    using index_bisect_rc [of handle fd 0 "unat (index_allocated_entries (header handle))"] b
    by simp
  then show ?thesis
    by (auto simp add: read_header_count_def Let_def b)
qed

lemma make_version_values:
  "gsd_make_version 0 3 = 3" "gsd_make_version 1 0 = 0x10000" "gsd_make_version 2 0 = 0x20000"
  by (simp_all add: gsd_make_version_def)

lemma read_header_short:
  "fsize fd < 256 \<Longrightarrow> gsd_read_header handle (Some fd) = (GSD_ERROR_NOT_A_GSD_FILE, handle)"
  by (simp add: gsd_read_header_def gsd_pread_retry_def sizeof_gsd_header_def min_def)

lemma read_header_buf:
  "256 \<le> fsize fd \<Longrightarrow>
   gsd_pread_retry fd 256 0 = (256, snd (gsd_pread_retry fd 256 0))
   \<and> dec_header (snd (gsd_pread_retry fd 256 0)) = dec_header (fbytes fd)"
  by (auto simp: gsd_pread_retry_def min_def intro!: dec_header_cong)

subsection \<open>Codecs\<close>

lemma le_word_le_bytes: "le_word (le_bytes n w) = take_bit (8 * n) (w :: 'a::len word)"
proof (induction n arbitrary: w)
  case 0
  then show ?case by simp
next
  case (Suc n)
  show ?case
    apply (simp add: Suc)
    apply (rule bit_word_eqI)
    apply (auto simp add: bit_simps)
    done
qed

lemma enc_u16_le: "enc_u16 w = le_bytes 2 w"
proof -
  have "le_bytes (Suc (Suc 0)) w = enc_u16 w"
    by (simp add: enc_u16_def)
  moreover have "(2::nat) = Suc (Suc 0)" by simp
  ultimately show ?thesis by (simp only:)
qed

lemma enc_u32_le: "enc_u32 w = le_bytes 4 w"
proof -
  have "le_bytes (Suc (Suc (Suc (Suc 0)))) w = enc_u32 w"
    by (simp add: enc_u32_def drop_bit_drop_bit)
  moreover have "(4::nat) = Suc (Suc (Suc (Suc 0)))" by simp
  ultimately show ?thesis by (simp only:)
qed

lemma enc_u64_le: "enc_u64 w = le_bytes 8 w"
proof -
  have "le_bytes (Suc (Suc (Suc (Suc (Suc (Suc (Suc (Suc 0)))))))) w = enc_u64 w"
    by (simp add: enc_u64_def drop_bit_drop_bit)
  moreover have "(8::nat) = Suc (Suc (Suc (Suc (Suc (Suc (Suc (Suc 0)))))))" by simp
  ultimately show ?thesis by (simp only:)
qed

lemma le_word_enc_u16 [simp]: "le_word (enc_u16 w) = w"
  by (simp add: enc_u16_le le_word_le_bytes take_bit_word_eq_self)

lemma le_word_enc_u32 [simp]: "le_word (enc_u32 w) = w"
  by (simp add: enc_u32_le le_word_le_bytes take_bit_word_eq_self)

lemma le_word_enc_u64 [simp]: "le_word (enc_u64 w) = w"
  by (simp add: enc_u64_le le_word_le_bytes take_bit_word_eq_self)

lemma length_enc [simp]:
  "length (enc_u16 a) = 2" "length (enc_u32 b) = 4" "length (enc_u64 c) = 8"
  by (simp_all add: enc_u16_def enc_u32_def enc_u64_def)

lemma list8: "length xs = 8 \<Longrightarrow> xs = [xs ! 0, xs ! 1, xs ! 2, xs ! 3, xs ! 4, xs ! 5, xs ! 6, xs ! 7]"
  by (auto simp: list_eq_iff_nth_eq nth_Cons eval_nat_numeral split: nat.splits)

lemma list4: "length xs = 4 \<Longrightarrow> xs = [xs ! 0, xs ! 1, xs ! 2, xs ! 3]"
  by (auto simp: list_eq_iff_nth_eq nth_Cons eval_nat_numeral split: nat.splits)

lemma list2: "length xs = 2 \<Longrightarrow> xs = [xs ! 0, xs ! 1]"
  by (auto simp: list_eq_iff_nth_eq nth_Cons eval_nat_numeral split: nat.splits)

lemma rd_u64_enc:
  assumes "\<And>i. i < 8 \<Longrightarrow> m (a + i) = enc_u64 w ! i"
  shows "rd_u64 m a = w"
proof -
  have "[m a, m (a + 1), m (a + 2), m (a + 3), m (a + 4), m (a + 5), m (a + 6), m (a + 7)]
        = enc_u64 w"
    using assms [of 0] assms [of 1] assms [of 2] assms [of 3] assms [of 4] assms [of 5]
      assms [of 6] assms [of 7]
    by (subst (2) list8) simp_all
  then show ?thesis by (simp add: rd_u64_def)
qed

lemma rd_u32_enc:
  assumes "\<And>i. i < 4 \<Longrightarrow> m (a + i) = enc_u32 w ! i"
  shows "rd_u32 m a = w"
proof -
  have "[m a, m (a + 1), m (a + 2), m (a + 3)] = enc_u32 w"
    using assms [of 0] assms [of 1] assms [of 2] assms [of 3]
    by (subst (2) list4) simp_all
  then show ?thesis by (simp add: rd_u32_def)
qed

lemma rd_u16_enc:
  assumes "\<And>i. i < 2 \<Longrightarrow> m (a + i) = enc_u16 w ! i"
  shows "rd_u16 m a = w"
proof -
  have "[m a, m (a + 1)] = enc_u16 w"
    using assms [of 0] assms [of 1]
    by (subst (2) list2) simp_all
  then show ?thesis by (simp add: rd_u16_def)
qed

lemma rd_bytes_eq:
  assumes "length xs = n" "\<And>i. i < n \<Longrightarrow> m (a + i) = xs ! i"
  shows "rd_bytes m a n = xs"
  using assms by (auto simp: rd_bytes_def list_eq_iff_nth_eq)

lemma length_fit [simp]: "length (fit n xs) = n"
  by (simp add: fit_def)

lemma fit_id [simp]: "length xs = n \<Longrightarrow> fit n xs = xs"
  by (simp add: fit_def)

lemma length_enc_header [simp]: "length (enc_header hdr) = 256"
  by (simp add: enc_header_def)

lemma length_enc_entry [simp]: "length (enc_entry e) = 64"
  by (simp add: enc_entry_def)

lemma dec_entry_enc:
  assumes "\<And>i. i < 64 \<Longrightarrow> m (a + i) = enc_entry e ! i"
  shows "dec_entry m a = e"
proof -
  have f: "rd_u64 m a = e_frame e"
    by (rule rd_u64_enc) (simp add: assms enc_entry_def nth_append)
  have n: "rd_u64 m (a + 8) = e_N e"
    using assms by (intro rd_u64_enc) (simp add: add.assoc enc_entry_def nth_append)
  have l: "rd_u64 m (a + 16) = e_location e"
    using assms by (intro rd_u64_enc) (simp add: add.assoc enc_entry_def nth_append)
  have mm: "rd_u32 m (a + 24) = e_M e"
    using assms by (intro rd_u32_enc) (simp add: add.assoc enc_entry_def nth_append)
  have i: "rd_u16 m (a + 30) = e_id e"
    using assms by (intro rd_u16_enc) (simp add: add.assoc enc_entry_def nth_append)
  have t: "m (a + 28) = e_type e"
    using assms [of 28] by (simp add: enc_entry_def nth_append)
  have fl: "m (a + 29) = e_flags e"
    using assms [of 29] by (simp add: enc_entry_def nth_append)
  show ?thesis
    by (simp add: dec_entry_def f n l mm i t fl)
qed

lemma dec_header_enc:
  assumes "\<And>i. i < 256 \<Longrightarrow> m i = enc_header hdr ! i"
    and "length (application hdr) = 64" "length (schema hdr) = 64"
    and "length (reserved hdr) = 80"
  shows "dec_header m = hdr"
proof -
  have a: "\<And>i k. k + i < 256 \<Longrightarrow> m (k + i) = enc_header hdr ! (k + i)"
    using assms(1) by simp
  have 1: "rd_u64 m 0 = magic hdr"
    by (rule rd_u64_enc) (simp add: assms enc_header_def nth_append)
  have 2: "rd_u64 m 8 = index_location hdr"
    by (rule rd_u64_enc) (simp add: a enc_header_def nth_append)
  have 3: "rd_u64 m 16 = namelist_location hdr"
    by (rule rd_u64_enc) (simp add: a enc_header_def nth_append)
  have 4: "rd_u64 m 24 = index_allocated_entries hdr"
    by (rule rd_u64_enc) (simp add: a enc_header_def nth_append)
  have 5: "rd_u64 m 32 = namelist_allocated_entries hdr"
    by (rule rd_u64_enc) (simp add: a enc_header_def nth_append)
  have 6: "rd_u32 m 40 = schema_version hdr"
    by (rule rd_u32_enc) (simp add: a enc_header_def nth_append)
  have 7: "rd_u32 m 44 = gsd_version hdr"
    by (rule rd_u32_enc) (simp add: a enc_header_def nth_append)
  have 8: "rd_bytes m 48 64 = application hdr"
    by (rule rd_bytes_eq) (simp_all add: a assms enc_header_def nth_append)
  have 9: "rd_bytes m 112 64 = schema hdr"
    by (rule rd_bytes_eq) (simp_all add: a assms enc_header_def nth_append)
  have 10: "rd_bytes m 176 80 = reserved hdr"
    by (rule rd_bytes_eq) (simp_all add: a assms enc_header_def nth_append)
  show ?thesis
    by (simp add: dec_header_def 1 2 3 4 5 6 7 8 9 10)
qed

lemma rd_u64_cong:
  assumes "\<And>i. i < 8 \<Longrightarrow> m (a + i) = m' (b + i)"
  shows "rd_u64 m a = rd_u64 m' b"
  using assms [of 0] assms [of 1] assms [of 2] assms [of 3] assms [of 4] assms [of 5]
    assms [of 6] assms [of 7]
  by (simp add: rd_u64_def)

lemma rd_u32_cong:
  assumes "\<And>i. i < 4 \<Longrightarrow> m (a + i) = m' (b + i)"
  shows "rd_u32 m a = rd_u32 m' b"
  using assms [of 0] assms [of 1] assms [of 2] assms [of 3]
  by (simp add: rd_u32_def)

lemma rd_u16_cong:
  assumes "\<And>i. i < 2 \<Longrightarrow> m (a + i) = m' (b + i)"
  shows "rd_u16 m a = rd_u16 m' b"
  using assms [of 0] assms [of 1]
  by (simp add: rd_u16_def)

lemma dec_entry_cong:
  assumes "\<And>i. i < 64 \<Longrightarrow> m (a + i) = m' (b + i)"
  shows "dec_entry m a = dec_entry m' b"
proof -
  have 1: "rd_u64 m a = rd_u64 m' b"
    by (rule rd_u64_cong) (simp add: assms)
  have 2: "rd_u64 m (a + 8) = rd_u64 m' (b + 8)"
    by (rule rd_u64_cong) (simp add: assms add.assoc)
  have 3: "rd_u64 m (a + 16) = rd_u64 m' (b + 16)"
    by (rule rd_u64_cong) (simp add: assms add.assoc)
  have 4: "rd_u32 m (a + 24) = rd_u32 m' (b + 24)"
    by (rule rd_u32_cong) (simp add: assms add.assoc)
  have 5: "rd_u16 m (a + 30) = rd_u16 m' (b + 30)"
    by (rule rd_u16_cong) (simp add: assms add.assoc)
  show ?thesis
    using assms [of 28] assms [of 29] by (simp add: dec_entry_def 1 2 3 4 5)
qed

lemma dec_entry_zero:
  assumes "\<And>i. i < 64 \<Longrightarrow> m (a + i) = 0"
  shows "dec_entry m a = zero_entry"
proof -
  have "dec_entry m a = dec_entry (\<lambda>i. 0) 0"
    by (rule dec_entry_cong) (simp add: assms)
  also have "\<dots> = zero_entry"
    by (simp add: dec_entry_def zero_entry_def rd_u64_def rd_u32_def rd_u16_def)
  finally show ?thesis .
qed

text \<open>The stages of gsd_read_header after the header checks.\<close>

lemma read_header_unfold:
  assumes "256 \<le> fsize fd"
  shows "gsd_read_header handle (Some fd) =
     (let handle1 = handle\<lparr>header := dec_header (fbytes fd)\<rparr>
      in if magic (header handle1) \<noteq> GSD_MAGIC_ID then (GSD_ERROR_NOT_A_GSD_FILE, handle1)
         else if gsd_version (header handle1) < gsd_make_version 1 0
                 \<and> gsd_version (header handle1) \<noteq> gsd_make_version 0 3
         then (GSD_ERROR_INVALID_GSD_FILE_VERSION, handle1)
         else if gsd_version (header handle1) \<ge> gsd_make_version 2 0
         then (GSD_ERROR_INVALID_GSD_FILE_VERSION, handle1)
         else (case read_header_index (handle1\<lparr>file_size := lseek_end fd\<rparr>) fd of
                 (rc, handle2) \<Rightarrow>
                   if rc \<noteq> GSD_SUCCESS then (rc, handle2)
                   else (case read_header_namelist handle2 fd of
                           (rc', handle3) \<Rightarrow>
                             if rc' \<noteq> GSD_SUCCESS then (rc', handle3)
                             else read_header_count handle3 fd)))"
proof -
  obtain buf where b: "gsd_pread_retry fd 256 0 = (256, buf)"
    and d: "dec_header buf = dec_header (fbytes fd)"
    using read_header_buf [OF assms] by metis
  show ?thesis
    by (simp add: gsd_read_header_def sizeof_gsd_header_def b d)
qed

lemma read_header_magic:
  "256 \<le> fsize fd \<Longrightarrow> magic (dec_header (fbytes fd)) \<noteq> GSD_MAGIC_ID \<Longrightarrow>
   fst (gsd_read_header handle (Some fd)) = GSD_ERROR_NOT_A_GSD_FILE"
  by (simp add: read_header_unfold)

lemma read_header_version:
  assumes "256 \<le> fsize fd" "magic (dec_header (fbytes fd)) = GSD_MAGIC_ID"
  shows "(fst (gsd_read_header handle (Some fd)) = GSD_ERROR_INVALID_GSD_FILE_VERSION)
         = (\<not> (gsd_version (dec_header (fbytes fd)) = gsd_make_version 0 3
                \<or> (gsd_make_version 1 0 \<le> gsd_version (dec_header (fbytes fd))
                    \<and> gsd_version (dec_header (fbytes fd)) < gsd_make_version 2 0)))"
proof -
  let ?h1 = "handle\<lparr>header := dec_header (fbytes fd), file_size := lseek_end fd\<rparr>"
  obtain rc2 h2 where s2: "read_header_index ?h1 fd = (rc2, h2)" by fastforce
  obtain rc3 h3 where s3: "read_header_namelist h2 fd = (rc3, h3)" by fastforce
  obtain rc4 h4 where s4: "read_header_count h3 fd = (rc4, h4)" by fastforce
  have r2: "rc2 \<noteq> GSD_ERROR_INVALID_GSD_FILE_VERSION"
    using read_header_index_rc [of ?h1 fd] s2 by auto
  have r3: "rc3 \<noteq> GSD_ERROR_INVALID_GSD_FILE_VERSION"
    using read_header_namelist_rc [of h2 fd] s3 by auto
  have r4: "rc4 \<noteq> GSD_ERROR_INVALID_GSD_FILE_VERSION"
    using read_header_count_rc [of h3 fd] s4 by auto
  show ?thesis
    using assms(2) r2 r3 r4
    by (auto simp: read_header_unfold [OF assms(1)] s2 s3 s4 Let_def make_version_values)
qed

text \<open>
  Claim C7. \<^verbatim>\<open>gsd_open\<close> fails with \<open>NOT_A_GSD_FILE\<close> when the file is shorter than the
  256-byte header or the magic differs from \<open>0x65DF65DF65DF65DF\<close>; with the magic right,
  it fails with \<open>INVALID_GSD_FILE_VERSION\<close> exactly when the version is neither 0.3 nor
  in the range from 1.0 (included) to 2.0 (excluded); a version is major shifted left by
  16 bits, or-ed with minor.
\<close>

theorem open_header_checks:
  "(fsize fd < 256 \<longrightarrow> fst (gsd_open (Some fd) flags) = GSD_ERROR_NOT_A_GSD_FILE)
   \<and> (256 \<le> fsize fd \<and> magic (dec_header (fbytes fd)) \<noteq> GSD_MAGIC_ID
        \<longrightarrow> fst (gsd_open (Some fd) flags) = GSD_ERROR_NOT_A_GSD_FILE)
   \<and> (256 \<le> fsize fd \<and> magic (dec_header (fbytes fd)) = GSD_MAGIC_ID
        \<longrightarrow> (fst (gsd_open (Some fd) flags) = GSD_ERROR_INVALID_GSD_FILE_VERSION)
            = (\<not> (gsd_version (dec_header (fbytes fd)) = gsd_make_version 0 3
                   \<or> (gsd_make_version 1 0 \<le> gsd_version (dec_header (fbytes fd))
                       \<and> gsd_version (dec_header (fbytes fd)) < gsd_make_version 2 0))))
   \<and> gsd_make_version major minor = push_bit 16 major OR minor"
  using read_header_version [of fd "zero_handle flags"]
  by (simp add: gsd_open_def read_header_short read_header_magic gsd_make_version_def)

subsection \<open>A freshly initialised file\<close>

lemma initialize_file_fresh:
  "gsd_initialize_file (Some fd) app sch sv = (GSD_SUCCESS, Some (fresh_file app sch sv))"
  by (simp add: gsd_initialize_file_def gsd_pwrite_retry_def pwrite_def empty_file_def
        fresh_file_def sizeof_gsd_header_def sizeof_gsd_index_entry_def
        sizeof_gsd_namelist_entry_def GSD_INITIAL_INDEX_SIZE_def GSD_INITIAL_NAMELIST_SIZE_def
        Let_def mem_of_def fun_eq_iff)

lemma length_strncpy [simp]: "length (strncpy s n) = n"
  by (simp add: strncpy_def strlen_def)

lemma fresh_header_fields [simp]:
  "magic (fresh_header app sch sv) = GSD_MAGIC_ID"
  "gsd_version (fresh_header app sch sv) = gsd_make_version 1 0"
  "schema_version (fresh_header app sch sv) = sv"
  "index_location (fresh_header app sch sv) = 256"
  "index_allocated_entries (fresh_header app sch sv) = 128"
  "namelist_location (fresh_header app sch sv) = 8448"
  "namelist_allocated_entries (fresh_header app sch sv) = 65535"
  "application (fresh_header app sch sv) = strncpy app 63 @ [0]"
  "schema (fresh_header app sch sv) = strncpy sch 63 @ [0]"
  "reserved (fresh_header app sch sv) = replicate 80 0"
  by (simp_all add: fresh_header_def zero_header_def sizeof_gsd_header_def
        sizeof_gsd_index_entry_def GSD_INITIAL_INDEX_SIZE_def GSD_INITIAL_NAMELIST_SIZE_def)

lemma dec_header_fresh [simp]:
  "dec_header (fbytes (fresh_file app sch sv)) = fresh_header app sch sv"
  by (rule dec_header_enc) (simp_all add: fresh_file_def)

lemma fsize_fresh [simp]: "fsize (fresh_file app sch sv) = 4202688"
  by (simp add: fresh_file_def)

lemma fbytes_fresh_zero [simp]: "256 \<le> a \<Longrightarrow> fbytes (fresh_file app sch sv) a = 0"
  by (simp add: fresh_file_def)

lemma namelist_first_empty_0:
  "0 < n \<Longrightarrow> mem_of (nl 0) 0 = 0 \<Longrightarrow> namelist_first_empty nl 0 n = 0"
  by (simp add: namelist_first_empty.simps)

lemma pread_fst:
  "count \<noteq> 0 \<Longrightarrow> 0 \<le> sint off \<Longrightarrow> unat off + count \<le> fsize fd \<Longrightarrow>
   fst (gsd_pread_retry fd count off) = int count"
  by (simp add: gsd_pread_retry_def min_def)

lemma pread_snd:
  "snd (gsd_pread_retry fd count off) i =
     (if count = 0 \<or> sint off < 0 then 0
      else if unat off + i < fsize fd then fbytes fd (unat off + i) else 0)"
  by (simp add: gsd_pread_retry_def)

lemma fresh_index_stage:
  "read_header_index
     (handle\<lparr>header := fresh_header app sch sv, file_size := lseek_end (fresh_file app sch sv)\<rparr>)
     (fresh_file app sch sv) =
   (GSD_SUCCESS,
    handle\<lparr>header := fresh_header app sch sv, file_size := 4202688,
           mapped_data := (open_flags handle \<noteq> GSD_OPEN_READWRITE),
           index := (if open_flags handle = GSD_OPEN_READWRITE then (\<lambda>i. zero_entry)
                     else index handle)\<rparr>)"
proof -
  define buf where "buf = snd (gsd_pread_retry (fresh_file app sch sv) 8192 256)"
  have p: "gsd_pread_retry (fresh_file app sch sv) 8192 256 = (8192, buf)"
    using pread_fst [of 8192 256 "fresh_file app sch sv"]
    by (simp add: buf_def prod_eq_iff)
  have bz: "buf i = 0" for i
    by (simp add: buf_def pread_snd)
  have z: "(\<lambda>i. if i < 128 then dec_entry buf (sizeof_gsd_index_entry * i) else zero_entry)
           = (\<lambda>i. zero_entry)"
    by (auto simp: fun_eq_iff bz intro!: dec_entry_zero)
  show ?thesis
    by (cases "open_flags handle")
       (simp_all add: read_header_index_def lseek_end_def sizeof_gsd_index_entry_def
          Let_def p z)
qed


lemma qsort_Nil [simp]: "qsort [] = []"
  by (simp add: qsort_def)

lemma fresh_namelist_stage:
  assumes "header handle = fresh_header app sch sv" "file_size handle = 4202688"
  shows "read_header_namelist handle (fresh_file app sch sv) =
    (GSD_SUCCESS,
     handle\<lparr>namelist := (\<lambda>i. replicate 64 0), namelist_num_entries := 0,
            namelist_written_entries := 0, names_allocated_size := 65535, names := []\<rparr>)"
proof -
  define buf where "buf = snd (gsd_pread_retry (fresh_file app sch sv) 4194240 8448)"
  have p: "gsd_pread_retry (fresh_file app sch sv) 4194240 8448 = (4194240, buf)"
    using pread_fst [of 4194240 8448 "fresh_file app sch sv"]
    by (simp add: buf_def prod_eq_iff)
  have bz: "buf i = 0" for i
    by (simp add: buf_def pread_snd)
  have nl: "(\<lambda>i. rd_bytes buf (64 * i) 64) = (\<lambda>i. replicate 64 0)"
    by (auto simp: fun_eq_iff bz intro!: rd_bytes_eq)
  have n0: "namelist_first_empty (\<lambda>i. replicate 64 0) 0 65535 = 0"
    by (rule namelist_first_empty_0) (simp_all add: mem_of_def)
  show ?thesis
    by (simp add: read_header_namelist_def assms p nl n0 Let_def gsd_sort_name_id_pairs_def
          GSD_INITIAL_NAMELIST_SIZE_def sizeof_gsd_namelist_entry_def)
qed

lemma fresh_count_stage:
  assumes "header handle = fresh_header app sch sv"
    and "mapped_data handle = (open_flags handle \<noteq> GSD_OPEN_READWRITE)"
    and "open_flags handle = GSD_OPEN_READWRITE \<longrightarrow> index handle = (\<lambda>i. zero_entry)"
  shows "read_header_count handle (fresh_file app sch sv) =
    (GSD_SUCCESS,
     handle\<lparr>index_num_entries := 0, cur_frame := 0, index_written_entries := 0,
            append_index_size :=
              (if open_flags handle = GSD_OPEN_APPEND then 1 else append_index_size handle),
            index := (if open_flags handle = GSD_OPEN_READONLY then index handle
                      else (\<lambda>i. zero_entry)),
            mapped_data := (open_flags handle = GSD_OPEN_READONLY)\<rparr>)"
proof -
  have e0: "index_at handle (fresh_file app sch sv) 0 = zero_entry"
    using assms
    by (cases "open_flags handle")
       (auto simp: index_at_def sizeof_gsd_index_entry_def intro!: dec_entry_zero)
  have l0: "e_location zero_entry = 0"
    by (simp add: zero_entry_def)
  show ?thesis
    using assms
    by (cases "open_flags handle")
       (simp_all add: read_header_count_def e0 l0 Let_def sizeof_gsd_index_entry_def)
qed

lemma read_header_fresh:
  "gsd_read_header handle (Some (fresh_file app sch sv)) =
     (GSD_SUCCESS, fresh_handle handle app sch sv)"
proof -
  have v: "\<not> gsd_make_version 1 0 < gsd_make_version 1 0"
    "\<not> gsd_make_version 2 0 \<le> gsd_make_version 1 0"
    by (simp_all add: make_version_values)
  have "snd (gsd_read_header handle (Some (fresh_file app sch sv)))
        = fresh_handle handle app sch sv
        \<and> fst (gsd_read_header handle (Some (fresh_file app sch sv))) = GSD_SUCCESS"
  proof (cases "open_flags handle")
    case GSD_OPEN_READWRITE
    then show ?thesis
      apply (simp add: read_header_unfold Let_def v fresh_index_stage fresh_namelist_stage
          fresh_count_stage)
      apply (rule gsd_handle.equality; simp add: fresh_handle_def)
      done
  next
    case GSD_OPEN_READONLY
    then show ?thesis
      apply (simp add: read_header_unfold Let_def v fresh_index_stage fresh_namelist_stage
          fresh_count_stage)
      apply (rule gsd_handle.equality; simp add: fresh_handle_def)
      done
  next
    case GSD_OPEN_APPEND
    then show ?thesis
      apply (simp add: read_header_unfold Let_def v fresh_index_stage fresh_namelist_stage
          fresh_count_stage)
      apply (rule gsd_handle.equality; simp add: fresh_handle_def)
      done
  qed
  then show ?thesis
    by (simp add: prod_eq_iff)
qed

lemma c_str_no_nul: "0 \<notin> set (c_str s)"
  by (auto simp: c_str_def dest: set_takeWhileD)

lemma c_str_idem [simp]: "c_str (c_str s) = c_str s"
  by (simp add: c_str_def takeWhile_idem)

lemma c_str_strncpy [simp]: "c_str (strncpy s n @ [0]) = take n (c_str s)"
proof -
  have a: "\<forall>x \<in> set (take n (c_str s)). x \<noteq> 0"
    using c_str_no_nul [of s] by (auto dest: in_set_takeD)
  have b: "takeWhile (\<lambda>c. c \<noteq> 0) (replicate k (0::byte) @ [0]) = []" for k
    by (cases k) simp_all
  show ?thesis
    unfolding strncpy_def c_str_def [of "_ @ _"]
    using a b by (simp add: takeWhile_append2)
qed

lemma create_and_open_fresh:
  "flags \<noteq> GSD_OPEN_READONLY \<Longrightarrow>
   gsd_create_and_open handle (Some fd) app sch sv flags =
     (GSD_SUCCESS, fresh_handle (handle\<lparr>open_flags := flags\<rparr>) app sch sv,
      Some (fresh_file app sch sv))"
  by (simp add: gsd_create_and_open_def initialize_file_fresh read_header_fresh Let_def)

lemma truncate_fresh:
  "open_flags handle \<noteq> GSD_OPEN_READONLY \<Longrightarrow>
   gsd_truncate (Some handle) fd =
     (GSD_SUCCESS,
      Some (fresh_handle (handle\<lparr>namelist := (\<lambda>i. []), names := [], index := (\<lambda>i. zero_entry)\<rparr>)
              (application (header handle)) (schema (header handle))
              (schema_version (header handle))),
      fresh_file (application (header handle)) (schema (header handle))
        (schema_version (header handle)))"
  by (simp add: gsd_truncate_def initialize_file_fresh read_header_fresh Let_def)

text \<open>
  Claim C9. On a writable handle whose application and schema fields are NUL-terminated
  (at most 63 characters, as the header layout has them), \<^verbatim>\<open>gsd_truncate\<close> succeeds and
  leaves the application, the schema and the schema version of the header unchanged;
  afterwards \<^verbatim>\<open>gsd_get_nframes\<close> is 0 and \<^verbatim>\<open>gsd_find_chunk\<close> returns NULL for every
  frame and name.
\<close>

theorem truncate_resets:
  assumes "open_flags handle \<noteq> GSD_OPEN_READONLY"
    and "strlen (application (header handle)) \<le> 63"
    and "strlen (schema (header handle)) \<le> 63"
  shows "\<exists>handle' fd'.
           gsd_truncate (Some handle) fd = (GSD_SUCCESS, Some handle', fd')
           \<and> c_str (application (header handle')) = c_str (application (header handle))
           \<and> c_str (schema (header handle')) = c_str (schema (header handle))
           \<and> schema_version (header handle') = schema_version (header handle)
           \<and> gsd_get_nframes (Some handle') = 0
           \<and> (\<forall>frame name. gsd_find_chunk (Some handle') fd' frame name = None)"
  using assms
  by (simp add: truncate_fresh fresh_handle_def gsd_get_nframes_def gsd_find_chunk_def strlen_def
           split: option.splits)

text \<open>
  Claim C5 as stated fails: on a read-only handle with non-zero flags the code reports
  \<open>FILE_MUST_BE_WRITABLE\<close>, where the stated order (flags before the writable mode)
  gives \<open>INVALID_ARGUMENT\<close>.
\<close>

theorem write_chunk_checks_order_counterexample:
  "fst (gsd_write_chunk (Some (zero_handle GSD_OPEN_READONLY)) empty_file (str ''a'')
          GSD_TYPE_UINT8 1 1 1 (Some [0]))
     = GSD_ERROR_FILE_MUST_BE_WRITABLE
   \<and> write_chunk_checks_spec (Some (zero_handle GSD_OPEN_READONLY)) GSD_TYPE_UINT8 1 1 1
         (Some [0])
     = GSD_ERROR_INVALID_ARGUMENT"
  by (simp add: gsd_write_chunk_def write_chunk_checks_spec_def gsd_sizeof_type_def
        GSD_TYPE_UINT8_def zero_handle_def)

text \<open>
  Claim C5, amended. \<^verbatim>\<open>gsd_write_chunk\<close> checks, in this order: data not NULL; N, M
  and the size of the type not 0; the handle not read-only; flags 0. It returns
  \<open>INVALID_ARGUMENT\<close> for NULL data, N = 0, M = 0, an unknown type, and non-zero
  flags on a writable handle, and \<open>FILE_MUST_BE_WRITABLE\<close> for a read-only handle whatever
  the flags; when a check fails neither the file nor the handle changes.
\<close>

theorem write_chunk_checks:
  "(data = None
      \<longrightarrow> gsd_write_chunk ho fd name type N M flags data = (GSD_ERROR_INVALID_ARGUMENT, ho, fd))
   \<and> (N = 0 \<or> M = 0 \<or> gsd_sizeof_type type = 0
      \<longrightarrow> gsd_write_chunk ho fd name type N M flags (Some bytes)
          = (GSD_ERROR_INVALID_ARGUMENT, ho, fd))
   \<and> (N \<noteq> 0 \<and> M \<noteq> 0 \<and> gsd_sizeof_type type \<noteq> 0
        \<and> open_flags handle = GSD_OPEN_READONLY
      \<longrightarrow> gsd_write_chunk (Some handle) fd name type N M flags (Some bytes)
          = (GSD_ERROR_FILE_MUST_BE_WRITABLE, Some handle, fd))
   \<and> (N \<noteq> 0 \<and> M \<noteq> 0 \<and> gsd_sizeof_type type \<noteq> 0
        \<and> open_flags handle \<noteq> GSD_OPEN_READONLY \<and> flags \<noteq> 0
      \<longrightarrow> gsd_write_chunk (Some handle) fd name type N M flags (Some bytes)
          = (GSD_ERROR_INVALID_ARGUMENT, Some handle, fd))"
  by (simp add: gsd_write_chunk_def)

text \<open>Witness of C5: one call for each failing check.\<close>

theorem write_chunk_checks_witness:
  "gsd_write_chunk None empty_file (str ''a'') GSD_TYPE_UINT8 1 1 0 None
     = (GSD_ERROR_INVALID_ARGUMENT, None, empty_file)
   \<and> gsd_write_chunk (Some (zero_handle GSD_OPEN_READWRITE)) empty_file (str ''a'')
       GSD_TYPE_UINT8 0 1 0 (Some [7])
     = (GSD_ERROR_INVALID_ARGUMENT, Some (zero_handle GSD_OPEN_READWRITE), empty_file)
   \<and> gsd_write_chunk (Some (zero_handle GSD_OPEN_READONLY)) empty_file (str ''a'')
       GSD_TYPE_UINT8 1 1 1 (Some [7])
     = (GSD_ERROR_FILE_MUST_BE_WRITABLE, Some (zero_handle GSD_OPEN_READONLY), empty_file)
   \<and> gsd_write_chunk (Some (zero_handle GSD_OPEN_READWRITE)) empty_file (str ''a'')
       GSD_TYPE_UINT8 1 1 1 (Some [7])
     = (GSD_ERROR_INVALID_ARGUMENT, Some (zero_handle GSD_OPEN_READWRITE), empty_file)"
  using write_chunk_checks [where data = None and ho = None and fd = empty_file
        and name = "str ''a''" and type = GSD_TYPE_UINT8 and N = 1 and M = 1 and flags = 0]
    write_chunk_checks [where ho = "Some (zero_handle GSD_OPEN_READWRITE)" and fd = empty_file
        and name = "str ''a''" and type = GSD_TYPE_UINT8 and N = 0 and M = 1 and flags = 0
        and bytes = "[7]"]
    write_chunk_checks [where handle = "zero_handle GSD_OPEN_READONLY" and fd = empty_file
        and name = "str ''a''" and type = GSD_TYPE_UINT8 and N = 1 and M = 1 and flags = 1
        and bytes = "[7]"]
    write_chunk_checks [where handle = "zero_handle GSD_OPEN_READWRITE" and fd = empty_file
        and name = "str ''a''" and type = GSD_TYPE_UINT8 and N = 1 and M = 1 and flags = 1
        and bytes = "[7]"]
  by (simp add: gsd_sizeof_type_def GSD_TYPE_UINT8_def zero_handle_def)

text \<open>
  Claim C6. \<^verbatim>\<open>gsd_read_chunk\<close> returns \<open>INVALID_ARGUMENT\<close> when the handle, the
  destination or the chunk is NULL; \<open>FILE_MUST_BE_READABLE\<close> on an append-mode handle;
  \<open>FILE_CORRUPT\<close> when the computed size \<open>N * M * sizeof(type)\<close> is 0, the location is 0,
  or location plus size exceeds \<open>file_size\<close>; otherwise, the file holding these bytes, it
  succeeds and the destination starts with exactly the \<open>size\<close> bytes of the file at the
  location.
\<close>

theorem read_chunk_checks:
  "(ho = None \<or> data = None \<or> chunko = None
      \<longrightarrow> gsd_read_chunk ho fd data chunko = (GSD_ERROR_INVALID_ARGUMENT, data))
   \<and> (open_flags handle = GSD_OPEN_APPEND
      \<longrightarrow> gsd_read_chunk (Some handle) fd (Some dst) (Some chunk)
          = (GSD_ERROR_FILE_MUST_BE_READABLE, Some dst))
   \<and> (open_flags handle \<noteq> GSD_OPEN_APPEND
        \<and> (entry_size chunk = 0 \<or> e_location chunk = 0
            \<or> e_location chunk + entry_size chunk > file_size handle)
      \<longrightarrow> gsd_read_chunk (Some handle) fd (Some dst) (Some chunk)
          = (GSD_ERROR_FILE_CORRUPT, Some dst))
   \<and> (open_flags handle \<noteq> GSD_OPEN_APPEND
        \<and> entry_size chunk \<noteq> 0 \<and> e_location chunk \<noteq> 0
        \<and> e_location chunk + entry_size chunk \<le> file_size handle
        \<and> 0 \<le> sint (e_location chunk)
        \<and> unat (e_location chunk) + unat (entry_size chunk) \<le> fsize fd
      \<longrightarrow> gsd_read_chunk (Some handle) fd (Some dst) (Some chunk)
          = (GSD_SUCCESS,
             Some (map (\<lambda>i. fbytes fd (unat (e_location chunk) + i))
                     [0..<unat (entry_size chunk)]
                   @ drop (unat (entry_size chunk)) dst)))"
  apply (intro conjI impI)
     apply (auto simp: gsd_read_chunk_def split: option.splits)[1]
    apply (simp add: gsd_read_chunk_def)
   apply (auto simp: gsd_read_chunk_def Let_def split: prod.splits if_splits)[1]
  apply (auto simp: gsd_read_chunk_def Let_def gsd_pread_retry_def rd_bytes_def unat_eq_0 min_def
               split: prod.splits if_splits)
  done

lemma wit_chunk_size: "entry_size wit_chunk = 3"
  by (simp add: entry_size_def wit_chunk_def gsd_sizeof_type_def GSD_TYPE_UINT8_def)

text \<open>Witness of C6: a three-byte chunk at offset 300.\<close>

theorem read_chunk_checks_witness:
  "gsd_read_chunk None wit_file (Some [0, 0, 0]) (Some wit_chunk)
     = (GSD_ERROR_INVALID_ARGUMENT, Some [0, 0, 0])
   \<and> gsd_read_chunk (Some (zero_handle GSD_OPEN_APPEND)) wit_file (Some [0, 0, 0])
       (Some wit_chunk)
     = (GSD_ERROR_FILE_MUST_BE_READABLE, Some [0, 0, 0])
   \<and> gsd_read_chunk (Some (zero_handle GSD_OPEN_READONLY)) wit_file (Some [0, 0, 0])
       (Some wit_chunk)
     = (GSD_ERROR_FILE_CORRUPT, Some [0, 0, 0])
   \<and> gsd_read_chunk (Some ((zero_handle GSD_OPEN_READONLY)\<lparr>file_size := 303\<rparr>)) wit_file
       (Some [0, 0, 0]) (Some wit_chunk)
     = (GSD_SUCCESS, Some [1, 2, 3])"
proof -
  have 1: "gsd_read_chunk None wit_file (Some [0, 0, 0]) (Some wit_chunk)
             = (GSD_ERROR_INVALID_ARGUMENT, Some [0, 0, 0])"
    using read_chunk_checks [where ho = None and data = "Some [0, 0, 0]" and fd = wit_file
        and chunko = "Some wit_chunk"]
    by simp
  have 2: "gsd_read_chunk (Some (zero_handle GSD_OPEN_APPEND)) wit_file (Some [0, 0, 0])
             (Some wit_chunk)
           = (GSD_ERROR_FILE_MUST_BE_READABLE, Some [0, 0, 0])"
    using read_chunk_checks [where handle = "zero_handle GSD_OPEN_APPEND" and dst = "[0, 0, 0]"
        and fd = wit_file and chunk = wit_chunk]
    by (simp add: zero_handle_def)
  have 3: "gsd_read_chunk (Some (zero_handle GSD_OPEN_READONLY)) wit_file (Some [0, 0, 0])
             (Some wit_chunk)
           = (GSD_ERROR_FILE_CORRUPT, Some [0, 0, 0])"
    using read_chunk_checks [where handle = "zero_handle GSD_OPEN_READONLY"
        and dst = "[0, 0, 0]" and fd = wit_file and chunk = wit_chunk]
    by (simp add: zero_handle_def wit_chunk_size) (simp add: wit_chunk_def)
  have 4: "gsd_read_chunk (Some ((zero_handle GSD_OPEN_READONLY)\<lparr>file_size := 303\<rparr>))
             wit_file (Some [0, 0, 0]) (Some wit_chunk)
           = (GSD_SUCCESS, Some [1, 2, 3])"
    using read_chunk_checks [where handle = "(zero_handle GSD_OPEN_READONLY)\<lparr>file_size := 303\<rparr>"
        and dst = "[0, 0, 0]" and fd = wit_file and chunk = wit_chunk]
    by (simp add: zero_handle_def wit_chunk_size)
       (simp add: wit_chunk_def wit_file_def fbytes_pwrite fsize_pwrite empty_file_def
          mem_of_def upt_conv_Cons)
  show ?thesis
    using 1 2 3 4 by simp
qed

text \<open>Witness of C7: an empty file, a zeroed header, a header of version 2.0 and a
  freshly initialised file.\<close>

theorem open_header_checks_witness:
  "fst (gsd_open (Some empty_file) GSD_OPEN_READONLY) = GSD_ERROR_NOT_A_GSD_FILE
   \<and> fst (gsd_open (Some wit_zero_file) GSD_OPEN_READONLY) = GSD_ERROR_NOT_A_GSD_FILE
   \<and> fst (gsd_open (Some wit_v2_file) GSD_OPEN_READONLY) = GSD_ERROR_INVALID_GSD_FILE_VERSION
   \<and> fst (gsd_open (Some (fresh_file [] [] 0)) GSD_OPEN_READONLY)
       \<noteq> GSD_ERROR_INVALID_GSD_FILE_VERSION"
proof -
  have 1: "fst (gsd_open (Some empty_file) GSD_OPEN_READONLY) = GSD_ERROR_NOT_A_GSD_FILE"
    using open_header_checks [where fd = empty_file and flags = GSD_OPEN_READONLY]
    by (simp add: empty_file_def)
  have fs: "fsize wit_v2_file = 256" "fsize wit_zero_file = 256"
    by (simp_all add: wit_v2_file_def wit_zero_file_def)
  have z: "magic (dec_header (fbytes wit_zero_file)) = 0"
    by (simp add: wit_zero_file_def dec_header_def rd_u64_def)
  have 2: "fst (gsd_open (Some wit_zero_file) GSD_OPEN_READONLY) = GSD_ERROR_NOT_A_GSD_FILE"
    using open_header_checks [where fd = wit_zero_file and flags = GSD_OPEN_READONLY]
    by (simp add: z GSD_MAGIC_ID_def fs)
  have v: "dec_header (fbytes wit_v2_file)
           = (fresh_header [] [] 0)\<lparr>gsd_version := gsd_make_version 2 0\<rparr>"
    by (rule dec_header_enc) (simp_all add: wit_v2_file_def mem_of_def)
  have 3: "fst (gsd_open (Some wit_v2_file) GSD_OPEN_READONLY)
           = GSD_ERROR_INVALID_GSD_FILE_VERSION"
    using open_header_checks [where fd = wit_v2_file and flags = GSD_OPEN_READONLY]
    by (simp add: v make_version_values fs)
  have 4: "fst (gsd_open (Some (fresh_file [] [] 0)) GSD_OPEN_READONLY)
           \<noteq> GSD_ERROR_INVALID_GSD_FILE_VERSION"
    using open_header_checks [where fd = "fresh_file [] [] 0" and flags = GSD_OPEN_READONLY]
    by (simp add: make_version_values)
  show ?thesis
    using 1 2 3 4 by simp
qed


subsection \<open>Opening a file: the stages of \<^verbatim>\<open>gsd_read_header\<close>\<close>

lemma sint_neg_iff: "(sint (a :: 64 word) < 0) = (2 ^ 63 \<le> unat a)"
proof -
  have "(sint a < 0) = bit a 63"
    using bit_last_iff [of a] by simp
  also have "\<dots> = bit (unat a) 63"
    by (simp add: bit_unsigned_iff)
  also have "\<dots> = odd (unat a div 2 ^ 63)"
    by (simp add: bit_iff_odd)
  also have "\<dots> = (2 ^ 63 \<le> unat a)"
  proof -
    have "unat a < 2 ^ 64"
      using unsigned_less [of a, where 'a = nat] by simp
    then have "unat a div 2 ^ 63 < 2"
      by (simp add: less_mult_imp_div_less)
    then have "unat a div 2 ^ 63 = 0 \<or> unat a div 2 ^ 63 = 1"
      by linarith
    then show ?thesis
      by (auto simp: div_eq_0_iff)
  qed
  finally show ?thesis .
qed

lemma unat_of_nat64: "n < 2 ^ 64 \<Longrightarrow> unat (word_of_nat n :: 64 word) = n"
  by (simp add: unat_of_nat)

lemma unat_blk:
  assumes "unat a + 64 * unat b \<le> n" "n < 2 ^ 63"
  shows "unat (a + word_of_nat sizeof_gsd_index_entry * b :: 64 word) = unat a + 64 * unat b"
    and "unat (word_of_nat sizeof_gsd_index_entry * b :: 64 word) = 64 * unat b"
    and "unat (b * word_of_nat sizeof_gsd_index_entry :: 64 word) = 64 * unat b"
proof -
  have m: "unat (64 * b :: 64 word) = 64 * unat b"
    using assms by (simp add: unat_word_ariths)
  then show 2: "unat (word_of_nat sizeof_gsd_index_entry * b :: 64 word) = 64 * unat b"
    by (simp add: sizeof_gsd_index_entry_def)
  then show "unat (b * word_of_nat sizeof_gsd_index_entry :: 64 word) = 64 * unat b"
    by (simp add: mult.commute)
  show "unat (a + word_of_nat sizeof_gsd_index_entry * b :: 64 word) = unat a + 64 * unat b"
    using assms m by (simp add: sizeof_gsd_index_entry_def unat_word_ariths)
qed

lemma namelist_first_empty_cong:
  assumes "\<And>j. j < n \<Longrightarrow> mem_of (nl j) 0 = mem_of (nl' j) 0"
  shows "namelist_first_empty nl i n = namelist_first_empty nl' i n"
  using assms
proof (induction nl i n rule: namelist_first_empty.induct)
  case (1 nl i n)
  show ?case
    using 1 by (subst (1 2) namelist_first_empty.simps) simp
qed

lemma namelist_first_empty_le: "i \<le> n \<Longrightarrow> namelist_first_empty nl i n \<le> n"
proof (induction nl i n rule: namelist_first_empty.induct)
  case (1 nl i n)
  show ?case
    using 1 by (subst namelist_first_empty.simps) simp
qed

lemma index_stage:
  assumes "unat (index_location (header handle))
             + 64 * unat (index_allocated_entries (header handle)) \<le> fsize fd"
    and "fsize fd < 2 ^ 63"
    and "file_size handle = lseek_end fd"
    and "index_allocated_entries (header handle) \<noteq> 0"
  shows "read_header_index handle fd =
     (GSD_SUCCESS,
      handle\<lparr>mapped_data := (open_flags handle \<noteq> GSD_OPEN_READWRITE),
             index := (if open_flags handle = GSD_OPEN_READWRITE
                       then (\<lambda>i. if i < unat (index_allocated_entries (header handle))
                                  then dec_entry (fbytes fd)
                                         (unat (index_location (header handle))
                                            + sizeof_gsd_index_entry * i)
                                  else zero_entry)
                       else index handle)\<rparr>)"
proof (cases "open_flags handle = GSD_OPEN_READWRITE")
  case False
  then show ?thesis
    by (cases "open_flags handle") (simp_all add: read_header_index_def)
next
  case True
  let ?loc = "index_location (header handle)"
  let ?A = "index_allocated_entries (header handle)"
  let ?n = "word_of_nat sizeof_gsd_index_entry * ?A"
  have u: "unat (?loc + ?n) = unat ?loc + 64 * unat ?A" "unat ?n = 64 * unat ?A"
    using unat_blk [OF assms(1,2)] by simp_all
  have fs: "unat (lseek_end fd) = fsize fd"
    using assms(2) by (simp add: lseek_end_def unat_of_nat)
  have le: "\<not> ?loc + ?n > file_size handle"
    using assms(1) by (simp add: word_less_nat_alt u fs assms(3))
  have A0: "unat ?A \<noteq> 0"
    using assms(4) by (simp add: unat_eq_0)
  have sg: "0 \<le> sint ?loc"
    using assms(1,2) sint_neg_iff [of ?loc] by simp
  define buf where "buf = snd (gsd_pread_retry fd (unat ?n) ?loc)"
  have p: "gsd_pread_retry fd (unat ?n) ?loc = (int (unat ?n), buf)"
    using pread_fst [of "unat ?n" ?loc fd] assms(1) A0 sg
    by (simp add: buf_def prod_eq_iff u)
  have b: "i < 64 * unat ?A \<Longrightarrow> buf i = fbytes fd (unat ?loc + i)" for i
    using assms(1) A0 sg by (simp add: buf_def pread_snd u)
  have d: "i < unat ?A \<Longrightarrow>
      dec_entry buf (sizeof_gsd_index_entry * i)
      = dec_entry (fbytes fd) (unat ?loc + sizeof_gsd_index_entry * i)" for i
    by (rule dec_entry_cong) (simp add: b sizeof_gsd_index_entry_def add.assoc)
  have e: "(\<lambda>i. if i < unat ?A then dec_entry buf (sizeof_gsd_index_entry * i) else zero_entry)
         = (\<lambda>i. if i < unat ?A
                 then dec_entry (fbytes fd) (unat ?loc + sizeof_gsd_index_entry * i)
                 else zero_entry)"
    by (auto simp: fun_eq_iff d)
  have nn: "uint ?n \<noteq> - 1"
    using uint_ge_0 [of ?n] by linarith
  show ?thesis
    using le nn by (simp add: read_header_index_def True Let_def p e)
qed

lemma rd_bytes_cong:
  assumes "\<And>i. i < n \<Longrightarrow> m (a + i) = m' (b + i)"
  shows "rd_bytes m a n = rd_bytes m' b n"
  using assms by (auto simp: rd_bytes_def list_eq_iff_nth_eq)

lemma length_rd_bytes [simp]: "length (rd_bytes m a n) = n"
  by (simp add: rd_bytes_def)

lemma mem_of_rd_bytes: "i < n \<Longrightarrow> mem_of (rd_bytes m a n) i = m (a + i)"
  by (simp add: mem_of_def rd_bytes_def)

lemma namelist_stage:
  assumes "unat (namelist_location (header handle))
             + 64 * unat (namelist_allocated_entries (header handle)) \<le> fsize fd"
    and "fsize fd < 2 ^ 63"
    and "file_size handle = lseek_end fd"
    and "header handle = dec_header (fbytes fd)"
  shows "read_header_namelist handle fd =
     (GSD_SUCCESS,
      handle\<lparr>namelist := namelist_buf fd,
             namelist_num_entries := file_num_names fd,
             namelist_written_entries := file_num_names fd,
             names_allocated_size :=
               (if file_num_names fd = 0 then GSD_INITIAL_NAMELIST_SIZE
                else file_num_names fd),
             names := qsort (map (\<lambda>i. (c_str (file_name fd i), word_of_nat i))
                              [0..<file_num_names fd])\<rparr>)"
proof -
  let ?loc = "namelist_location (header handle)"
  let ?A = "namelist_allocated_entries (header handle)"
  let ?n = "word_of_nat sizeof_gsd_namelist_entry * ?A"
  have u: "unat (?loc + ?n) = unat ?loc + 64 * unat ?A" "unat ?n = 64 * unat ?A"
    using unat_blk [OF assms(1,2)]
    by (simp_all add: sizeof_gsd_namelist_entry_def sizeof_gsd_index_entry_def)
  have fs: "unat (lseek_end fd) = fsize fd"
    using assms(2) by (simp add: lseek_end_def unat_of_nat)
  have le: "\<not> ?loc + ?n > file_size handle"
    using assms(1) by (simp add: word_less_nat_alt u fs assms(3))
  have sg: "0 \<le> sint ?loc"
    using assms(1,2) sint_neg_iff [of ?loc] by simp
  define buf where "buf = snd (gsd_pread_retry fd (unat ?n) ?loc)"
  have p: "gsd_pread_retry fd (unat ?n) ?loc = (int (unat ?n), buf)"
  proof (cases "unat ?A = 0")
    case True
    then show ?thesis by (simp add: buf_def u gsd_pread_retry_def)
  next
    case False
    then show ?thesis
      using pread_fst [of "unat ?n" ?loc fd] assms(1) sg
      by (simp add: buf_def prod_eq_iff u)
  qed
  have b: "i < 64 * unat ?A \<Longrightarrow> buf i = fbytes fd (unat ?loc + i)" for i
    using assms(1) sg by (auto simp add: buf_def pread_snd u)
  have nlb: "(\<lambda>i. rd_bytes buf (sizeof_gsd_namelist_entry * i) sizeof_gsd_namelist_entry)
             = namelist_buf fd"
    by (simp add: fun_eq_iff namelist_buf_def buf_def assms(4))
  have nm: "i < unat ?A \<Longrightarrow> namelist_buf fd i = file_name fd i" for i
    unfolding nlb [symmetric] file_name_def assms(4) [symmetric]
    by (rule rd_bytes_cong) (simp add: b sizeof_gsd_namelist_entry_def add.assoc)
  have cnt: "namelist_first_empty (namelist_buf fd) 0 (unat ?A) = file_num_names fd"
    unfolding file_num_names_def assms(4) [symmetric]
    by (rule namelist_first_empty_cong) (simp add: nm)
  have kle: "file_num_names fd \<le> unat ?A"
    unfolding file_num_names_def assms(4) [symmetric]
    by (rule namelist_first_empty_le) simp
  have mp: "map (\<lambda>i. (c_str (rd_bytes buf (sizeof_gsd_namelist_entry * i)
                                  sizeof_gsd_namelist_entry), word_of_nat i :: 16 word))
              [0..<file_num_names fd]
            = map (\<lambda>i. (c_str (file_name fd i), word_of_nat i)) [0..<file_num_names fd]"
    using kle nm by (simp add: fun_cong [OF nlb])
  have nn: "uint ?n \<noteq> - 1"
    using uint_ge_0 [of ?n] by linarith
  show ?thesis
    using le nn
    apply (simp add: read_header_namelist_def Let_def p nlb cnt mp gsd_sort_name_id_pairs_def)
    done
qed

lemma index_bisect_spec:
  assumes "\<And>i. i < n \<Longrightarrow> e_location (index_at handle fd i) \<noteq> 0"
    and "\<And>i. n \<le> i \<Longrightarrow> i < A \<Longrightarrow> e_location (index_at handle fd i) = 0"
    and "L < n" "n \<le> R" "R \<le> A"
  shows "index_bisect handle fd L R = (GSD_SUCCESS, n)
         \<or> (fst (index_bisect handle fd L R) = GSD_ERROR_FILE_CORRUPT
            \<and> (\<exists>m l. l \<le> m \<and> m < n
                  \<and> (\<not> gsd_is_entry_valid handle fd m
                      \<or> e_frame (index_at handle fd m) < e_frame (index_at handle fd l))))"
  using assms
proof (induction handle fd L R rule: index_bisect.induct)
  case (1 handle fd L R)
  note nz = "1.prems"(1) and z = "1.prems"(2)
  note bnd = "1.prems"(3,4,5)
  let ?m = "(L + R) div 2"
  have mL: "L \<le> ?m" and mR: "?m < R"
    using bnd by auto
  show ?case
  proof (cases "e_location (index_at handle fd ?m) = 0")
    case True
    then have mn: "n \<le> ?m"
      using nz [of ?m] by (cases "?m < n") auto
    show ?thesis
    proof (cases "?m - L > 1")
      case gt: True
      have "index_bisect handle fd L R = index_bisect handle fd L ?m"
        using True gt by (subst index_bisect.simps) (simp add: Let_def)
      moreover have "?m \<le> A" using mR bnd by simp
      ultimately show ?thesis
        using "1.IH"(2) [OF refl _ _ gt nz z bnd(1) mn] True by simp
    next
      case le: False
      have "index_bisect handle fd L R = (GSD_SUCCESS, ?m)"
        using True le by (subst index_bisect.simps) (simp add: Let_def)
      moreover have "?m = n"
        using le mn bnd by linarith
      ultimately show ?thesis by simp
    qed
  next
    case False
    then have mn: "?m < n"
      using z [of ?m] mR bnd by (cases "?m < n") auto
    show ?thesis
    proof (cases "\<not> gsd_is_entry_valid handle fd ?m
                  \<or> e_frame (index_at handle fd ?m) < e_frame (index_at handle fd L)")
      case bad: True
      have "fst (index_bisect handle fd L R) = GSD_ERROR_FILE_CORRUPT"
        using False bad by (subst index_bisect.simps) (auto simp add: Let_def)
      then show ?thesis
        using bad mn mL by blast
    next
      case good: False
      show ?thesis
      proof (cases "R - ?m > 1")
        case gt: True
        have "index_bisect handle fd L R = index_bisect handle fd ?m R"
          using False good gt by (subst index_bisect.simps) (auto simp add: Let_def)
        then show ?thesis
          using "1.IH"(1) [OF refl _ _ gt nz z mn bnd(2,3)] False good by auto
      next
        case le: False
        have "index_bisect handle fd L R = (GSD_SUCCESS, R)"
          using False good le by (subst index_bisect.simps) (auto simp add: Let_def)
        moreover have "R = n"
          using le mn bnd by linarith
        ultimately show ?thesis by simp
      qed
    qed
  qed
qed

lemma counting_index_at:
  assumes "i < unat (index_allocated_entries (dec_header (fbytes fd)))"
  shows "index_at (counting_handle fd flags) fd i = file_entry fd i"
  using assms
  by (cases flags) (simp_all add: index_at_def counting_handle_def opened_handle_def file_entry_def)

lemma counting_valid:
  assumes "i < unat (index_allocated_entries (dec_header (fbytes fd)))"
  shows "gsd_is_entry_valid (counting_handle fd flags) fd i = file_entry_valid fd i"
  unfolding gsd_is_entry_valid_def counting_index_at [OF assms] file_entry_valid_def
  by (auto simp: Let_def counting_handle_def opened_handle_def not_less)

lemma stages_to_counting:
  assumes "file_blocks_ok fd"
  shows "gsd_read_header (zero_handle flags) (Some fd)
         = read_header_count (counting_handle fd flags) fd"
proof -
  let ?hdr = "dec_header (fbytes fd)"
  define h1 where "h1 = (zero_handle flags)\<lparr>header := ?hdr, file_size := lseek_end fd\<rparr>"
  define h2 where "h2 =
      h1\<lparr>mapped_data := (open_flags h1 \<noteq> GSD_OPEN_READWRITE),
         index := (if open_flags h1 = GSD_OPEN_READWRITE
                   then (\<lambda>i. if i < unat (index_allocated_entries (header h1))
                              then dec_entry (fbytes fd)
                                     (unat (index_location (header h1))
                                        + sizeof_gsd_index_entry * i)
                              else zero_entry)
                   else index h1)\<rparr>"
  define h3 where "h3 =
      h2\<lparr>namelist := namelist_buf fd,
         namelist_num_entries := file_num_names fd,
         namelist_written_entries := file_num_names fd,
         names_allocated_size :=
           (if file_num_names fd = 0 then GSD_INITIAL_NAMELIST_SIZE
            else file_num_names fd),
         names := qsort (map (\<lambda>i. (c_str (file_name fd i), word_of_nat i))
                          [0..<file_num_names fd])\<rparr>"
  have b: "256 \<le> fsize fd" "fsize fd < 2 ^ 63" "magic ?hdr = GSD_MAGIC_ID"
    "index_allocated_entries ?hdr \<noteq> 0"
    "unat (index_location ?hdr) + 64 * unat (index_allocated_entries ?hdr) \<le> fsize fd"
    "unat (namelist_location ?hdr) + 64 * unat (namelist_allocated_entries ?hdr) \<le> fsize fd"
    using assms by (simp_all add: file_blocks_ok_def Let_def)
  have v: "\<not> (gsd_version ?hdr < gsd_make_version 1 0 \<and> gsd_version ?hdr \<noteq> gsd_make_version 0 3)"
    "\<not> gsd_make_version 2 0 \<le> gsd_version ?hdr"
    using assms by (auto simp add: file_blocks_ok_def Let_def make_version_values)
  have f1: "header h1 = ?hdr" "file_size h1 = lseek_end fd"
    by (simp_all add: h1_def)
  have s1: "read_header_index h1 fd = (GSD_SUCCESS, h2)"
    unfolding h2_def by (rule index_stage) (use b in \<open>simp_all add: f1\<close>)
  have f2: "header h2 = ?hdr" "file_size h2 = lseek_end fd"
    by (simp_all add: h2_def f1)
  have s2: "read_header_namelist h2 fd = (GSD_SUCCESS, h3)"
    unfolding h3_def by (rule namelist_stage) (use b in \<open>simp_all add: f2\<close>)
  have eq: "h3 = counting_handle fd flags"
    by (rule gsd_handle.equality)
       (simp_all add: h3_def h2_def f1 counting_handle_def opened_handle_def
          file_entry_def fun_eq_iff, simp_all add: h1_def zero_handle_def)
  have "gsd_read_header (zero_handle flags) (Some fd) = read_header_count h3 fd"
    using v b(3)
    by (auto simp add: read_header_unfold [OF b(1)] Let_def h1_def [symmetric] s1 s2)
  then show ?thesis
    by (simp add: eq)
qed

lemma count_stage:
  assumes "file_blocks_ok fd" "file_dense_prefix fd n"
  shows "read_header_count (counting_handle fd flags) fd = (GSD_SUCCESS, opened_handle fd flags n)
         \<or> (fst (read_header_count (counting_handle fd flags) fd) = GSD_ERROR_FILE_CORRUPT
            \<and> (\<exists>m<n. \<not> file_entry_valid fd m
                       \<or> (\<exists>l\<le>m. e_frame (file_entry fd m) < e_frame (file_entry fd l))))"
proof -
  let ?hdr = "dec_header (fbytes fd)"
  let ?A = "unat (index_allocated_entries ?hdr)"
  let ?h = "counting_handle fd flags"
  have b: "index_allocated_entries ?hdr \<noteq> 0"
    "unat (index_location ?hdr) + 64 * ?A \<le> fsize fd"
    using assms(1) by (simp_all add: file_blocks_ok_def Let_def)
  have A0: "0 < ?A"
    using b(1) by (simp add: unat_gt_0)
  have d: "n \<le> ?A" "\<And>i. i < n \<Longrightarrow> e_location (file_entry fd i) \<noteq> 0"
    "\<And>i. n \<le> i \<Longrightarrow> i < ?A \<Longrightarrow> e_location (file_entry fd i) = 0"
    using assms(2) by (simp_all add: file_dense_prefix_def)
  have hf: "header ?h = ?hdr" "mapped_data ?h = (flags \<noteq> GSD_OPEN_READWRITE)"
    "open_flags ?h = flags"
    by (simp_all add: counting_handle_def opened_handle_def)
  have guard: "\<not> (index_allocated_entries (header ?h) = 0
         \<or> (mapped_data ?h
             \<and> unat (index_location (header ?h))
                 + sizeof_gsd_index_entry * unat (index_allocated_entries (header ?h))
               > fsize fd))"
    using b by (simp add: hf sizeof_gsd_index_entry_def)
  have e0: "index_at ?h fd 0 = file_entry fd 0"
    by (rule counting_index_at) (rule A0)
  have v0: "gsd_is_entry_valid ?h fd 0 = file_entry_valid fd 0"
    by (rule counting_valid) (rule A0)
  have fin: "(let handle1 = ?h\<lparr>index_num_entries := n\<rparr>;
                  handle2 = handle1\<lparr>cur_frame :=
                              (if n = 0 then 0
                               else e_frame (index_at handle1 fd (n - 1)) + 1)\<rparr>;
                  handle3 = handle2\<lparr>index_written_entries := n\<rparr>
              in if open_flags handle3 = GSD_OPEN_APPEND
                 then (GSD_SUCCESS,
                       handle3\<lparr>append_index_size := 1, index := (\<lambda>i. zero_entry),
                               mapped_data := False\<rparr>)
                 else (GSD_SUCCESS, handle3))
             = (GSD_SUCCESS, opened_handle fd flags n)"
  proof -
    have ia: "index_at ((counting_handle fd fl)\<lparr>index_num_entries := n\<rparr>) fd (n - Suc 0)
              = file_entry fd (n - Suc 0)" if "0 < n" for fl
    proof -
      have "n - 1 < ?A" using that d(1) by simp
      then have "index_at (counting_handle fd fl) fd (n - 1) = file_entry fd (n - 1)"
        by (rule counting_index_at)
      then show ?thesis
        by (auto simp add: index_at_def split: if_splits)
    qed
    let ?L = "(let handle1 = ?h\<lparr>index_num_entries := n\<rparr>;
                  handle2 = handle1\<lparr>cur_frame :=
                              (if n = 0 then 0
                               else e_frame (index_at handle1 fd (n - 1)) + 1)\<rparr>;
                  handle3 = handle2\<lparr>index_written_entries := n\<rparr>
              in if open_flags handle3 = GSD_OPEN_APPEND
                 then (GSD_SUCCESS,
                       handle3\<lparr>append_index_size := 1, index := (\<lambda>i. zero_entry),
                               mapped_data := False\<rparr>)
                 else (GSD_SUCCESS, handle3))"
    have 1: "fst ?L = GSD_SUCCESS"
      by (simp add: Let_def)
    have 2: "snd ?L = opened_handle fd flags n"
      by (rule gsd_handle.equality;
          (cases flags; cases "n = 0"; (simp add: Let_def hf ia)?;
           (simp add: counting_handle_def opened_handle_def)?))
    show ?thesis
      using 1 2 by (simp add: prod_eq_iff)
  qed
  show ?thesis
  proof (cases "n = 0")
    case True
    then have "e_location (index_at ?h fd 0) = 0"
      using d(3) [of 0] A0 by (simp add: e0)
    then have "read_header_count ?h fd = (GSD_SUCCESS, opened_handle fd flags n)"
      using guard fin True by (simp add: read_header_count_def)
    then show ?thesis by simp
  next
    case False
    then have l0: "e_location (index_at ?h fd 0) \<noteq> 0"
      using d(2) [of 0] by (simp add: e0)
    show ?thesis
    proof (cases "file_entry_valid fd 0")
      case inv: False
      then have "fst (read_header_count ?h fd) = GSD_ERROR_FILE_CORRUPT"
        using guard l0 by (simp add: read_header_count_def v0)
      then show ?thesis
        using inv False by blast
    next
      case ok: True
      have un: "read_header_count ?h fd =
          (case index_bisect ?h fd 0 ?A of
             (rc, k) \<Rightarrow>
               if rc \<noteq> GSD_SUCCESS then (rc, ?h)
               else (let handle1 = ?h\<lparr>index_num_entries := k\<rparr>;
                         handle2 = handle1\<lparr>cur_frame :=
                                     (if k = 0 then 0
                                      else e_frame (index_at handle1 fd (k - 1)) + 1)\<rparr>;
                         handle3 = handle2\<lparr>index_written_entries := k\<rparr>
                     in if open_flags handle3 = GSD_OPEN_APPEND
                        then (GSD_SUCCESS,
                              handle3\<lparr>append_index_size := 1, index := (\<lambda>i. zero_entry),
                                      mapped_data := False\<rparr>)
                        else (GSD_SUCCESS, handle3)))"
        using guard l0 ok by (auto simp add: read_header_count_def v0 hf(1))
      have sp: "index_bisect ?h fd 0 ?A = (GSD_SUCCESS, n)
         \<or> (fst (index_bisect ?h fd 0 ?A) = GSD_ERROR_FILE_CORRUPT
            \<and> (\<exists>m l. l \<le> m \<and> m < n
                  \<and> (\<not> gsd_is_entry_valid ?h fd m
                      \<or> e_frame (index_at ?h fd m) < e_frame (index_at ?h fd l))))"
        using False d
        by (intro index_bisect_spec [where A = ?A]) (simp_all add: counting_index_at)
      then show ?thesis
      proof
        assume s: "index_bisect ?h fd 0 ?A = (GSD_SUCCESS, n)"
        show ?thesis
          using fin by (simp add: un s)
      next
        assume c: "fst (index_bisect ?h fd 0 ?A) = GSD_ERROR_FILE_CORRUPT
            \<and> (\<exists>m l. l \<le> m \<and> m < n
                  \<and> (\<not> gsd_is_entry_valid ?h fd m
                      \<or> e_frame (index_at ?h fd m) < e_frame (index_at ?h fd l)))"
        then obtain m l where ml: "l \<le> m" "m < n"
          "\<not> gsd_is_entry_valid ?h fd m
           \<or> e_frame (index_at ?h fd m) < e_frame (index_at ?h fd l)"
          by blast
        have mA: "m < ?A" "l < ?A"
          using ml d(1) by simp_all
        have viol: "\<not> file_entry_valid fd m
                    \<or> e_frame (file_entry fd m) < e_frame (file_entry fd l)"
          using ml(3) by (simp add: counting_valid [OF mA(1)] counting_index_at [OF mA(1)]
              counting_index_at [OF mA(2)])
        obtain k where bk: "index_bisect ?h fd 0 ?A = (GSD_ERROR_FILE_CORRUPT, k)"
          using c by (cases "index_bisect ?h fd 0 ?A") auto
        have "fst (read_header_count ?h fd) = GSD_ERROR_FILE_CORRUPT"
          by (simp add: un bk)
        then show ?thesis
          using viol ml(1,2) by blast
      qed
    qed
  qed
qed

lemma bisect_probes_range:
  assumes "(l, m) \<in> set (bisect_probes n L R)" "L \<le> R"
  shows "L \<le> l \<and> l \<le> m \<and> m < n"
  using assms
proof (induction n L R rule: bisect_probes.induct)
  case (1 n L R)
  let ?m = "(L + R) div 2"
  have mL: "L \<le> ?m" "?m \<le> R" using "1.prems"(2) by auto
  show ?case
  proof (cases "?m < n")
    case True
    show ?thesis
    proof (cases "R - ?m > 1")
      case gt: True
      have "(l, m) = (L, ?m) \<or> (l, m) \<in> set (bisect_probes n ?m R)"
        using "1.prems"(1) True gt by (subst (asm) bisect_probes.simps) (simp add: Let_def)
      then show ?thesis
        using "1.IH"(1) [OF refl True gt] mL True gt by auto
    next
      case False
      have "(l, m) = (L, ?m)"
        using "1.prems"(1) True False by (subst (asm) bisect_probes.simps) (simp add: Let_def)
      then show ?thesis using mL True by auto
    qed
  next
    case False
    show ?thesis
    proof (cases "?m - L > 1")
      case gt: True
      have "(l, m) \<in> set (bisect_probes n L ?m)"
        using "1.prems"(1) False gt by (subst (asm) bisect_probes.simps) (simp add: Let_def)
      then show ?thesis
        using "1.IH"(2) [OF refl False gt] mL by auto
    next
      case le: False
      have "False"
        using "1.prems"(1) False le by (subst (asm) bisect_probes.simps) (simp add: Let_def)
      then show ?thesis ..
    qed
  qed
qed

lemma index_bisect_exact:
  assumes "\<And>i. i < n \<Longrightarrow> e_location (index_at handle fd i) \<noteq> 0"
    and "\<And>i. n \<le> i \<Longrightarrow> i < A \<Longrightarrow> e_location (index_at handle fd i) = 0"
    and "L < n" "n \<le> R" "R \<le> A"
  shows "fst (index_bisect handle fd L R)
         = (if list_all (\<lambda>(l, m). gsd_is_entry_valid handle fd m
                                   \<and> e_frame (index_at handle fd l)
                                      \<le> e_frame (index_at handle fd m))
                 (bisect_probes n L R)
            then GSD_SUCCESS else GSD_ERROR_FILE_CORRUPT)"
  using assms
proof (induction handle fd L R rule: index_bisect.induct)
  case (1 handle fd L R)
  note nz = "1.prems"(1) and z = "1.prems"(2)
  note bnd = "1.prems"(3,4,5)
  let ?m = "(L + R) div 2"
  let ?P = "\<lambda>(l, m). gsd_is_entry_valid handle fd m
                    \<and> e_frame (index_at handle fd l) \<le> e_frame (index_at handle fd m)"
  have mL: "L \<le> ?m" and mR: "?m < R"
    using bnd by auto
  show ?case
  proof (cases "e_location (index_at handle fd ?m) = 0")
    case True
    then have mn: "n \<le> ?m"
      using nz [of ?m] by (cases "?m < n") auto
    show ?thesis
    proof (cases "?m - L > 1")
      case gt: True
      have "index_bisect handle fd L R = index_bisect handle fd L ?m"
        using True gt by (subst index_bisect.simps) (simp add: Let_def)
      moreover have "bisect_probes n L R = bisect_probes n L ?m"
        using mn gt by (subst bisect_probes.simps) (simp add: Let_def)
      moreover have "?m \<le> A" using mR bnd by simp
      ultimately show ?thesis
        using "1.IH"(2) [OF refl _ _ gt nz z bnd(1) mn] True by simp
    next
      case le: False
      have "index_bisect handle fd L R = (GSD_SUCCESS, ?m)"
        using True le by (subst index_bisect.simps) (simp add: Let_def)
      moreover have "bisect_probes n L R = []"
        using mn le by (subst bisect_probes.simps) (simp add: Let_def)
      ultimately show ?thesis by simp
    qed
  next
    case False
    then have mn: "?m < n"
      using z [of ?m] mR bnd by (cases "?m < n") auto
    show ?thesis
    proof (cases "\<not> gsd_is_entry_valid handle fd ?m
                  \<or> e_frame (index_at handle fd ?m) < e_frame (index_at handle fd L)")
      case bad: True
      have "fst (index_bisect handle fd L R) = GSD_ERROR_FILE_CORRUPT"
        using False bad by (subst index_bisect.simps) (auto simp add: Let_def)
      moreover have "\<not> list_all ?P (bisect_probes n L R)"
        using mn bad by (subst bisect_probes.simps) (auto simp add: Let_def)
      ultimately show ?thesis by simp
    next
      case good: False
      show ?thesis
      proof (cases "R - ?m > 1")
        case gt: True
        have "index_bisect handle fd L R = index_bisect handle fd ?m R"
          using False good gt by (subst index_bisect.simps) (auto simp add: Let_def)
        moreover have "list_all ?P (bisect_probes n L R) = list_all ?P (bisect_probes n ?m R)"
          using mn good gt by (subst bisect_probes.simps) (auto simp add: Let_def)
        ultimately show ?thesis
          using "1.IH"(1) [OF refl _ _ gt nz z mn bnd(2,3)] False good by auto
      next
        case le: False
        have "index_bisect handle fd L R = (GSD_SUCCESS, R)"
          using False good le by (subst index_bisect.simps) (auto simp add: Let_def)
        moreover have "list_all ?P (bisect_probes n L R)"
          using mn good le by (subst bisect_probes.simps) (auto simp add: Let_def)
        ultimately show ?thesis by simp
      qed
    qed
  qed
qed

lemma count_stage_exact:
  assumes "file_blocks_ok fd" "file_dense_prefix fd n"
  shows "(fst (read_header_count (counting_handle fd flags) fd) = GSD_SUCCESS)
         = file_probes_ok fd n"
proof -
  let ?hdr = "dec_header (fbytes fd)"
  let ?A = "unat (index_allocated_entries ?hdr)"
  let ?h = "counting_handle fd flags"
  have b: "index_allocated_entries ?hdr \<noteq> 0"
    "unat (index_location ?hdr) + 64 * ?A \<le> fsize fd"
    using assms(1) by (simp_all add: file_blocks_ok_def Let_def)
  have A0: "0 < ?A"
    using b(1) by (simp add: unat_gt_0)
  have d: "n \<le> ?A" "\<And>i. i < n \<Longrightarrow> e_location (file_entry fd i) \<noteq> 0"
    "\<And>i. n \<le> i \<Longrightarrow> i < ?A \<Longrightarrow> e_location (file_entry fd i) = 0"
    using assms(2) by (simp_all add: file_dense_prefix_def)
  have hf: "header ?h = ?hdr" "mapped_data ?h = (flags \<noteq> GSD_OPEN_READWRITE)"
    "open_flags ?h = flags"
    by (simp_all add: counting_handle_def opened_handle_def)
  have guard: "\<not> (index_allocated_entries (header ?h) = 0
         \<or> (mapped_data ?h
             \<and> unat (index_location (header ?h))
                 + sizeof_gsd_index_entry * unat (index_allocated_entries (header ?h))
               > fsize fd))"
    using b by (simp add: hf sizeof_gsd_index_entry_def)
  have e0: "index_at ?h fd 0 = file_entry fd 0"
    by (rule counting_index_at) (rule A0)
  have v0: "gsd_is_entry_valid ?h fd 0 = file_entry_valid fd 0"
    by (rule counting_valid) (rule A0)
  show ?thesis
  proof (cases "n = 0")
    case True
    then have "e_location (index_at ?h fd 0) = 0"
      using d(3) [of 0] A0 by (simp add: e0)
    then have "fst (read_header_count ?h fd) = GSD_SUCCESS"
      using guard by (simp add: read_header_count_def Let_def)
    then show ?thesis
      using True by (simp add: file_probes_ok_def)
  next
    case False
    then have l0: "e_location (index_at ?h fd 0) \<noteq> 0"
      using d(2) [of 0] by (simp add: e0)
    show ?thesis
    proof (cases "file_entry_valid fd 0")
      case inv: False
      then have "fst (read_header_count ?h fd) = GSD_ERROR_FILE_CORRUPT"
        using guard l0 by (simp add: read_header_count_def v0)
      then show ?thesis
        using inv False by (simp add: file_probes_ok_def)
    next
      case ok: True
      obtain rc k where bk: "index_bisect ?h fd 0 ?A = (rc, k)"
        by (cases "index_bisect ?h fd 0 ?A") auto
      have rcs: "(fst (read_header_count ?h fd) = GSD_SUCCESS) = (rc = GSD_SUCCESS)"
        using guard l0 ok by (auto simp add: read_header_count_def v0 hf(1) bk Let_def)
      let ?P = "\<lambda>(l, m). gsd_is_entry_valid ?h fd m
                    \<and> e_frame (index_at ?h fd l) \<le> e_frame (index_at ?h fd m)"
      let ?Q = "\<lambda>(l, m). file_entry_valid fd m
                    \<and> e_frame (file_entry fd l) \<le> e_frame (file_entry fd m)"
      have ex: "fst (index_bisect ?h fd 0 ?A)
                = (if list_all ?P (bisect_probes n 0 ?A)
                   then GSD_SUCCESS else GSD_ERROR_FILE_CORRUPT)"
        using False d
        by (intro index_bisect_exact [where A = ?A]) (simp_all add: counting_index_at)
      have pq: "?P p = ?Q p" if "p \<in> set (bisect_probes n 0 ?A)" for p
      proof -
        obtain l m where p: "p = (l, m)" by (cases p)
        have r: "l \<le> m" "m < n"
          using bisect_probes_range [of l m n 0 ?A] that p by simp_all
        then have mA: "m < ?A" "l < ?A" using d(1) by simp_all
        show ?thesis
          by (simp add: p counting_valid [OF mA(1)] counting_index_at [OF mA(1)]
              counting_index_at [OF mA(2)])
      qed
      have "list_all ?P (bisect_probes n 0 ?A) = list_all ?Q (bisect_probes n 0 ?A)"
        using pq by (simp add: list_all_iff)
      then have "(rc = GSD_SUCCESS) = list_all ?Q (bisect_probes n 0 ?A)"
        using ex by (simp add: bk)
      then show ?thesis
        using rcs ok False by (simp add: file_probes_ok_def)
    qed
  qed
qed

text \<open>
  Claim C4. Let the header of the file pass the checks and the index and namelist blocks
  lie inside the file, and let the index be \<open>n\<close> entries with a non-zero location
  followed by entries with location 0. \<^verbatim>\<open>gsd_open\<close> validates entry 0 and every entry
  that its bisection probes in the prefix, together with the frame order of each probe: it
  succeeds when all of them pass and returns \<^verbatim>\<open>GSD_ERROR_FILE_CORRUPT\<close> when one of them
  fails. They all pass when the first \<open>n\<close> entries are valid and their frames do not
  decrease. Whenever \<^verbatim>\<open>gsd_open\<close> succeeds, \<open>index_num_entries\<close> is \<open>n\<close> and \<open>cur_frame\<close>
  is the frame of entry \<open>n - 1\<close> plus one, or 0 when \<open>n = 0\<close>. Whenever it fails, some
  entry of the prefix is invalid or has a smaller frame than an entry before it.
\<close>

theorem open_counts_entries:
  assumes "file_blocks_ok fd" "file_dense_prefix fd n"
  shows "(file_probes_ok fd n \<longrightarrow> fst (gsd_open (Some fd) flags) = GSD_SUCCESS)
         \<and> (\<not> file_probes_ok fd n
            \<longrightarrow> fst (gsd_open (Some fd) flags) = GSD_ERROR_FILE_CORRUPT)
         \<and> ((\<forall>i<n. file_entry_valid fd i) \<and> file_frames_sorted fd n
            \<longrightarrow> file_probes_ok fd n)
         \<and> (fst (gsd_open (Some fd) flags) = GSD_SUCCESS
            \<longrightarrow> index_num_entries (snd (gsd_open (Some fd) flags)) = n
                \<and> cur_frame (snd (gsd_open (Some fd) flags))
                    = (if n = 0 then 0 else e_frame (file_entry fd (n - 1)) + 1))
         \<and> (fst (gsd_open (Some fd) flags) \<noteq> GSD_SUCCESS
            \<longrightarrow> (\<exists>m<n. \<not> file_entry_valid fd m
                          \<or> (\<exists>l\<le>m. e_frame (file_entry fd m) < e_frame (file_entry fd l))))"
proof -
  have o: "gsd_open (Some fd) flags = read_header_count (counting_handle fd flags) fd"
    by (simp add: gsd_open_def stages_to_counting [OF assms(1)])
  have x: "(fst (gsd_open (Some fd) flags) = GSD_SUCCESS) = file_probes_ok fd n"
    unfolding o by (rule count_stage_exact [OF assms])
  have c: "gsd_open (Some fd) flags = (GSD_SUCCESS, opened_handle fd flags n)
         \<or> (fst (gsd_open (Some fd) flags) = GSD_ERROR_FILE_CORRUPT
            \<and> (\<exists>m<n. \<not> file_entry_valid fd m
                       \<or> (\<exists>l\<le>m. e_frame (file_entry fd m) < e_frame (file_entry fd l))))"
    unfolding o by (rule count_stage [OF assms])
  have f: "index_num_entries (opened_handle fd flags n) = n"
    "cur_frame (opened_handle fd flags n)
       = (if n = 0 then 0 else e_frame (file_entry fd (n - 1)) + 1)"
    by (simp_all add: opened_handle_def)
  have s: "\<not> (\<exists>m<n. \<not> file_entry_valid fd m
                 \<or> (\<exists>l\<le>m. e_frame (file_entry fd m) < e_frame (file_entry fd l)))"
    if "\<forall>i<n. file_entry_valid fd i" "file_frames_sorted fd n"
    using that by (auto simp: file_frames_sorted_def not_less)
  have 1: "file_probes_ok fd n \<longrightarrow> fst (gsd_open (Some fd) flags) = GSD_SUCCESS"
    using x by simp
  have 2: "\<not> file_probes_ok fd n
            \<longrightarrow> fst (gsd_open (Some fd) flags) = GSD_ERROR_FILE_CORRUPT"
    using x c by auto
  have 3: "(\<forall>i<n. file_entry_valid fd i) \<and> file_frames_sorted fd n
            \<longrightarrow> file_probes_ok fd n"
    using s c x by auto
  have 4: "fst (gsd_open (Some fd) flags) = GSD_SUCCESS
            \<longrightarrow> index_num_entries (snd (gsd_open (Some fd) flags)) = n
                \<and> cur_frame (snd (gsd_open (Some fd) flags))
                    = (if n = 0 then 0 else e_frame (file_entry fd (n - 1)) + 1)"
    using c f by (auto simp del: One_nat_def)
  have 5: "fst (gsd_open (Some fd) flags) \<noteq> GSD_SUCCESS
            \<longrightarrow> (\<exists>m<n. \<not> file_entry_valid fd m
                          \<or> (\<exists>l\<le>m. e_frame (file_entry fd m) < e_frame (file_entry fd l)))"
    using c by auto
  show ?thesis
    using 1 2 3 4 5 by blast
qed

lemma open_wellformed:
  assumes "file_blocks_ok fd" "file_dense_prefix fd n"
    and "\<forall>i<n. file_entry_valid fd i" "file_frames_sorted fd n"
  shows "gsd_open (Some fd) flags = (GSD_SUCCESS, opened_handle fd flags n)"
proof -
  have o: "gsd_open (Some fd) flags = read_header_count (counting_handle fd flags) fd"
    by (simp add: gsd_open_def stages_to_counting [OF assms(1)])
  have "\<not> (\<exists>m<n. \<not> file_entry_valid fd m
                 \<or> (\<exists>l\<le>m. e_frame (file_entry fd m) < e_frame (file_entry fd l)))"
    using assms(3,4) by (auto simp: file_frames_sorted_def not_less)
  then show ?thesis
    using count_stage [OF assms(1,2), of flags] by (auto simp: o)
qed

subsection \<open>Reading back what was written\<close>

lemma dec_header_pwrite:
  "256 \<le> off \<Longrightarrow> 256 \<le> fsize fd \<Longrightarrow>
   dec_header (fbytes (pwrite fd buf cnt off)) = dec_header (fbytes fd)"
  by (rule dec_header_cong) (simp add: fbytes_pwrite)

lemma dec_entry_pwrite_out:
  "a + 64 \<le> off \<or> off + cnt \<le> a \<Longrightarrow> a + 64 \<le> fsize fd \<Longrightarrow>
   dec_entry (fbytes (pwrite fd buf cnt off)) a = dec_entry (fbytes fd) a"
  by (rule dec_entry_cong) (auto simp add: fbytes_pwrite)

lemma index_mem_at:
  "j < 64 \<Longrightarrow> index_mem idx base (64 * k + j) = enc_entry (idx (base + k)) ! j"
  by (simp add: index_mem_def sizeof_gsd_index_entry_def)

lemma dec_entry_pwrite_index:
  assumes "a = off + 64 * k" "64 * k + 64 \<le> cnt"
  shows "dec_entry (fbytes (pwrite fd (index_mem idx base) cnt off)) a = idx (base + k)"
proof (rule dec_entry_enc)
  fix i :: nat assume "i < 64"
  then show "fbytes (pwrite fd (index_mem idx base) cnt off) (a + i)
             = enc_entry (idx (base + k)) ! i"
    using assms by (simp add: fbytes_pwrite index_mem_at)
qed

lemma rd_bytes_pwrite_out:
  "a + n \<le> off \<or> off + cnt \<le> a \<Longrightarrow> a + n \<le> fsize fd \<Longrightarrow>
   rd_bytes (fbytes (pwrite fd buf cnt off)) a n = rd_bytes (fbytes fd) a n"
  by (rule rd_bytes_cong) (auto simp add: fbytes_pwrite)

lemma namelist_mem_at:
  "j < 64 \<Longrightarrow> namelist_mem nl base (64 * k + j) = mem_of (nl (base + k)) j"
  by (simp add: namelist_mem_def sizeof_gsd_namelist_entry_def)

lemma rd_bytes_pwrite_namelist:
  assumes "a = off + 64 * k" "64 * k + 64 \<le> cnt" "length (nl (base + k)) = 64"
  shows "rd_bytes (fbytes (pwrite fd (namelist_mem nl base) cnt off)) a 64 = nl (base + k)"
proof (rule rd_bytes_eq)
  show "length (nl (base + k)) = 64" by (rule assms(3))
next
  fix i :: nat assume "i < 64"
  then show "fbytes (pwrite fd (namelist_mem nl base) cnt off) (a + i) = nl (base + k) ! i"
    using assms by (simp add: fbytes_pwrite namelist_mem_at mem_of_def)
qed

lemma dec_entry_fresh: "256 \<le> a \<Longrightarrow> dec_entry (fbytes (fresh_file app sch sv)) a = zero_entry"
  by (rule dec_entry_zero) simp

lemma rd_bytes_fresh:
  "256 \<le> a \<Longrightarrow> rd_bytes (fbytes (fresh_file app sch sv)) a n = replicate n 0"
  by (rule rd_bytes_eq) simp_all

subsection \<open>The example runs\<close>

lemma c_str_simps:
  "c_str [] = []"
  "c_str (x # xs) = (if x = 0 then [] else x # c_str xs)"
  by (simp_all add: c_str_def)

lemma dec_entry_pwrite_index':
  assumes "off \<le> a" "(a - off) mod 64 = 0" "(a - off) + 64 \<le> cnt"
  shows "dec_entry (fbytes (pwrite fd (index_mem idx base) cnt off)) a
         = idx (base + (a - off) div 64)"
proof -
  have "a = off + 64 * ((a - off) div 64)"
    using assms(1,2) by (metis add.commute add_0 le_add_diff_inverse mult_div_mod_eq)
  moreover have "64 * ((a - off) div 64) + 64 \<le> cnt"
    using assms(2,3) by (metis add.commute add_0 mult_div_mod_eq)
  ultimately show ?thesis
    by (rule dec_entry_pwrite_index)
qed

lemma rd_bytes_pwrite_namelist':
  assumes "off \<le> a" "(a - off) mod 64 = 0" "(a - off) + 64 \<le> cnt"
    and "length (nl (base + (a - off) div 64)) = 64"
  shows "rd_bytes (fbytes (pwrite fd (namelist_mem nl base) cnt off)) a 64
         = nl (base + (a - off) div 64)"
proof -
  have "a = off + 64 * ((a - off) div 64)"
    using assms(1,2) by (metis add.commute add_0 le_add_diff_inverse mult_div_mod_eq)
  moreover have "64 * ((a - off) div 64) + 64 \<le> cnt"
    using assms(2,3) by (metis add.commute add_0 mult_div_mod_eq)
  ultimately show ?thesis
    using assms(4) by (rule rd_bytes_pwrite_namelist)
qed

lemmas write_eval = gsd_write_chunk_def write_chunk_id_def write_chunk_slot_def gsd_get_id_def
  gsd_find_name_def gsd_append_name_def gsd_sizeof_type_def GSD_TYPE_UINT8_def
  gsd_pwrite_retry_def Let_def UINT16_MAX_def sizeof_gsd_namelist_entry_def
  sizeof_gsd_index_entry_def str_def gsd_end_frame_def gsd_sort_name_id_pairs_def
  qsort_def gsd_cmp_name_id_pair_def strcmp_def strncmp_def strlen_def c_str_simps
  find_name_loop.simps fresh_handle_def zero_handle_def

lemma demo_rt_run: "fst demo_rt = GSD_SUCCESS \<and> snd (snd demo_rt) = demo_rt_file"
  apply (simp add: demo_rt_def demo_rt_file_def create_and_open_fresh write_eval)
  apply (simp only: numeral_2_eq_2)
  done

lemma demo_fsize: "fsize demo_rt_file = 4202692"
  by (simp add: demo_rt_file_def fsize_pwrite)

lemma demo_header: "dec_header (fbytes demo_rt_file) = fresh_header (str ''app'') (str ''s'') 0"
  by (simp add: demo_rt_file_def dec_header_pwrite fsize_pwrite)

lemma demo_entry_0:
  "file_entry demo_rt_file 0 = \<lparr>e_frame = 0, e_N = 1, e_location = 4202688, e_M = 1,
                                  e_id = 0, e_type = 1, e_flags = 0\<rparr>"
  by (simp add: file_entry_def demo_header sizeof_gsd_index_entry_def)
     (simp add: demo_rt_file_def dec_entry_pwrite_out dec_entry_pwrite_index' fsize_pwrite)

lemma demo_entry_1:
  "file_entry demo_rt_file 1 = \<lparr>e_frame = 1, e_N = 1, e_location = 4202689, e_M = 1,
                                  e_id = 0, e_type = 1, e_flags = 0\<rparr>"
  by (simp add: file_entry_def demo_header sizeof_gsd_index_entry_def)
     (simp add: demo_rt_file_def dec_entry_pwrite_out dec_entry_pwrite_index' fsize_pwrite)

lemma demo_entry_Suc0:
  "file_entry demo_rt_file (Suc 0) = \<lparr>e_frame = 1, e_N = 1, e_location = 4202689, e_M = 1,
                                  e_id = 0, e_type = 1, e_flags = 0\<rparr>"
  using demo_entry_1 by simp

lemma demo_entry_2:
  "file_entry demo_rt_file 2 = \<lparr>e_frame = 1, e_N = 2, e_location = 4202690, e_M = 1,
                                  e_id = 0, e_type = 1, e_flags = 0\<rparr>"
  by (simp add: file_entry_def demo_header sizeof_gsd_index_entry_def)
     (simp add: demo_rt_file_def dec_entry_pwrite_out dec_entry_pwrite_index' fsize_pwrite)

lemma demo_entry_rest:
  assumes "3 \<le> i" "i < 128"
  shows "file_entry demo_rt_file i = zero_entry"
proof -
  have "file_entry demo_rt_file i = dec_entry (fbytes demo_rt_file) (256 + 64 * i)"
    by (simp add: file_entry_def demo_header sizeof_gsd_index_entry_def)
  also have "\<dots> = zero_entry"
    using assms
    by (simp add: demo_rt_file_def dec_entry_pwrite_out fsize_pwrite dec_entry_fresh)
  finally show ?thesis .
qed

lemma demo_name_0: "file_name demo_rt_file 0 = strncpy (str ''abc'') 63 @ [0]"
  by (simp add: file_name_def demo_header sizeof_gsd_namelist_entry_def)
     (simp add: demo_rt_file_def rd_bytes_pwrite_out rd_bytes_pwrite_namelist' fsize_pwrite
        length_strncpy)

lemma demo_name_1: "file_name demo_rt_file 1 = replicate 64 0"
  by (simp add: file_name_def demo_header sizeof_gsd_namelist_entry_def)
     (simp add: demo_rt_file_def rd_bytes_pwrite_out fsize_pwrite rd_bytes_fresh)

lemma demo_num_names: "file_num_names demo_rt_file = 1"
proof -
  have 0: "mem_of (file_name demo_rt_file 0) 0 \<noteq> 0"
    by (simp add: demo_name_0 mem_of_def strncpy_def str_def c_str_simps strlen_def)
  have 1: "mem_of (file_name demo_rt_file 1) 0 = 0"
    by (simp only: demo_name_1) (simp add: mem_of_def)
  have "namelist_first_empty (file_name demo_rt_file) 0 65535
        = namelist_first_empty (file_name demo_rt_file) 1 65535"
    using 0 by (subst namelist_first_empty.simps) simp
  also have "\<dots> = 1"
    using 1 by (subst namelist_first_empty.simps) simp
  finally show ?thesis
    by (simp add: file_num_names_def demo_header)
qed

lemma demo_blocks_ok: "file_blocks_ok demo_rt_file"
  by (simp add: file_blocks_ok_def demo_header demo_fsize Let_def make_version_values)

lemma demo_dense: "file_dense_prefix demo_rt_file 3"
proof -
  have "e_location (file_entry demo_rt_file i) \<noteq> 0" if "i < 3" for i
  proof -
    from that have "i = 0 \<or> i = 1 \<or> i = 2" by arith
    then show ?thesis
      by (auto simp: demo_entry_0 demo_entry_Suc0 demo_entry_2)
  qed
  then show ?thesis
    by (simp add: file_dense_prefix_def demo_header demo_entry_rest zero_entry_def)
qed

lemma demo_valid: "i < 3 \<Longrightarrow> file_entry_valid demo_rt_file i"
proof -
  assume "i < 3"
  then have "i = 0 \<or> i = 1 \<or> i = 2" by arith
  moreover have "file_entry_valid demo_rt_file 0"
    by (simp add: file_entry_valid_def demo_entry_0 demo_header
          demo_num_names demo_fsize lseek_end_def entry_size_def gsd_sizeof_type_def
          GSD_TYPE_UINT8_def Let_def)
  moreover have "file_entry_valid demo_rt_file 1"
    by (simp add: file_entry_valid_def demo_entry_Suc0 demo_header
          demo_num_names demo_fsize lseek_end_def entry_size_def gsd_sizeof_type_def
          GSD_TYPE_UINT8_def Let_def)
  moreover have "file_entry_valid demo_rt_file 2"
    by (simp add: file_entry_valid_def demo_entry_2 demo_header
          demo_num_names demo_fsize lseek_end_def entry_size_def gsd_sizeof_type_def
          GSD_TYPE_UINT8_def Let_def)
  ultimately show ?thesis
    by blast
qed

lemma demo_sorted: "file_frames_sorted demo_rt_file 3"
proof -
  have "e_frame (file_entry demo_rt_file l) \<le> e_frame (file_entry demo_rt_file m)"
    if "m < 3" "l \<le> m" for l m
  proof -
    from that have "(l = 0 \<and> m = 0) \<or> (l = 0 \<and> m = 1) \<or> (l = 0 \<and> m = 2)
        \<or> (l = 1 \<and> m = 1) \<or> (l = 1 \<and> m = 2) \<or> (l = 2 \<and> m = 2)" by arith
    then show ?thesis
      by (auto simp: demo_entry_0 demo_entry_Suc0 demo_entry_2)
  qed
  then show ?thesis
    by (simp add: file_frames_sorted_def)
qed

lemma demo_open:
  "gsd_open (Some demo_rt_file) flags = (GSD_SUCCESS, opened_handle demo_rt_file flags 3)"
  using demo_blocks_ok demo_dense _ demo_sorted
  by (rule open_wellformed) (simp add: demo_valid)

lemma opened_index_at:
  "index_at (opened_handle fd GSD_OPEN_READONLY n) fd = file_entry fd"
  by (simp add: fun_eq_iff index_at_def opened_handle_def file_entry_def)

lemma demo_rt_names:
  "names (opened_handle demo_rt_file flags n) = [(str ''abc'', 0)]"
  by (simp add: opened_handle_def demo_num_names demo_name_0 qsort_def)
     (simp add: str_def c_str_simps)

lemma demo_reopened_eq:
  "demo_reopened = (GSD_SUCCESS, opened_handle demo_rt_file GSD_OPEN_READONLY 3)"
  by (simp add: demo_reopened_def demo_rt_run demo_open)

lemma demo_bisect_1: "find_chunk_bisect (file_entry demo_rt_file) 1 0 3 = 2"
  by (simp add: find_chunk_bisect.simps [of _ _ 0 3] find_chunk_bisect.simps [of _ _ "Suc 0" 3]
        demo_entry_Suc0 demo_entry_2 Let_def)

lemma demo_get_id_ab:
  "gsd_get_id (opened_handle demo_rt_file flags n) (str ''ab'') = 0"
  by (simp add: gsd_get_id_def gsd_find_name_def demo_rt_names Let_def)
     (simp add: opened_handle_def demo_num_names str_def strncmp_def strlen_def c_str_simps
        UINT16_MAX_def)

lemma rd_pread:
  assumes "count \<noteq> 0" "0 \<le> sint off" "unat off + count \<le> fsize fd"
  shows "rd_bytes (snd (gsd_pread_retry fd count off)) 0 count
         = rd_bytes (fbytes fd) (unat off) count"
  using assms by (intro rd_bytes_cong) (simp add: pread_snd)

lemma demo_payload: "rd_bytes (fbytes demo_rt_file) 4202690 2 = [3, 4]"
proof (rule rd_bytes_eq)
  fix i :: nat
  assume "i < 2"
  then have "i = 0 \<or> i = 1" by arith
  then show "fbytes demo_rt_file (4202690 + i) = [3, 4] ! i"
    by (auto simp add: demo_rt_file_def fbytes_pwrite fsize_pwrite mem_of_def)
qed simp

text \<open>
  Claim C1, evaluated at a run where it fails. Frame 1 holds chunk \<^verbatim>\<open>ab\<close> with
  \<open>N = 1\<close> and payload \<open>[2]\<close>, and chunk \<^verbatim>\<open>abc\<close> with \<open>N = 2\<close> and payload \<open>[3, 4]\<close>.
  After the file is opened again read-only, \<^verbatim>\<open>gsd_find_chunk\<close> for frame 1 and name
  \<^verbatim>\<open>ab\<close> returns the entry of \<^verbatim>\<open>abc\<close>, and \<^verbatim>\<open>gsd_read_chunk\<close> returns
  \<open>[3, 4]\<close>: \<^verbatim>\<open>gsd_find_name\<close> compares only the first \<^verbatim>\<open>strlen(name)\<close> bytes.
\<close>

theorem roundtrip_prefix_name:
  "fst demo_rt = GSD_SUCCESS \<and> fst demo_reopened = GSD_SUCCESS
   \<and> gsd_find_chunk (Some (snd demo_reopened)) (snd (snd demo_rt)) 1 (Some (str ''ab''))
       = Some \<lparr>e_frame = 1, e_N = 2, e_location = 4202690, e_M = 1,
                e_id = 0, e_type = 1, e_flags = 0\<rparr>
   \<and> gsd_read_chunk (Some (snd demo_reopened)) (snd (snd demo_rt)) (Some [0, 0])
         (Some \<lparr>e_frame = 1, e_N = 2, e_location = 4202690, e_M = 1,
                 e_id = 0, e_type = 1, e_flags = 0\<rparr>)
       = (GSD_SUCCESS, Some [3, 4])"
proof -
  have nf: "gsd_get_nframes (Some (opened_handle demo_rt_file GSD_OPEN_READONLY 3)) = 2"
    by (simp add: gsd_get_nframes_def opened_handle_def demo_entry_2)
  have fl: "open_flags (opened_handle demo_rt_file GSD_OPEN_READONLY 3) = GSD_OPEN_READONLY"
       "index_num_entries (opened_handle demo_rt_file GSD_OPEN_READONLY 3) = 3"
       "file_size (opened_handle demo_rt_file GSD_OPEN_READONLY 3) = 4202692"
    by (simp_all add: opened_handle_def lseek_end_def demo_fsize)
  have sc: "find_chunk_scan (file_entry demo_rt_file) 1 0 2
            = Some \<lparr>e_frame = 1, e_N = 2, e_location = 4202690, e_M = 1,
                e_id = 0, e_type = 1, e_flags = 0\<rparr>"
    by (simp add: find_chunk_scan.simps [of _ _ _ 2] demo_entry_2)
  have find: "gsd_find_chunk (Some (opened_handle demo_rt_file GSD_OPEN_READONLY 3))
                demo_rt_file 1 (Some (str ''ab''))
              = Some \<lparr>e_frame = 1, e_N = 2, e_location = 4202690, e_M = 1,
                e_id = 0, e_type = 1, e_flags = 0\<rparr>"
    by (simp add: gsd_find_chunk_def nf fl demo_get_id_ab opened_index_at demo_bisect_1 sc
          UINT16_MAX_def Let_def word_le_nat_alt)
  have p: "gsd_pread_retry demo_rt_file 2 4202690
           = (2, snd (gsd_pread_retry demo_rt_file 2 4202690))"
    using pread_fst [of 2 4202690 demo_rt_file]
    by (simp add: demo_fsize prod_eq_iff)
  have b: "rd_bytes (snd (gsd_pread_retry demo_rt_file 2 4202690)) 0 2 = [3, 4]"
    using rd_pread [of 2 4202690 demo_rt_file] by (simp add: demo_fsize demo_payload)
  have rd: "gsd_read_chunk (Some (opened_handle demo_rt_file GSD_OPEN_READONLY 3)) demo_rt_file
              (Some [0, 0])
              (Some \<lparr>e_frame = 1, e_N = 2, e_location = 4202690, e_M = 1,
                 e_id = 0, e_type = 1, e_flags = 0\<rparr>)
            = (GSD_SUCCESS, Some [3, 4])"
    by (simp add: gsd_read_chunk_def fl entry_size_def gsd_sizeof_type_def GSD_TYPE_UINT8_def
          Let_def)
       (subst p, simp add: b)
  show ?thesis
    by (simp add: demo_reopened_eq demo_rt_run find rd)
qed

lemmas find_eval = gsd_find_chunk_def gsd_get_nframes_def index_at_def
  find_chunk_bisect.simps find_chunk_scan.simps

text \<open>
  Claim C2, evaluated at a run where it fails. Only \<^verbatim>\<open>abc\<close> was written in frame 0,
  yet \<^verbatim>\<open>gsd_find_chunk\<close> for frame 0 and name \<^verbatim>\<open>ab\<close> returns an entry.
\<close>

theorem find_chunk_prefix_name:
  "fst demo_prefix = GSD_SUCCESS
   \<and> gsd_get_nframes (fst (snd demo_prefix)) = 1
   \<and> gsd_find_chunk (fst (snd demo_prefix)) (snd (snd demo_prefix)) 0 (Some (str ''ab''))
       = Some \<lparr>e_frame = 0, e_N = 1, e_location = 4202688, e_M = 1,
                e_id = 0, e_type = 1, e_flags = 0\<rparr>"
  by (simp add: demo_prefix_def create_and_open_fresh write_eval find_eval)

text \<open>
  Claim C8, evaluated at a run where it fails. The committed names are \<^verbatim>\<open>a\<close>,
  \<^verbatim>\<open>b\<close>, \<^verbatim>\<open>ba\<close>, \<^verbatim>\<open>bb\<close>. The iteration for the prefix \<^verbatim>\<open>b\<close> returns
  \<^verbatim>\<open>b\<close>, then \<^verbatim>\<open>bb\<close>, then nothing: looking up the previous name \<^verbatim>\<open>b\<close>
  lands on \<^verbatim>\<open>ba\<close>, which is never returned.
\<close>

theorem matching_names_skip:
  "fst demo_names = GSD_SUCCESS
   \<and> map fst (names (the (fst (snd demo_names))))
       = [str ''a'', str ''b'', str ''ba'', str ''bb'']
   \<and> namelist_written_entries (the (fst (snd demo_names))) = 4
   \<and> gsd_find_matching_chunk_name (fst (snd demo_names)) (Some (str ''b'')) None
       = Some (str ''b'')
   \<and> gsd_find_matching_chunk_name (fst (snd demo_names)) (Some (str ''b''))
         (Some (str ''b'')) = Some (str ''bb'')
   \<and> gsd_find_matching_chunk_name (fst (snd demo_names)) (Some (str ''b''))
         (Some (str ''bb'')) = None"
  by (simp add: demo_names_def create_and_open_fresh write_eval
        gsd_find_matching_chunk_name_def matching_scan.simps)

text \<open>
  Claim C10, evaluated at a run where it fails. The name \<^verbatim>\<open>ab\<close> was never
  committed, but \<^verbatim>\<open>abc\<close> was. Both writes of \<^verbatim>\<open>ab\<close> get the id of
  \<^verbatim>\<open>abc\<close>, and no namelist entry is appended.
\<close>

theorem write_twice_prefix_name:
  "fst demo_twice = GSD_SUCCESS
   \<and> namelist_num_entries (the (fst (snd demo_prefix))) = 1
   \<and> gsd_get_id (the (fst (snd demo_prefix))) (str ''ab'') = 0
   \<and> namelist_num_entries (the (fst (snd demo_twice))) = 1
   \<and> index_num_entries (the (fst (snd demo_twice))) = 3
   \<and> e_id (index (the (fst (snd demo_twice))) 1) = 0
   \<and> e_id (index (the (fst (snd demo_twice))) 2) = 0"
  by (simp add: demo_twice_def demo_prefix_def create_and_open_fresh write_eval)

lemma corrupt_fsize: "fsize demo_corrupt_file = 4202692"
  by (simp add: demo_corrupt_file_def fsize_pwrite demo_fsize)

lemma corrupt_header:
  "dec_header (fbytes demo_corrupt_file) = fresh_header (str ''app'') (str ''s'') 0"
  by (simp add: demo_corrupt_file_def dec_header_pwrite demo_fsize demo_header)

lemma corrupt_entry_other:
  assumes "i \<noteq> 2" "i < 128"
  shows "file_entry demo_corrupt_file i = file_entry demo_rt_file i"
proof -
  have "256 + 64 * i + 64 \<le> 413 \<or> 413 + 1 \<le> 256 + 64 * i"
    using assms by arith
  then have "dec_entry (fbytes demo_corrupt_file) (256 + 64 * i)
             = dec_entry (fbytes demo_rt_file) (256 + 64 * i)"
    unfolding demo_corrupt_file_def using assms(2)
    by (intro dec_entry_pwrite_out) (simp_all add: demo_fsize)
  then show ?thesis
    by (simp add: file_entry_def corrupt_header demo_header sizeof_gsd_index_entry_def)
qed

lemma corrupt_entry_2:
  "e_flags (file_entry demo_corrupt_file 2) = 1"
  "e_location (file_entry demo_corrupt_file 2) = 4202690"
proof -
  show "e_flags (file_entry demo_corrupt_file 2) = 1"
    by (simp add: file_entry_def corrupt_header sizeof_gsd_index_entry_def dec_entry_def)
       (simp add: demo_corrupt_file_def fbytes_pwrite)
  have e: "rd_u64 (fbytes demo_corrupt_file) 400 = rd_u64 (fbytes demo_rt_file) 400"
    by (rule rd_u64_cong) (simp add: demo_corrupt_file_def fbytes_pwrite demo_fsize)
  have c: "e_location (file_entry demo_corrupt_file 2) = rd_u64 (fbytes demo_corrupt_file) 400"
    by (simp add: file_entry_def corrupt_header sizeof_gsd_index_entry_def dec_entry_def)
  have d: "e_location (file_entry demo_rt_file 2) = rd_u64 (fbytes demo_rt_file) 400"
    by (simp add: file_entry_def demo_header sizeof_gsd_index_entry_def dec_entry_def)
  have "rd_u64 (fbytes demo_rt_file) 400 = 4202690"
    using d by (simp add: demo_entry_2)
  then show "e_location (file_entry demo_corrupt_file 2) = 4202690"
    using c e by simp
qed

lemma corrupt_blocks_ok: "file_blocks_ok demo_corrupt_file"
  by (simp add: file_blocks_ok_def corrupt_header corrupt_fsize Let_def make_version_values)

lemma corrupt_dense: "file_dense_prefix demo_corrupt_file 3"
proof -
  have "e_location (file_entry demo_corrupt_file i) \<noteq> 0" if "i < 3" for i
  proof -
    from that have "i = 0 \<or> i = 1 \<or> i = 2" by arith
    then show ?thesis
      using corrupt_entry_other [of 0] corrupt_entry_other [of 1]
      by (auto simp: demo_entry_0 demo_entry_Suc0 corrupt_entry_2)
  qed
  moreover have "e_location (file_entry demo_corrupt_file i) = 0" if "3 \<le> i" "i < 128" for i
    using that corrupt_entry_other [of i] demo_entry_rest [of i] by (simp add: zero_entry_def)
  ultimately show ?thesis
    by (simp add: file_dense_prefix_def corrupt_header)
qed

lemma probes_3: "bisect_probes 3 0 128 = [(0, 2)]"
  by (simp add: bisect_probes.simps [of 3 0 128] bisect_probes.simps [of 3 0 64]
        bisect_probes.simps [of 3 0 32] bisect_probes.simps [of 3 0 16]
        bisect_probes.simps [of 3 0 8] bisect_probes.simps [of 3 0 4]
        bisect_probes.simps [of 3 2 4] Let_def)

lemma corrupt_probes: "\<not> file_probes_ok demo_corrupt_file 3"
  by (simp add: file_probes_ok_def corrupt_header probes_3 file_entry_valid_def
        corrupt_entry_2 Let_def)

text \<open>Witness of C4: the file that the round trip run leaves, with three index entries in
  two frames, opens with three entries and frame counter 2; the same file with the flags
  byte of entry 2 set, the one entry of the prefix that the bisection probes, is reported
  corrupt.\<close>

theorem open_counts_entries_witness:
  "file_blocks_ok demo_rt_file \<and> file_dense_prefix demo_rt_file 3
   \<and> file_probes_ok demo_rt_file 3
   \<and> fst (gsd_open (Some demo_rt_file) GSD_OPEN_READONLY) = GSD_SUCCESS
   \<and> index_num_entries (snd (gsd_open (Some demo_rt_file) GSD_OPEN_READONLY)) = 3
   \<and> cur_frame (snd (gsd_open (Some demo_rt_file) GSD_OPEN_READONLY)) = 2
   \<and> file_blocks_ok demo_corrupt_file \<and> file_dense_prefix demo_corrupt_file 3
   \<and> \<not> file_probes_ok demo_corrupt_file 3
   \<and> fst (gsd_open (Some demo_corrupt_file) GSD_OPEN_READONLY) = GSD_ERROR_FILE_CORRUPT"
proof -
  have 1: "file_probes_ok demo_rt_file 3
     \<and> fst (gsd_open (Some demo_rt_file) GSD_OPEN_READONLY) = GSD_SUCCESS
     \<and> index_num_entries (snd (gsd_open (Some demo_rt_file) GSD_OPEN_READONLY)) = 3
     \<and> cur_frame (snd (gsd_open (Some demo_rt_file) GSD_OPEN_READONLY)) = 2"
    using open_counts_entries [OF demo_blocks_ok demo_dense, of GSD_OPEN_READONLY]
      demo_valid demo_sorted
    by (simp add: demo_entry_2)
  have 2: "fst (gsd_open (Some demo_corrupt_file) GSD_OPEN_READONLY) = GSD_ERROR_FILE_CORRUPT"
    using open_counts_entries [OF corrupt_blocks_ok corrupt_dense, of GSD_OPEN_READONLY]
      corrupt_probes
    by simp
  show ?thesis
    using 1 2 demo_blocks_ok demo_dense corrupt_blocks_ok corrupt_dense corrupt_probes
    by simp
qed

text \<open>Witness of C9: a file of application \<^verbatim>\<open>app\<close>, schema \<^verbatim>\<open>s\<close> and schema
  version 7 that holds one frame with a chunk \<^verbatim>\<open>data\<close>; before the call the frame count
  is 1 and the chunk is found.\<close>

theorem truncate_resets_witness:
  "fst demo_data = GSD_SUCCESS
   \<and> gsd_get_nframes (fst (snd demo_data)) = 1
   \<and> gsd_find_chunk (fst (snd demo_data)) (snd (snd demo_data)) 0 (Some (str ''data''))
       = Some \<lparr>e_frame = 0, e_N = 1, e_location = 4202688, e_M = 1,
                e_id = 0, e_type = 1, e_flags = 0\<rparr>
   \<and> open_flags (the (fst (snd demo_data))) = GSD_OPEN_READWRITE
   \<and> c_str (application (header (the (fst (snd demo_data))))) = str ''app''
   \<and> c_str (schema (header (the (fst (snd demo_data))))) = str ''s''
   \<and> schema_version (header (the (fst (snd demo_data)))) = 7
   \<and> (\<exists>handle' fd'.
         gsd_truncate (Some (the (fst (snd demo_data)))) (snd (snd demo_data))
           = (GSD_SUCCESS, Some handle', fd')
         \<and> c_str (application (header handle')) = str ''app''
         \<and> c_str (schema (header handle')) = str ''s''
         \<and> schema_version (header handle') = 7
         \<and> gsd_get_nframes (Some handle') = 0
         \<and> gsd_find_chunk (Some handle') fd' 0 (Some (str ''data'')) = None)"
proof -
  have b: "fst demo_data = GSD_SUCCESS"
    "gsd_get_nframes (fst (snd demo_data)) = 1"
    "gsd_find_chunk (fst (snd demo_data)) (snd (snd demo_data)) 0 (Some (str ''data''))
       = Some \<lparr>e_frame = 0, e_N = 1, e_location = 4202688, e_M = 1,
                e_id = 0, e_type = 1, e_flags = 0\<rparr>"
    by (simp_all add: demo_data_def create_and_open_fresh write_eval find_eval)
  have h: "open_flags (the (fst (snd demo_data))) = GSD_OPEN_READWRITE"
    "header (the (fst (snd demo_data))) = fresh_header (str ''app'') (str ''s'') 7"
    by (simp_all add: demo_data_def create_and_open_fresh write_eval)
  have s: "c_str (application (header (the (fst (snd demo_data))))) = str ''app''"
    "c_str (schema (header (the (fst (snd demo_data))))) = str ''s''"
    "schema_version (header (the (fst (snd demo_data)))) = 7"
    unfolding h by (simp_all add: str_def c_str_simps)
  have l: "strlen (application (header (the (fst (snd demo_data))))) \<le> 63"
    "strlen (schema (header (the (fst (snd demo_data))))) \<le> 63"
    by (simp_all add: strlen_def s) (simp_all add: str_def)
  have w: "open_flags (the (fst (snd demo_data))) \<noteq> GSD_OPEN_READONLY"
    by (simp add: h)
  obtain handle' fd' where t:
    "gsd_truncate (Some (the (fst (snd demo_data)))) (snd (snd demo_data))
       = (GSD_SUCCESS, Some handle', fd')"
    "c_str (application (header handle')) = str ''app''"
    "c_str (schema (header handle')) = str ''s''"
    "schema_version (header handle') = 7"
    "gsd_get_nframes (Some handle') = 0"
    "\<And>frame name. gsd_find_chunk (Some handle') fd' frame name = None"
    using truncate_resets [OF w l, of "snd (snd demo_data)"] unfolding s by blast
  show ?thesis
    using b h(1) s t(1-5) t(6) [of 0 "Some (str ''data'')"] by blast
qed


subsection \<open>Expanding the index\<close>

lemma unat_add_of_nat:
  assumes "unat a + n < 2 ^ 63"
  shows "unat (a + word_of_nat n :: 64 word) = unat a + n"
    and "\<not> sint (a + word_of_nat n :: 64 word) < 0"
proof -
  have n: "n < 2 ^ 64" using assms by simp
  show 1: "unat (a + word_of_nat n :: 64 word) = unat a + n"
    using assms by (simp add: unat_word_ariths unat_of_nat)
  show "\<not> sint (a + word_of_nat n :: 64 word) < 0"
    using assms by (simp add: sint_neg_iff 1)
qed

lemma pwrite_retry_ok:
  assumes "unat off + count < 2 ^ 63"
  shows "gsd_pwrite_retry fd buf count off
         = (int count, if count = 0 then fd else pwrite fd buf count (unat off))"
  using assms by (simp add: gsd_pwrite_retry_def sint_neg_iff)

lemma pread_retry_ok:
  assumes "unat off + count \<le> fsize fd" "fsize fd < 2 ^ 63"
  shows "fst (gsd_pread_retry fd count off) = int count"
    and "i < count \<Longrightarrow> snd (gsd_pread_retry fd count off) i = fbytes fd (unat off + i)"
  using assms by (simp_all add: gsd_pread_retry_def sint_neg_iff min_def)

lemma expand_zero_loop_spec:
  assumes "t \<le> nb" "fsize fd = unat nl + t" "unat nl + nb < 2 ^ 63"
  shows "\<exists>fd'. expand_zero_loop fd nl t nb = (GSD_SUCCESS, nb, fd')
           \<and> fsize fd' = unat nl + nb
           \<and> (\<forall>a < unat nl + t. fbytes fd' a = fbytes fd a)
           \<and> (\<forall>k. t \<le> k \<and> k < nb \<longrightarrow> fbytes fd' (unat nl + k) = 0)"
  using assms
proof (induction fd nl t nb rule: expand_zero_loop.induct)
  case (1 fd nl t nb)
  show ?case
  proof (cases "t < nb")
    case False
    then show ?thesis
      using "1.prems" by (subst expand_zero_loop.simps) auto
  next
    case True
    define b where "b = (if nb - t < GSD_COPY_BUFFER_SIZE then nb - t else GSD_COPY_BUFFER_SIZE)"
    have b: "0 < b" "t + b \<le> nb"
      using True by (auto simp: b_def GSD_COPY_BUFFER_SIZE_def)
    have u: "unat (nl + word_of_nat t) = unat nl + t"
      using "1.prems" by (intro unat_add_of_nat) simp
    have w: "gsd_pwrite_retry fd (\<lambda>i. 0) b (nl + word_of_nat t)
             = (int b, pwrite fd (\<lambda>i. 0) b (unat nl + t))"
      using pwrite_retry_ok [of "nl + word_of_nat t" b fd "\<lambda>i. 0"] b "1.prems"
      by (simp add: u)
    define fd1 where "fd1 = pwrite fd (\<lambda>i. 0) b (unat nl + t)"
    have s1: "fsize fd1 = unat nl + (t + b)"
      using "1.prems" by (simp add: fd1_def fsize_pwrite)
    have step: "expand_zero_loop fd nl t nb = expand_zero_loop fd1 nl (t + b) nb"
      using True by (subst expand_zero_loop.simps) (simp add: b_def [symmetric] w fd1_def)
    have "\<exists>fd'. expand_zero_loop fd1 nl (t + b) nb = (GSD_SUCCESS, nb, fd')
           \<and> fsize fd' = unat nl + nb
           \<and> (\<forall>a < unat nl + (t + b). fbytes fd' a = fbytes fd1 a)
           \<and> (\<forall>k. t + b \<le> k \<and> k < nb \<longrightarrow> fbytes fd' (unat nl + k) = 0)"
      using True b s1 "1.prems"(3)
      by (intro "1.IH" [OF True b_def _ _ _, of "int b" fd1])
         (simp_all add: w fd1_def)
    then obtain fd' where f: "expand_zero_loop fd1 nl (t + b) nb = (GSD_SUCCESS, nb, fd')"
      "fsize fd' = unat nl + nb"
      "\<And>a. a < unat nl + (t + b) \<Longrightarrow> fbytes fd' a = fbytes fd1 a"
      "\<And>k. t + b \<le> k \<Longrightarrow> k < nb \<Longrightarrow> fbytes fd' (unat nl + k) = 0"
      by blast
    have lo: "fbytes fd' a = fbytes fd a" if "a < unat nl + t" for a
      using that f(3) [of a] "1.prems"(2) by (simp add: fd1_def fbytes_pwrite)
    have hi: "fbytes fd' (unat nl + k) = 0" if "t \<le> k" "k < nb" for k
    proof (cases "k < t + b")
      case True
      then show ?thesis
        using that f(3) [of "unat nl + k"] by (simp add: fd1_def fbytes_pwrite)
    next
      case False
      then show ?thesis
        using that f(4) [of k] by simp
    qed
    show ?thesis
      unfolding step using f(1,2) lo hi by blast
  qed
qed

lemma expand_copy_loop_spec:
  assumes "t \<le> ob" "fsize fd = unat nl + t" "unat nl + ob < 2 ^ 63"
    and "unat ol + ob \<le> unat nl"
  shows "\<exists>fd'. expand_copy_loop fd ol nl t ob = (GSD_SUCCESS, ob, fd')
           \<and> fsize fd' = unat nl + ob
           \<and> (\<forall>a < unat nl + t. fbytes fd' a = fbytes fd a)
           \<and> (\<forall>k. t \<le> k \<and> k < ob \<longrightarrow> fbytes fd' (unat nl + k) = fbytes fd (unat ol + k))"
  using assms
proof (induction fd ol nl t ob rule: expand_copy_loop.induct)
  case (1 fd ol nl t ob)
  show ?case
  proof (cases "t < ob")
    case False
    then show ?thesis
      using "1.prems" by (subst expand_copy_loop.simps) auto
  next
    case True
    define b where "b = (if ob - t < GSD_COPY_BUFFER_SIZE then ob - t else GSD_COPY_BUFFER_SIZE)"
    have b: "0 < b" "t + b \<le> ob"
      using True by (auto simp: b_def GSD_COPY_BUFFER_SIZE_def)
    have uo: "unat (ol + word_of_nat t) = unat ol + t"
      using "1.prems" by (intro unat_add_of_nat) simp
    have un: "unat (nl + word_of_nat t) = unat nl + t"
      using "1.prems" by (intro unat_add_of_nat) simp
    define buf where "buf = snd (gsd_pread_retry fd b (ol + word_of_nat t))"
    have r: "gsd_pread_retry fd b (ol + word_of_nat t) = (int b, buf)"
      using pread_retry_ok(1) [of "ol + word_of_nat t" b fd] b "1.prems"
      by (simp add: uo buf_def prod_eq_iff)
    have rb: "buf i = fbytes fd (unat ol + t + i)" if "i < b" for i
      using pread_retry_ok(2) [of "ol + word_of_nat t" b fd i] b "1.prems" that
      by (simp add: uo buf_def)
    have w: "gsd_pwrite_retry fd buf b (nl + word_of_nat t)
             = (int b, pwrite fd buf b (unat nl + t))"
      using pwrite_retry_ok [of "nl + word_of_nat t" b fd buf] b "1.prems"
      by (simp add: un)
    define fd1 where "fd1 = pwrite fd buf b (unat nl + t)"
    have s1: "fsize fd1 = unat nl + (t + b)"
      using "1.prems" by (simp add: fd1_def fsize_pwrite)
    have step: "expand_copy_loop fd ol nl t ob = expand_copy_loop fd1 ol nl (t + b) ob"
      using True by (subst expand_copy_loop.simps) (simp add: b_def [symmetric] r w fd1_def)
    have "\<exists>fd'. expand_copy_loop fd1 ol nl (t + b) ob = (GSD_SUCCESS, ob, fd')
           \<and> fsize fd' = unat nl + ob
           \<and> (\<forall>a < unat nl + (t + b). fbytes fd' a = fbytes fd1 a)
           \<and> (\<forall>k. t + b \<le> k \<and> k < ob
                 \<longrightarrow> fbytes fd' (unat nl + k) = fbytes fd1 (unat ol + k))"
      using True b s1 "1.prems"(3,4)
      by (intro "1.IH" [OF True b_def _ _ _ _, of "int b" buf "int b" fd1])
         (simp_all add: r w fd1_def)
    then obtain fd' where f: "expand_copy_loop fd1 ol nl (t + b) ob = (GSD_SUCCESS, ob, fd')"
      "fsize fd' = unat nl + ob"
      "\<And>a. a < unat nl + (t + b) \<Longrightarrow> fbytes fd' a = fbytes fd1 a"
      "\<And>k. t + b \<le> k \<Longrightarrow> k < ob \<Longrightarrow> fbytes fd' (unat nl + k) = fbytes fd1 (unat ol + k)"
      by blast
    have old: "fbytes fd1 (unat ol + k) = fbytes fd (unat ol + k)" if "k < ob" for k
      using that "1.prems"(2,4) by (simp add: fd1_def fbytes_pwrite)
    have lo: "fbytes fd' a = fbytes fd a" if "a < unat nl + t" for a
      using that f(3) [of a] "1.prems"(2) by (simp add: fd1_def fbytes_pwrite)
    have hi: "fbytes fd' (unat nl + k) = fbytes fd (unat ol + k)" if "t \<le> k" "k < ob" for k
    proof (cases "k < t + b")
      case True
      then have "fbytes fd' (unat nl + k) = buf (k - t)"
        using that f(3) [of "unat nl + k"] by (simp add: fd1_def fbytes_pwrite)
      also have "\<dots> = fbytes fd (unat ol + k)"
        using rb [of "k - t"] True that by simp
      finally show ?thesis .
    next
      case False
      then show ?thesis
        using that f(4) [of k] old [of k] by simp
    qed
    show ?thesis
      unfolding step using f(1,2) lo hi by blast
  qed
qed

lemma enc_entry_zero: "enc_entry zero_entry = replicate 64 0"
  by (simp add: enc_entry_def zero_entry_def enc_u64_def enc_u32_def enc_u16_def
        replicate_append_same numeral_Bit0 numeral_Bit1)

lemma index_mem_zero:
  assumes "idx (base + k div 64) = zero_entry"
  shows "index_mem idx base k = 0"
  using assms by (simp add: index_mem_def sizeof_gsd_index_entry_def enc_entry_zero)

lemma index_mem_cong:
  assumes "idx (base + k div 64) = idx' (base' + k div 64)"
  shows "index_mem idx base k = index_mem idx' base' k"
  using assms by (simp add: index_mem_def sizeof_gsd_index_entry_def)

lemma expand_write_header_ok:
  "expand_write_header handle fd
   = (GSD_SUCCESS, handle, pwrite fd (mem_of (enc_header (header handle))) 256 0)"
  by (simp add: expand_write_header_def gsd_pwrite_retry_def sizeof_gsd_header_def)

lemma unat_sizes:
  assumes "128 * unat (old :: 64 word) < 2 ^ 63"
  shows "unat (old * 2) = 2 * unat old"
    and "unat (word_of_nat sizeof_gsd_index_entry * (old * 2)) = 128 * unat old"
    and "unat (old * 2 * word_of_nat sizeof_gsd_index_entry) = 128 * unat old"
    and "unat (old * word_of_nat sizeof_gsd_index_entry) = 64 * unat old"
proof -
  show 1: "unat (old * 2) = 2 * unat old"
    using assms by (simp add: unat_word_ariths)
  have "unat (64 * (old * 2)) = 64 * unat (old * 2)"
    using assms by (simp add: unat_word_ariths 1 del: mult_numeral_left_semiring_numeral)
  then show 2: "unat (word_of_nat sizeof_gsd_index_entry * (old * 2)) = 128 * unat old"
    by (simp add: sizeof_gsd_index_entry_def 1)
  then show "unat (old * 2 * word_of_nat sizeof_gsd_index_entry) = 128 * unat old"
    by (simp add: mult.commute)
  show "unat (old * word_of_nat sizeof_gsd_index_entry) = 64 * unat old"
    using assms by (simp add: sizeof_gsd_index_entry_def unat_word_ariths)
qed

lemma expand_index_rw:
  assumes rw: "open_flags handle = GSD_OPEN_READWRITE"
    and small: "fsize fd + 128 * unat (index_allocated_entries (header handle)) < 2 ^ 63"
    and hdr: "256 \<le> fsize fd"
  shows "\<exists>fd'. gsd_expand_index handle fd = (GSD_SUCCESS, expanded_handle handle fd, fd')
           \<and> fsize fd' = fsize fd + 128 * unat (index_allocated_entries (header handle))
           \<and> (\<forall>a < 256. fbytes fd' a
                 = mem_of (enc_header (header (expanded_handle handle fd))) a)
           \<and> (\<forall>a. 256 \<le> a \<and> a < fsize fd \<longrightarrow> fbytes fd' a = fbytes fd a)
           \<and> (\<forall>k < 64 * unat (index_allocated_entries (header handle)).
                 fbytes fd' (fsize fd + k) = index_mem (index handle) 0 k)
           \<and> (\<forall>k. 64 * unat (index_allocated_entries (header handle)) \<le> k
                    \<and> k < 128 * unat (index_allocated_entries (header handle))
                 \<longrightarrow> fbytes fd' (fsize fd + k) = 0)"
proof -
  define old where "old = index_allocated_entries (header handle)"
  define idx where "idx = (\<lambda>i. if unat old \<le> i \<and> i < 2 * unat old
                               then zero_entry else index handle i)"
  have sz: "unat (old * 2) = 2 * unat old"
    "unat (word_of_nat sizeof_gsd_index_entry * (old * 2)) = 128 * unat old"
    using small by (simp_all add: unat_sizes old_def)
  have L: "unat (lseek_end fd) = fsize fd"
    using small by (simp add: lseek_end_def unat_of_nat)
  define fd1 where "fd1 = (if 128 * unat old = 0 then fd
                           else pwrite fd (index_mem idx 0) (128 * unat old) (fsize fd))"
  have w: "gsd_pwrite_retry fd (index_mem idx 0) (128 * unat old) (lseek_end fd)
           = (int (128 * unat old), fd1)"
    using pwrite_retry_ok [of "lseek_end fd" "128 * unat old" fd "index_mem idx 0"] small
    by (simp add: L fd1_def old_def)
  define fd' where
    "fd' = pwrite fd1 (mem_of (enc_header (header (expanded_handle handle fd)))) 256 0"
  have fs: "word_of_nat (fsize fd) + word_of_nat (128 * unat old)
            = (word_of_nat (fsize fd + 128 * unat old) :: 64 word)"
    by simp
  have run: "gsd_expand_index handle fd = (GSD_SUCCESS, expanded_handle handle fd, fd')"
    unfolding gsd_expand_index_def Let_def
    apply (simp add: rw old_def [symmetric] sz expand_write_header_ok
        del: of_nat_mult of_nat_add cong: if_cong)
    apply (simp add: idx_def [symmetric] w del: of_nat_mult of_nat_add)
    apply (rule conjI)
     apply (rule gsd_handle.equality;
        simp add: expanded_handle_def rw old_def [symmetric] idx_def sz lseek_end_def fs
          del: of_nat_mult of_nat_add)
    apply (simp add: fd'_def expanded_handle_def rw old_def [symmetric] idx_def sz
        lseek_end_def fs del: of_nat_mult of_nat_add)
    done
  have s1: "fsize fd1 = fsize fd + 128 * unat old"
    by (simp add: fd1_def fsize_pwrite)
  have b1: "fbytes fd1 a = fbytes fd a" if "a < fsize fd" for a
    using that by (simp add: fd1_def fbytes_pwrite)
  have b2: "fbytes fd1 (fsize fd + k) = index_mem idx 0 k" if "k < 128 * unat old" for k
    using that by (simp add: fd1_def fbytes_pwrite)
  have "fsize fd' = fsize fd + 128 * unat old"
    using hdr by (simp add: fd'_def fsize_pwrite s1)
  moreover have "fbytes fd' a = mem_of (enc_header (header (expanded_handle handle fd))) a"
    if "a < 256" for a
    using that by (simp add: fd'_def fbytes_pwrite)
  moreover have "fbytes fd' a = fbytes fd a" if "256 \<le> a" "a < fsize fd" for a
    using that b1 [of a] by (simp add: fd'_def fbytes_pwrite s1)
  moreover have "fbytes fd' (fsize fd + k) = index_mem (index handle) 0 k"
    if "k < 64 * unat old" for k
  proof -
    have "fbytes fd' (fsize fd + k) = index_mem idx 0 k"
      using that hdr b2 [of k] by (simp add: fd'_def fbytes_pwrite s1)
    also have "\<dots> = index_mem (index handle) 0 k"
    proof (rule index_mem_cong)
      have "k div 64 < unat old" using that by arith
      then show "idx (0 + k div 64) = index handle (0 + k div 64)"
        by (simp add: idx_def)
    qed
    finally show ?thesis .
  qed
  moreover have "fbytes fd' (fsize fd + k) = 0"
    if "64 * unat old \<le> k" "k < 128 * unat old" for k
  proof -
    have "fbytes fd' (fsize fd + k) = index_mem idx 0 k"
      using that hdr b2 [of k] by (simp add: fd'_def fbytes_pwrite s1)
    also have "\<dots> = 0"
    proof (rule index_mem_zero)
      have "unat old \<le> k div 64" "k div 64 < 2 * unat old" using that by arith+
      then show "idx (0 + k div 64) = zero_entry"
        by (simp add: idx_def)
    qed
    finally show ?thesis .
  qed
  ultimately show ?thesis
    using run unfolding old_def by blast
qed

lemma expand_index_append:
  assumes ap: "open_flags handle = GSD_OPEN_APPEND"
    and small: "fsize fd + 128 * unat (index_allocated_entries (header handle)) < 2 ^ 63"
    and hdr: "256 \<le> fsize fd"
    and blk: "unat (index_location (header handle))
              + 64 * unat (index_allocated_entries (header handle)) \<le> fsize fd"
  shows "\<exists>fd'. gsd_expand_index handle fd = (GSD_SUCCESS, expanded_handle handle fd, fd')
           \<and> fsize fd' = fsize fd + 128 * unat (index_allocated_entries (header handle))
           \<and> (\<forall>a < 256. fbytes fd' a
                 = mem_of (enc_header (header (expanded_handle handle fd))) a)
           \<and> (\<forall>a. 256 \<le> a \<and> a < fsize fd \<longrightarrow> fbytes fd' a = fbytes fd a)
           \<and> (\<forall>k < 64 * unat (index_allocated_entries (header handle)).
                 fbytes fd' (fsize fd + k)
                 = fbytes fd (unat (index_location (header handle)) + k))
           \<and> (\<forall>k. 64 * unat (index_allocated_entries (header handle)) \<le> k
                    \<and> k < 128 * unat (index_allocated_entries (header handle))
                 \<longrightarrow> fbytes fd' (fsize fd + k) = 0)"
proof -
  define old where "old = index_allocated_entries (header handle)"
  define ol where "ol = index_location (header handle)"
  have sz: "unat (old * 2) = 2 * unat old"
    "unat (old * 2 * word_of_nat sizeof_gsd_index_entry) = 128 * unat old"
    "unat (old * word_of_nat sizeof_gsd_index_entry) = 64 * unat old"
    using small by (simp_all add: unat_sizes old_def)
  have L: "unat (lseek_end fd) = fsize fd"
    using small by (simp add: lseek_end_def unat_of_nat)
  have "\<exists>fd1. expand_copy_loop fd ol (lseek_end fd) 0 (64 * unat old)
                 = (GSD_SUCCESS, 64 * unat old, fd1)
           \<and> fsize fd1 = unat (lseek_end fd) + 64 * unat old
           \<and> (\<forall>a < unat (lseek_end fd) + 0. fbytes fd1 a = fbytes fd a)
           \<and> (\<forall>k. 0 \<le> k \<and> k < 64 * unat old
                 \<longrightarrow> fbytes fd1 (unat (lseek_end fd) + k) = fbytes fd (unat ol + k))"
    using small blk by (intro expand_copy_loop_spec) (simp_all add: L old_def ol_def)
  then obtain fd1 where c:
    "expand_copy_loop fd ol (lseek_end fd) 0 (64 * unat old) = (GSD_SUCCESS, 64 * unat old, fd1)"
    "fsize fd1 = fsize fd + 64 * unat old"
    "\<And>a. a < fsize fd \<Longrightarrow> fbytes fd1 a = fbytes fd a"
    "\<And>k. k < 64 * unat old \<Longrightarrow> fbytes fd1 (fsize fd + k) = fbytes fd (unat ol + k)"
    unfolding L by auto
  have "\<exists>fd2. expand_zero_loop fd1 (lseek_end fd) (64 * unat old) (128 * unat old)
                 = (GSD_SUCCESS, 128 * unat old, fd2)
           \<and> fsize fd2 = unat (lseek_end fd) + 128 * unat old
           \<and> (\<forall>a < unat (lseek_end fd) + 64 * unat old. fbytes fd2 a = fbytes fd1 a)
           \<and> (\<forall>k. 64 * unat old \<le> k \<and> k < 128 * unat old
                 \<longrightarrow> fbytes fd2 (unat (lseek_end fd) + k) = 0)"
    using small by (intro expand_zero_loop_spec) (simp_all add: L c(2) old_def)
  then obtain fd2 where z:
    "expand_zero_loop fd1 (lseek_end fd) (64 * unat old) (128 * unat old)
       = (GSD_SUCCESS, 128 * unat old, fd2)"
    "fsize fd2 = fsize fd + 128 * unat old"
    "\<And>a. a < fsize fd + 64 * unat old \<Longrightarrow> fbytes fd2 a = fbytes fd1 a"
    "\<And>k. 64 * unat old \<le> k \<Longrightarrow> k < 128 * unat old \<Longrightarrow> fbytes fd2 (fsize fd + k) = 0"
    unfolding L by auto
  define fd' where
    "fd' = pwrite fd2 (mem_of (enc_header (header (expanded_handle handle fd)))) 256 0"
  have fs: "word_of_nat (fsize fd) + word_of_nat (128 * unat old)
            = (word_of_nat (fsize fd + 128 * unat old) :: 64 word)"
    by simp
  have run: "gsd_expand_index handle fd = (GSD_SUCCESS, expanded_handle handle fd, fd')"
    unfolding gsd_expand_index_def Let_def
    apply (simp add: ap old_def [symmetric] ol_def [symmetric] sz expand_write_header_ok c(1) z(1)
        del: of_nat_mult of_nat_add cong: if_cong)
    apply (rule conjI)
     apply (rule gsd_handle.equality;
        simp add: expanded_handle_def ap old_def [symmetric] sz lseek_end_def fs
          del: of_nat_mult of_nat_add)
    apply (simp add: fd'_def expanded_handle_def ap old_def [symmetric] sz
        lseek_end_def fs del: of_nat_mult of_nat_add)
    done
  have "fsize fd' = fsize fd + 128 * unat old"
    using hdr by (simp add: fd'_def fsize_pwrite z(2))
  moreover have "fbytes fd' a = mem_of (enc_header (header (expanded_handle handle fd))) a"
    if "a < 256" for a
    using that by (simp add: fd'_def fbytes_pwrite)
  moreover have "fbytes fd' a = fbytes fd a" if "256 \<le> a" "a < fsize fd" for a
    using that z(3) [of a] c(3) [of a] by (simp add: fd'_def fbytes_pwrite z(2))
  moreover have "fbytes fd' (fsize fd + k) = fbytes fd (unat ol + k)"
    if "k < 64 * unat old" for k
    using that hdr z(3) [of "fsize fd + k"] c(4) [of k]
    by (simp add: fd'_def fbytes_pwrite z(2))
  moreover have "fbytes fd' (fsize fd + k) = 0"
    if "64 * unat old \<le> k" "k < 128 * unat old" for k
    using that hdr z(4) [of k] by (simp add: fd'_def fbytes_pwrite z(2))
  ultimately show ?thesis
    using run unfolding old_def ol_def by blast
qed

lemma write_chunk_id_frame:
  assumes "write_chunk_id handle name = (rc, nid, h1)"
  shows "header h1 = header handle \<and> index h1 = index handle
         \<and> open_flags h1 = open_flags handle \<and> file_size h1 = file_size handle
         \<and> index_num_entries h1 = index_num_entries handle
         \<and> index_written_entries h1 = index_written_entries handle
         \<and> append_index_size h1 = append_index_size handle
         \<and> cur_frame h1 = cur_frame handle"
  using assms
  by (auto simp: write_chunk_id_def gsd_append_name_def Let_def split: if_splits)

lemma header_fields_stored:
  assumes "\<And>a. a < 256 \<Longrightarrow> m a = mem_of (enc_header hdr) a"
  shows "index_location (dec_header m) = index_location hdr"
    and "index_allocated_entries (dec_header m) = index_allocated_entries hdr"
proof -
  have a: "\<And>i k. k + i < 256 \<Longrightarrow> m (k + i) = enc_header hdr ! (k + i)"
    using assms by (simp add: mem_of_def)
  have 2: "rd_u64 m 8 = index_location hdr"
    by (rule rd_u64_enc) (simp add: a enc_header_def nth_append)
  have 4: "rd_u64 m 24 = index_allocated_entries hdr"
    by (rule rd_u64_enc) (simp add: a enc_header_def nth_append)
  show "index_location (dec_header m) = index_location hdr"
    by (simp add: dec_header_def 2)
  show "index_allocated_entries (dec_header m) = index_allocated_entries hdr"
    by (simp add: dec_header_def 4)
qed

lemma dec_entry_index_mem:
  assumes "\<And>k. k < 64 * n \<Longrightarrow> m (a + k) = index_mem idx 0 k" "i < n"
  shows "dec_entry m (a + 64 * i) = idx i"
proof (rule dec_entry_enc)
  fix j :: nat
  assume j: "j < 64"
  have "m (a + 64 * i + j) = index_mem idx 0 (64 * i + j)"
    using assms(1) [of "64 * i + j"] assms(2) j by (simp add: add.assoc)
  then show "m (a + 64 * i + j) = enc_entry (idx i) ! j"
    using j by (simp add: index_mem_at)
qed

lemma expand_index_spec:
  assumes wr: "open_flags handle \<noteq> GSD_OPEN_READONLY"
    and small: "fsize fd + 128 * unat (index_allocated_entries (header handle)) < 2 ^ 63"
    and hdr: "256 \<le> fsize fd"
    and blk: "unat (index_location (header handle))
              + 64 * unat (index_allocated_entries (header handle)) \<le> fsize fd"
  shows "\<exists>fd'. gsd_expand_index handle fd = (GSD_SUCCESS, expanded_handle handle fd, fd')
           \<and> fsize fd' = fsize fd + 128 * unat (index_allocated_entries (header handle))
           \<and> (\<forall>a < 256. fbytes fd' a
                 = mem_of (enc_header (header (expanded_handle handle fd))) a)
           \<and> (\<forall>a. 256 \<le> a \<and> a < fsize fd \<longrightarrow> fbytes fd' a = fbytes fd a)
           \<and> (\<forall>k < 64 * unat (index_allocated_entries (header handle)).
                 fbytes fd' (fsize fd + k)
                 = (if open_flags handle = GSD_OPEN_READWRITE
                    then index_mem (index handle) 0 k
                    else fbytes fd (unat (index_location (header handle)) + k)))
           \<and> (\<forall>k. 64 * unat (index_allocated_entries (header handle)) \<le> k
                    \<and> k < 128 * unat (index_allocated_entries (header handle))
                 \<longrightarrow> fbytes fd' (fsize fd + k) = 0)"
proof (cases "open_flags handle = GSD_OPEN_READWRITE")
  case True
  then show ?thesis
    using expand_index_rw [OF True small hdr] by simp
next
  case False
  then have ap: "open_flags handle = GSD_OPEN_APPEND"
    using wr by (cases "open_flags handle") simp_all
  show ?thesis
    using expand_index_append [OF ap small hdr blk] by (simp add: ap)
qed

text \<open>
  Claim C3. Let a writable handle be in step with its file (the cached size is the file
  size, the index block lies inside the file behind the header), let the index be full, and
  let the sizes stay below \<open>2^63\<close>. Then \<^verbatim>\<open>gsd_write_chunk\<close> with valid arguments succeeds
  and expands the index: the allocated size is doubled; the new index block starts at the
  end of the file (behind the payload just written) and the header on disk points to it;
  its low half holds the old index (in read/write mode the index in memory, in append mode
  the bytes of the old block of the file) and its high half is zero; no byte of the file
  behind the header changes, so every entry of the old block reads back unchanged, at its
  old place and in the new block, and in read/write mode from memory.
\<close>

theorem write_chunk_expands_index:
  assumes wr: "open_flags handle \<noteq> GSD_OPEN_READONLY"
    and args: "N \<noteq> 0" "M \<noteq> 0" "gsd_sizeof_type type \<noteq> 0"
    and idok: "fst (write_chunk_id handle name) = GSD_SUCCESS"
    and sync: "file_size handle = lseek_end fd"
    and full: "unat (index_allocated_entries (header handle)) \<le> index_num_entries handle"
    and hdr: "256 \<le> unat (index_location (header handle))"
    and blk: "unat (index_location (header handle))
              + 64 * unat (index_allocated_entries (header handle)) \<le> fsize fd"
    and small: "fsize fd + unat (N * ucast M * word_of_nat (gsd_sizeof_type type) :: 64 word)
                + 128 * unat (index_allocated_entries (header handle)) < 2 ^ 63"
  shows "\<exists>handle' fd'.
           gsd_write_chunk (Some handle) fd name type N M 0 (Some bytes)
             = (GSD_SUCCESS, Some handle', fd')
           \<and> unat (index_allocated_entries (header handle'))
               = 2 * unat (index_allocated_entries (header handle))
           \<and> unat (index_location (header handle'))
               = fsize fd + unat (N * ucast M * word_of_nat (gsd_sizeof_type type) :: 64 word)
           \<and> fsize fd' = unat (index_location (header handle'))
                           + 128 * unat (index_allocated_entries (header handle))
           \<and> index_location (dec_header (fbytes fd')) = index_location (header handle')
           \<and> index_allocated_entries (dec_header (fbytes fd'))
               = index_allocated_entries (header handle')
           \<and> (\<forall>k < 64 * unat (index_allocated_entries (header handle)).
                 fbytes fd' (unat (index_location (header handle')) + k)
                 = (if open_flags handle = GSD_OPEN_READWRITE
                    then index_mem (index handle) 0 k
                    else fbytes fd (unat (index_location (header handle)) + k)))
           \<and> (\<forall>k. 64 * unat (index_allocated_entries (header handle)) \<le> k
                    \<and> k < 128 * unat (index_allocated_entries (header handle))
                 \<longrightarrow> fbytes fd' (unat (index_location (header handle')) + k) = 0)
           \<and> (\<forall>a. 256 \<le> a \<and> a < fsize fd \<longrightarrow> fbytes fd' a = fbytes fd a)
           \<and> (\<forall>i < unat (index_allocated_entries (header handle)).
                 dec_entry (fbytes fd') (unat (index_location (header handle')) + 64 * i)
                 = (if open_flags handle = GSD_OPEN_READWRITE then index handle i
                    else dec_entry (fbytes fd)
                           (unat (index_location (header handle)) + 64 * i))
                 \<and> dec_entry (fbytes fd') (unat (index_location (header handle)) + 64 * i)
                   = dec_entry (fbytes fd) (unat (index_location (header handle)) + 64 * i)
                 \<and> (open_flags handle = GSD_OPEN_READWRITE
                      \<longrightarrow> index handle' i = index handle i))"
proof -
  define old where "old = unat (index_allocated_entries (header handle))"
  define ol where "ol = unat (index_location (header handle))"
  define sz :: "64 word" where "sz = N * ucast M * word_of_nat (gsd_sizeof_type type)"
  define L where "L = fsize fd + unat sz"
  note small' = small [folded old_def sz_def]
  note blk' = blk [folded old_def ol_def]
  obtain rc nid h1 where id0: "write_chunk_id handle name = (rc, nid, h1)"
    by (cases "write_chunk_id handle name") auto
  have id: "write_chunk_id handle name = (GSD_SUCCESS, nid, h1)"
    using idok id0 by simp
  have fr: "header h1 = header handle" "index h1 = index handle"
    "open_flags h1 = open_flags handle" "file_size h1 = file_size handle"
    "index_num_entries h1 = index_num_entries handle"
    using write_chunk_id_frame [OF id] by simp_all
  have ufs: "unat (lseek_end fd) = fsize fd"
    using small by (simp add: lseek_end_def unat_of_nat)
  define fd1 where "fd1 = (if unat sz = 0 then fd else pwrite fd (mem_of bytes) (unat sz) (fsize fd))"
  have w: "gsd_pwrite_retry fd (mem_of bytes) (unat sz) (lseek_end fd) = (int (unat sz), fd1)"
    using pwrite_retry_ok [of "lseek_end fd" "unat sz" fd "mem_of bytes"] small'
    by (simp add: ufs fd1_def)
  have s1: "fsize fd1 = L"
    by (simp add: fd1_def fsize_pwrite L_def)
  have b1: "fbytes fd1 a = fbytes fd a" if "a < fsize fd" for a
    using that by (simp add: fd1_def fbytes_pwrite)
  define h2 where "h2 = h1\<lparr>file_size := lseek_end fd + sz\<rparr>"
  have h2: "header h2 = header handle" "index h2 = index handle"
    "open_flags h2 = open_flags handle" "index_num_entries h2 = index_num_entries handle"
    by (simp_all add: h2_def fr)
  have "\<exists>fd'. gsd_expand_index h2 fd1 = (GSD_SUCCESS, expanded_handle h2 fd1, fd')
           \<and> fsize fd' = fsize fd1 + 128 * unat (index_allocated_entries (header h2))
           \<and> (\<forall>a < 256. fbytes fd' a
                 = mem_of (enc_header (header (expanded_handle h2 fd1))) a)
           \<and> (\<forall>a. 256 \<le> a \<and> a < fsize fd1 \<longrightarrow> fbytes fd' a = fbytes fd1 a)
           \<and> (\<forall>k < 64 * unat (index_allocated_entries (header h2)).
                 fbytes fd' (fsize fd1 + k)
                 = (if open_flags h2 = GSD_OPEN_READWRITE
                    then index_mem (index h2) 0 k
                    else fbytes fd1 (unat (index_location (header h2)) + k)))
           \<and> (\<forall>k. 64 * unat (index_allocated_entries (header h2)) \<le> k
                    \<and> k < 128 * unat (index_allocated_entries (header h2))
                 \<longrightarrow> fbytes fd' (fsize fd1 + k) = 0)"
    using wr small' blk' hdr
    by (intro expand_index_spec) (simp_all add: h2 s1 L_def old_def ol_def)
  then obtain fd' where e:
    "gsd_expand_index h2 fd1 = (GSD_SUCCESS, expanded_handle h2 fd1, fd')"
    "fsize fd' = L + 128 * old"
    "\<And>a. a < 256 \<Longrightarrow> fbytes fd' a = mem_of (enc_header (header (expanded_handle h2 fd1))) a"
    "\<And>a. 256 \<le> a \<Longrightarrow> a < L \<Longrightarrow> fbytes fd' a = fbytes fd1 a"
    "\<And>k. k < 64 * old \<Longrightarrow> fbytes fd' (L + k)
        = (if open_flags handle = GSD_OPEN_READWRITE then index_mem (index handle) 0 k
           else fbytes fd1 (ol + k))"
    "\<And>k. 64 * old \<le> k \<Longrightarrow> k < 128 * old \<Longrightarrow> fbytes fd' (L + k) = 0"
    unfolding h2 s1 old_def [symmetric] ol_def [symmetric] by blast
  define entry where "entry = \<lparr> e_frame = cur_frame handle, e_N = N,
      e_location = file_size h1, e_M = M, e_id = nid, e_type = word_of_nat type, e_flags = 0 \<rparr>"
  define handle' where "handle' = write_chunk_slot (expanded_handle h2 fd1) entry"
  have nm: "uint sz \<noteq> - 1"
    using uint_ge_0 [of sz] by linarith
  have run: "gsd_write_chunk (Some handle) fd name type N M 0 (Some bytes)
             = (GSD_SUCCESS, Some handle', fd')"
    using wr args full
    by (simp add: gsd_write_chunk_def id Let_def sz_def [symmetric] fr sync w nm
          h2_def [symmetric] h2 e(1) handle'_def entry_def)
  have hh: "header handle' = header (expanded_handle h2 fd1)"
    by (simp add: handle'_def write_chunk_slot_def Let_def)
  have hx: "index_allocated_entries (header (expanded_handle h2 fd1))
              = index_allocated_entries (header handle) * 2"
    "index_location (header (expanded_handle h2 fd1)) = lseek_end fd1"
    by (simp_all add: expanded_handle_def h2)
  have uL: "unat (lseek_end fd1) = L"
    unfolding lseek_end_def s1 using small' by (intro unat_of_nat64) (simp add: L_def)
  have c2: "unat (index_allocated_entries (header handle')) = 2 * old"
    using small' unat_sizes(1) [of "index_allocated_entries (header handle)"]
    by (simp add: hh hx old_def)
  have c3: "unat (index_location (header handle')) = L"
    by (simp add: hh hx uL)
  have c5: "index_location (dec_header (fbytes fd')) = index_location (header handle')"
    "index_allocated_entries (dec_header (fbytes fd')) = index_allocated_entries (header handle')"
    unfolding hh by (rule header_fields_stored, rule e(3), assumption)+
  have c7: "fbytes fd' (L + k)
            = (if open_flags handle = GSD_OPEN_READWRITE then index_mem (index handle) 0 k
               else fbytes fd (ol + k))" if "k < 64 * old" for k
    using e(5) [OF that] b1 [of "ol + k"] that blk' by simp
  have c9: "fbytes fd' a = fbytes fd a" if "256 \<le> a" "a < fsize fd" for a
    using e(4) [of a] b1 [of a] that by (simp add: L_def)
  have c10: "dec_entry (fbytes fd') (L + 64 * i)
             = (if open_flags handle = GSD_OPEN_READWRITE then index handle i
                else dec_entry (fbytes fd) (ol + 64 * i))" if "i < old" for i
  proof (cases "open_flags handle = GSD_OPEN_READWRITE")
    case True
    have "dec_entry (fbytes fd') (L + 64 * i) = index handle i"
      using that c7 True by (intro dec_entry_index_mem [where n = old]) simp_all
    then show ?thesis using True by simp
  next
    case False
    have "dec_entry (fbytes fd') (L + 64 * i) = dec_entry (fbytes fd) (ol + 64 * i)"
    proof (rule dec_entry_cong)
      fix j :: nat
      assume "j < 64"
      then have "64 * i + j < 64 * old" using that by simp
      from c7 [OF this] show "fbytes fd' (L + 64 * i + j) = fbytes fd (ol + 64 * i + j)"
        using False by (simp add: add.assoc)
    qed
    then show ?thesis using False by simp
  qed
  have c11: "dec_entry (fbytes fd') (ol + 64 * i) = dec_entry (fbytes fd) (ol + 64 * i)"
    if "i < old" for i
  proof (rule dec_entry_cong)
    fix j :: nat
    assume "j < 64"
    then have "ol + 64 * i + j < fsize fd" "256 \<le> ol + 64 * i + j"
      using that blk' hdr by (simp_all add: ol_def)
    then show "fbytes fd' (ol + 64 * i + j) = fbytes fd (ol + 64 * i + j)"
      using c9 by simp
  qed
  have c12: "index handle' i = index handle i"
    if "i < old" "open_flags handle = GSD_OPEN_READWRITE" for i
    using that full
    by (simp add: handle'_def write_chunk_slot_def expanded_handle_def h2 Let_def old_def)
  show ?thesis
    unfolding old_def [symmetric] ol_def [symmetric] sz_def [symmetric]
    using run c2 c3 e(2) c5 c7 e(6) c9 c10 c11 c12 unfolding L_def [symmetric]
    by (intro exI [of _ handle'] exI [of _ fd']) simp
qed

text \<open>Witness of C3: a one-byte chunk written through a read/write handle whose 128 index
  slots are in use.\<close>

theorem write_chunk_expands_index_witness:
  "open_flags full_handle \<noteq> GSD_OPEN_READONLY
   \<and> fst (write_chunk_id full_handle (str ''x'')) = GSD_SUCCESS
   \<and> file_size full_handle = lseek_end (fresh_file (str ''app'') (str ''s'') 0)
   \<and> unat (index_allocated_entries (header full_handle)) = 128
   \<and> index_num_entries full_handle = 128
   \<and> (\<exists>handle' fd'.
         gsd_write_chunk (Some full_handle) (fresh_file (str ''app'') (str ''s'') 0) (str ''x'')
           GSD_TYPE_UINT8 1 1 0 (Some [7]) = (GSD_SUCCESS, Some handle', fd')
         \<and> unat (index_allocated_entries (header handle')) = 256
         \<and> unat (index_location (header handle')) = 4202689
         \<and> fsize fd' = 4219073
         \<and> dec_entry (fbytes fd') (4202689 + 64 * 5) = wit_chunk\<lparr>e_frame := 5\<rparr>
         \<and> fbytes fd' (4202689 + 8192) = 0
         \<and> index handle' 5 = wit_chunk\<lparr>e_frame := 5\<rparr>)"
proof -
  have f: "open_flags full_handle = GSD_OPEN_READWRITE"
    "header full_handle = fresh_header (str ''app'') (str ''s'') 0"
    "file_size full_handle = 4202688" "index_num_entries full_handle = 128"
    "index full_handle 5 = wit_chunk\<lparr>e_frame := 5\<rparr>"
    by (simp_all add: full_handle_def fresh_handle_def zero_handle_def)
  have l: "lseek_end (fresh_file (str ''app'') (str ''s'') 0) = 4202688"
    by (simp add: lseek_end_def)
  have i: "fst (write_chunk_id full_handle (str ''x'')) = GSD_SUCCESS"
    by (simp add: write_chunk_id_def gsd_get_id_def gsd_find_name_def gsd_append_name_def
          full_handle_def fresh_handle_def zero_handle_def Let_def UINT16_MAX_def)
  have s: "unat (1 * ucast (1 :: 32 word) * word_of_nat (gsd_sizeof_type GSD_TYPE_UINT8) :: 64 word)
           = 1"
    by (simp add: gsd_sizeof_type_def GSD_TYPE_UINT8_def)
  have t: "gsd_sizeof_type GSD_TYPE_UINT8 \<noteq> 0"
    by (simp add: gsd_sizeof_type_def GSD_TYPE_UINT8_def)
  obtain handle' fd' where r:
    "gsd_write_chunk (Some full_handle) (fresh_file (str ''app'') (str ''s'') 0) (str ''x'')
           GSD_TYPE_UINT8 1 1 0 (Some [7]) = (GSD_SUCCESS, Some handle', fd')"
    "unat (index_allocated_entries (header handle')) = 256"
    "unat (index_location (header handle')) = 4202689"
    "fsize fd' = 4219073"
    "\<And>k. 8192 \<le> k \<Longrightarrow> k < 16384 \<Longrightarrow> fbytes fd' (4202689 + k) = 0"
    "\<And>i. i < 128 \<Longrightarrow> dec_entry (fbytes fd') (4202689 + 64 * i) = index full_handle i
                           \<and> index handle' i = index full_handle i"
    using write_chunk_expands_index [of full_handle 1 1 GSD_TYPE_UINT8 "str ''x''"
        "fresh_file (str ''app'') (str ''s'') 0" "[7]"] i t
    unfolding s by (auto simp add: f l)
  show ?thesis
    using r(1,2,3,4) r(5) [of 8192] r(6) [of 5]
    by (simp add: f l i)
qed

subsection \<open>Names written twice in a frame\<close>

lemma find_name_loop_cong:
  assumes "\<And>i. i < R \<Longrightarrow> nms ! i = nms' ! i" "L < R"
  shows "find_name_loop nms name len L R = find_name_loop nms' name len L R"
  using assms
proof (induction nms name len L R rule: find_name_loop.induct)
  case (1 nms name len L R)
  define m where "m = (L + R) div 2"
  have m: "m < R" using "1.prems"(2) by (simp add: m_def)
  have e: "nms ! m = nms' ! m" using "1.prems"(1) m by simp
  define cmp where "cmp = strncmp name (fst (nms' ! m)) len"
  have lo: "find_name_loop nms name len L m = find_name_loop nms' name len L m"
    if "cmp < 0" "m - L > 1"
    using that "1.prems"(1) m
    by (intro "1.IH"(1) [OF m_def]) (simp_all add: cmp_def e)
  have hi: "find_name_loop nms name len m R = find_name_loop nms' name len m R"
    if "\<not> cmp < 0" "cmp \<noteq> 0" "R - m > 1"
    using that "1.prems"(1) m
    by (intro "1.IH"(2) [OF m_def]) (simp_all add: cmp_def e)
  show ?case
    using lo hi
    by (subst (1 2) find_name_loop.simps)
       (simp add: Let_def m_def [symmetric] e cmp_def [symmetric])
qed

lemma find_name_cong:
  assumes "namelist_written_entries h' = namelist_written_entries h"
    and "\<And>i. i < namelist_written_entries h \<Longrightarrow> names h' ! i = names h ! i"
  shows "gsd_find_name h' name = gsd_find_name h name"
proof (cases "namelist_written_entries h = 0")
  case True
  then show ?thesis by (simp add: gsd_find_name_def assms(1))
next
  case False
  then have 0: "names h' ! 0 = names h ! 0" using assms(2) by simp
  have "find_name_loop (names h') name (strlen name) 0 (namelist_written_entries h)
        = find_name_loop (names h) name (strlen name) 0 (namelist_written_entries h)"
    using False assms(2) by (intro find_name_loop_cong) simp_all
  then show ?thesis
    by (simp add: gsd_find_name_def assms(1) 0 Let_def)
qed

lemma expand_index_names:
  assumes "gsd_expand_index h fd = (rc, h', fd')"
  shows "names h' = names h \<and> namelist h' = namelist h
         \<and> namelist_num_entries h' = namelist_num_entries h
         \<and> namelist_written_entries h' = namelist_written_entries h
         \<and> namelist_allocated_entries (header h') = namelist_allocated_entries (header h)
         \<and> open_flags h' = open_flags h"
  using assms
  by (auto simp: gsd_expand_index_def expand_write_header_def Let_def
      split: prod.splits if_splits)

lemma write_chunk_slot_names:
  "names (write_chunk_slot h e) = names h \<and> namelist (write_chunk_slot h e) = namelist h
   \<and> namelist_num_entries (write_chunk_slot h e) = namelist_num_entries h
   \<and> namelist_written_entries (write_chunk_slot h e) = namelist_written_entries h
   \<and> namelist_allocated_entries (header (write_chunk_slot h e))
       = namelist_allocated_entries (header h)
   \<and> open_flags (write_chunk_slot h e) = open_flags h"
  by (simp add: write_chunk_slot_def Let_def)

lemma write_chunk_names:
  assumes "gsd_write_chunk (Some h) fd name type N M fl (Some d) = (GSD_SUCCESS, Some h', fd')"
  shows "\<exists>nid hx. write_chunk_id h name = (GSD_SUCCESS, nid, hx)
           \<and> names h' = names hx \<and> namelist h' = namelist hx
           \<and> namelist_num_entries h' = namelist_num_entries hx
           \<and> namelist_written_entries h' = namelist_written_entries hx
           \<and> namelist_allocated_entries (header h') = namelist_allocated_entries (header hx)
           \<and> open_flags h' = open_flags hx"
proof -
  obtain rc nid hx where id: "write_chunk_id h name = (rc, nid, hx)"
    by (cases "write_chunk_id h name") auto
  have "rc = GSD_SUCCESS \<and> names h' = names hx \<and> namelist h' = namelist hx
           \<and> namelist_num_entries h' = namelist_num_entries hx
           \<and> namelist_written_entries h' = namelist_written_entries hx
           \<and> namelist_allocated_entries (header h') = namelist_allocated_entries (header hx)
           \<and> open_flags h' = open_flags hx"
    using assms
    by (auto simp: gsd_write_chunk_def id Let_def write_chunk_slot_names
          split: prod.splits if_splits dest!: expand_index_names)
  then show ?thesis
    using id by simp
qed

lemma write_chunk_id_appends:
  assumes nf: "gsd_find_name h name = UINT16_MAX"
    and ok: "write_chunk_id h name = (GSD_SUCCESS, nid, hx)"
    and inv: "namelist_written_entries h \<le> namelist_num_entries h"
      "namelist_num_entries h \<le> length (names h)"
  shows "nid = word_of_nat (namelist_num_entries h)
         \<and> namelist_num_entries hx = namelist_num_entries h + 1
         \<and> namelist_written_entries hx = namelist_written_entries h
         \<and> namelist hx = (namelist h)(namelist_num_entries h := strncpy name 63 @ [0])
         \<and> names hx = take (namelist_num_entries h) (names h)
                         @ [(take 63 (c_str name), word_of_nat (namelist_num_entries h))]
         \<and> gsd_find_name hx name = UINT16_MAX
         \<and> namelist_allocated_entries (header hx) = namelist_allocated_entries (header h)"
proof -
  have g: "gsd_get_id h name = UINT16_MAX"
    by (simp add: gsd_get_id_def nf)
  have a: "nid = word_of_nat (namelist_num_entries h)"
    "namelist_num_entries hx = namelist_num_entries h + 1"
    "namelist_written_entries hx = namelist_written_entries h"
    "namelist hx = (namelist h)(namelist_num_entries h := strncpy name 63 @ [0])"
    "names hx = take (namelist_num_entries h) (names h)
                 @ [(take 63 (c_str name), word_of_nat (namelist_num_entries h))]"
    "namelist_allocated_entries (header hx) = namelist_allocated_entries (header h)"
    using ok
    by (auto simp: write_chunk_id_def g gsd_append_name_def Let_def
          sizeof_gsd_namelist_entry_def split: if_splits)
  have "gsd_find_name hx name = gsd_find_name h name"
  proof (rule find_name_cong)
    show "namelist_written_entries hx = namelist_written_entries h" by (rule a(3))
    fix i assume "i < namelist_written_entries h"
    then show "names hx ! i = names h ! i"
      using inv by (simp add: a(5) nth_append)
  qed
  then show ?thesis
    using a nf by simp
qed

text \<open>
  The behaviour that claim C10 describes, for every name that the lookup does not find:
  after the first write the lookup still fails, and two successful writes in a frame append
  two namelist entries with the same name and distinct ids.
\<close>

lemma write_twice_appends_twice:
  assumes nf: "gsd_find_name h name = UINT16_MAX"
    and inv: "namelist_written_entries h \<le> namelist_num_entries h"
      "namelist_num_entries h \<le> length (names h)" "namelist_num_entries h + 1 < 65536"
    and w1: "gsd_write_chunk (Some h) fd name type N M fl (Some d)
             = (GSD_SUCCESS, Some h1, fd1)"
    and w2: "gsd_write_chunk (Some h1) fd1 name type' N' M' fl' (Some d')
             = (GSD_SUCCESS, Some h2, fd2)"
  shows "gsd_find_name h1 name = UINT16_MAX
         \<and> namelist_num_entries h1 = namelist_num_entries h + 1
         \<and> namelist_num_entries h2 = namelist_num_entries h + 2
         \<and> namelist_written_entries h2 = namelist_written_entries h
         \<and> namelist h2 (namelist_num_entries h) = strncpy name 63 @ [0]
         \<and> namelist h2 (namelist_num_entries h + 1) = strncpy name 63 @ [0]
         \<and> fst (names h2 ! namelist_num_entries h)
             = fst (names h2 ! (namelist_num_entries h + 1))
         \<and> snd (names h2 ! namelist_num_entries h)
             \<noteq> snd (names h2 ! (namelist_num_entries h + 1))"
proof -
  define n where "n = namelist_num_entries h"
  obtain nid hx where x: "write_chunk_id h name = (GSD_SUCCESS, nid, hx)"
    "names h1 = names hx" "namelist h1 = namelist hx"
    "namelist_num_entries h1 = namelist_num_entries hx"
    "namelist_written_entries h1 = namelist_written_entries hx"
    using write_chunk_names [OF w1] by blast
  note a = write_chunk_id_appends [OF nf x(1) inv(1,2), folded n_def]
  have f1: "gsd_find_name h1 name = UINT16_MAX"
  proof -
    have "gsd_find_name h1 name = gsd_find_name hx name"
      by (rule find_name_cong) (simp_all add: x)
    then show ?thesis using a by simp
  qed
  have n1: "namelist_num_entries h1 = n + 1"
    "namelist_written_entries h1 = namelist_written_entries h"
    "length (names h1) = n + 1"
    "namelist h1 = (namelist h)(n := strncpy name 63 @ [0])"
    "names h1 = take n (names h) @ [(take 63 (c_str name), word_of_nat n)]"
    using a inv(2) by (simp_all add: x n_def)
  obtain nid' hy where y: "write_chunk_id h1 name = (GSD_SUCCESS, nid', hy)"
    "names h2 = names hy" "namelist h2 = namelist hy"
    "namelist_num_entries h2 = namelist_num_entries hy"
    "namelist_written_entries h2 = namelist_written_entries hy"
    using write_chunk_names [OF w2] by blast
  have b: "namelist_num_entries hy = n + 1 + 1"
    "namelist_written_entries hy = namelist_written_entries h"
    "namelist hy = (namelist h1)(n + 1 := strncpy name 63 @ [0])"
    "names hy = take (n + 1) (names h1) @ [(take 63 (c_str name), word_of_nat (n + 1))]"
    using write_chunk_id_appends [OF f1 y(1)] inv(1) n1(1,2,3) by (simp_all add: n_def)
  have ids: "(word_of_nat n :: 16 word) \<noteq> word_of_nat (n + 1)"
  proof
    assume "(word_of_nat n :: 16 word) = word_of_nat (n + 1)"
    then have "unat (word_of_nat n :: 16 word) = unat (word_of_nat (n + 1) :: 16 word)"
      by simp
    then show False
      using inv(3) by (simp add: unat_of_nat n_def del: of_nat_add of_nat_Suc)
  qed
  have nm: "names h2 ! n = (take 63 (c_str name), word_of_nat n)"
    "names h2 ! (n + 1) = (take 63 (c_str name), word_of_nat (n + 1))"
    using n1(3) inv(2) by (simp_all add: y(2) b(4) n1(5) nth_append n_def)
  have nm2: "names h2 ! Suc n = (take 63 (c_str name), word_of_nat (n + 1))"
    using nm(2) by simp
  show ?thesis
    unfolding n_def [symmetric]
    using f1 n1(1) ids by (simp add: y(3,4,5) b(1,2,3) n1(4) nm(1) nm2)
qed

end
